(* ===== verification/Prelude.thy ===== *)
theory Prelude
  imports Main "HOL-Library.Word" "HOL-Library.Sublist"
begin

text \<open>
  Shared vocabulary of the development: ECMAScript strings as lists of UTF-16
  code units, string literals, the JavaScript notions the sources use everywhere
  (truthiness, the nullish operator, \<open>Array.find\<close>, \<open>Map\<close>, insertion-ordered
  objects and sets, \<open>String.trim\<close>, \<open>String.includes\<close>), JSON values, and the
  lemmas on them the components share.
\<close>

section \<open>Strings\<close>

type_synonym jchar = "16 word"
type_synonym jstring = "jchar list"

text \<open>An ASCII literal as the list of its code units.\<close>

definition js :: "string \<Rightarrow> jstring" where
  "js s = map of_char s"

lemma of_char_jchar_nat: "unat (of_char c :: jchar) = of_char c"
proof -
  have "of_char c < (2::nat) ^ 16"
    by (rule less_trans [OF nat_of_char_less_256]) simp
  then have "unat (of_nat (of_char c) :: jchar) = of_char c"
    by (simp add: unsigned_of_nat take_bit_nat_eq_self)
  then show ?thesis by (simp only: of_nat_of_char)
qed

lemma of_char_jchar_inject [simp]: "(of_char c :: jchar) = of_char d \<longleftrightarrow> c = d"
  by (metis of_char_jchar_nat of_char_eq_iff)

lemma js_inject [simp]: "js s = js t \<longleftrightarrow> s = t"
  unfolding js_def by (rule inj_map_eq_map) (simp add: inj_def)

lemma js_Nil [simp]: "js [] = []"
  by (simp add: js_def)

lemma js_eq_Nil [simp]: "js s = [] \<longleftrightarrow> s = []" "[] = js s \<longleftrightarrow> s = []"
  by (auto simp: js_def)

lemma js_append: "js (s @ t) = js s @ js t"
  by (simp add: js_def)

lemma length_js [simp]: "length (js s) = length s"
  by (simp add: js_def)

text \<open>A string is truthy when it is not empty.\<close>

abbreviation truthy :: "jstring \<Rightarrow> bool" where
  "truthy s \<equiv> s \<noteq> []"

text \<open>\<open>Boolean(x)\<close> of a \<open>string | undefined\<close>.\<close>

definition truthy_opt :: "jstring option \<Rightarrow> bool" where
  "truthy_opt x = (case x of None \<Rightarrow> False | Some s \<Rightarrow> truthy s)"

lemma truthy_opt_simps [simp]:
  "truthy_opt None = False" "truthy_opt (Some s) = truthy s"
  by (simp_all add: truthy_opt_def)

text \<open>The nullish operator \<open>x ?? d\<close> on an optional value.\<close>

definition nullish :: "'a option \<Rightarrow> 'a \<Rightarrow> 'a" where
  "nullish x d = (case x of None \<Rightarrow> d | Some v \<Rightarrow> v)"

lemma nullish_simps [simp]: "nullish None d = d" "nullish (Some v) d = v"
  by (simp_all add: nullish_def)

text \<open>\<open>s.startsWith(p)\<close> and \<open>s.includes(sub)\<close>.\<close>

definition starts_with :: "jstring \<Rightarrow> jstring \<Rightarrow> bool" where
  "starts_with s p = (take (length p) s = p)"

lemma starts_with_prefix: "starts_with s p \<longleftrightarrow> prefix p s"
  unfolding starts_with_def by (metis append_eq_conv_conj prefix_def take_is_prefix)

lemma starts_with_append [simp]: "starts_with (p @ s) p"
  by (simp add: starts_with_prefix)

fun str_includes :: "jstring \<Rightarrow> jstring \<Rightarrow> bool" where
  "str_includes [] sub = (sub = [])"
| "str_includes (c # cs) sub = (starts_with (c # cs) sub \<or> str_includes cs sub)"

lemma str_includes_sublist: "str_includes s sub \<longleftrightarrow> sublist sub s"
  by (induction s) (auto simp: starts_with_prefix sublist_Cons_right)

lemma str_includesI: "str_includes (a @ sub @ b) sub"
  by (simp add: str_includes_sublist)

text \<open>White space and line terminators of ECMAScript, as \<open>trim\<close> and \<open>\\s\<close> use them.\<close>

definition is_space :: "jchar \<Rightarrow> bool" where
  "is_space c = (c \<in> {9, 10, 11, 12, 13, 32, 0xA0, 0x1680, 0x2028, 0x2029, 0x202F, 0x205F, 0x3000, 0xFEFF}
     \<or> (0x2000 \<le> c \<and> c \<le> 0x200A))"

definition trim :: "jstring \<Rightarrow> jstring" where
  "trim s = rev (dropWhile is_space (rev (dropWhile is_space s)))"

lemma dropWhile_rev_Nil: "dropWhile P (rev xs) = [] \<longleftrightarrow> (\<forall>x\<in>set xs. P x)"
  by (metis dropWhile_eq_Nil_conv set_rev)

lemma trim_eq_Nil: "trim s = [] \<longleftrightarrow> (\<forall>c\<in>set s. is_space c)"
proof -
  have "trim s = [] \<longleftrightarrow> (\<forall>c\<in>set (dropWhile is_space s). is_space c)"
    by (simp add: trim_def dropWhile_rev_Nil)
  also have "\<dots> \<longleftrightarrow> (\<forall>c\<in>set s. is_space c)"
    by (induction s) auto
  finally show ?thesis .
qed

lemma trim_idem: "trim (trim s) = trim s"
proof -
  have idem: "dropWhile P (rev (dropWhile P (rev (dropWhile P t)))) = rev (dropWhile P (rev (dropWhile P t)))"
    for P :: "jchar \<Rightarrow> bool" and t
  proof (cases "dropWhile P t")
    case (Cons c cs)
    then have "\<not> P c" by (metis hd_dropWhile list.sel(1) list.simps(3))
    then have "dropWhile P (rev cs @ [c]) = dropWhile P (rev cs) @ [c]"
      by (simp add: dropWhile_append dropWhile_append3)
    with Cons \<open>\<not> P c\<close> show ?thesis by simp
  next
    case Nil
    then show ?thesis by (simp only: Nil rev.simps dropWhile.simps)
  qed
  have "dropWhile P (dropWhile P u) = dropWhile P u" for P :: "jchar \<Rightarrow> bool" and u
    by (induction u) auto
  then show ?thesis unfolding trim_def by (simp only: idem rev_rev_ident)
qed

text \<open>Decimal numerals, as template literals print integers.\<close>

definition digit_char :: "nat \<Rightarrow> jchar" where
  "digit_char d = of_nat (48 + d)"

fun show_nat :: "nat \<Rightarrow> jstring" where
  "show_nat n = (if n < 10 then [digit_char n] else show_nat (n div 10) @ [digit_char (n mod 10)])"

declare show_nat.simps [simp del]

definition show_int :: "int \<Rightarrow> jstring" where
  "show_int i = (if i < 0 then js ''-'' @ show_nat (nat (- i)) else show_nat (nat i))"

lemma show_nat_not_Nil [simp]: "show_nat n \<noteq> []"
  by (subst show_nat.simps) simp

section \<open>Insertion-ordered objects, maps and sets\<close>

text \<open>
  A \<open>Record<string, V>\<close> is an association list in insertion order: an
  assignment to an existing key keeps its place, a new key goes to the end,
  \<open>delete\<close> removes the entry.
\<close>

type_synonym 'v obj = "(jstring \<times> 'v) list"

definition obj_get :: "'v obj \<Rightarrow> jstring \<Rightarrow> 'v option" where
  "obj_get ob k = map_of ob k"

fun obj_set :: "jstring \<Rightarrow> 'v \<Rightarrow> 'v obj \<Rightarrow> 'v obj" where
  "obj_set k v [] = [(k, v)]"
| "obj_set k v (p # ps) = (if fst p = k then (k, v) # ps else p # obj_set k v ps)"

definition obj_delete :: "jstring \<Rightarrow> 'v obj \<Rightarrow> 'v obj" where
  "obj_delete k ob = filter (\<lambda>p. fst p \<noteq> k) ob"

definition obj_ok :: "'v obj \<Rightarrow> bool" where
  "obj_ok ob = distinct (map fst ob)"

lemma obj_get_set [simp]: "obj_get (obj_set k v ob) j = (if j = k then Some v else obj_get ob j)"
  by (induction ob) (auto simp: obj_get_def)

lemma obj_get_delete [simp]: "obj_get (obj_delete k ob) j = (if j = k then None else obj_get ob j)"
  by (induction ob) (auto simp: obj_get_def obj_delete_def)

lemma obj_get_Nil [simp]: "obj_get [] k = None"
  by (simp add: obj_get_def)

lemma keys_obj_set: "set (map fst (obj_set k v ob)) = insert k (set (map fst ob))"
  by (induction ob) auto

lemma obj_set_ok: "obj_ok ob \<Longrightarrow> obj_ok (obj_set k v ob)"
proof (induction ob)
  case (Cons p ps)
  then show ?case using keys_obj_set [of k v ps] by (auto simp: obj_ok_def)
qed (simp add: obj_ok_def)

lemma obj_delete_ok: "obj_ok ob \<Longrightarrow> obj_ok (obj_delete k ob)"
  by (auto simp: obj_ok_def obj_delete_def distinct_map intro: inj_on_subset)

text \<open>
  The contract of a string-keyed store: what a lookup returns after an update or
  a deletion, and that the operations keep the well-formedness of the store.
\<close>

locale dict =
  fixes empty :: "'d"
    and get :: "'d \<Rightarrow> jstring \<Rightarrow> 'v option"
    and put :: "jstring \<Rightarrow> 'v \<Rightarrow> 'd \<Rightarrow> 'd"
    and del :: "jstring \<Rightarrow> 'd \<Rightarrow> 'd"
    and ok :: "'d \<Rightarrow> bool"
  assumes get_empty: "get empty k = None"
    and get_put: "get (put k v d) j = (if j = k then Some v else get d j)"
    and get_del: "get (del k d) j = (if j = k then None else get d j)"
    and ok_empty: "ok empty"
    and ok_put: "ok d \<Longrightarrow> ok (put k v d)"
    and ok_del: "ok d \<Longrightarrow> ok (del k d)"
begin

text \<open>Storing the pairs of a list one after another, as the loops of the sources do.\<close>

lemma get_fold_put:
  "get (fold (\<lambda>x. put (f x) (g x)) xs d) k =
     (case find (\<lambda>x. f x = k) (rev xs) of Some x \<Rightarrow> Some (g x) | None \<Rightarrow> get d k)"
proof (induction xs rule: rev_induct)
  case (snoc x xs)
  then show ?case by (simp add: get_put)
qed simp

lemma ok_fold_put: "ok d \<Longrightarrow> ok (fold (\<lambda>x. put (f x) (g x)) xs d)"
  by (induction xs arbitrary: d) (simp_all add: ok_put)

lemma get_fold_put_filter:
  assumes "get d k = None" and "\<forall>x\<in>set xs. f x = k \<longrightarrow> g x = v" and "\<exists>x\<in>set xs. f x = k"
  shows "get (fold (\<lambda>x. put (f x) (g x)) xs d) k = Some v"
proof (cases "find (\<lambda>x. f x = k) (rev xs)")
  case None
  with assms(3) show ?thesis by (auto simp: find_None_iff)
next
  case (Some x)
  then have "x \<in> set xs" "f x = k" by (auto simp: find_Some_iff) (metis length_rev nth_mem set_rev)
  with Some assms(2) show ?thesis by (simp add: get_fold_put)
qed

end

interpretation object: dict "[] :: 'v obj" obj_get obj_set obj_delete obj_ok
proof unfold_locales
  show "obj_ok []" by (simp add: obj_ok_def)
qed (simp_all add: obj_set_ok obj_delete_ok)

text \<open>\<open>new Map(xs.map(x => [f(x), x])).get(k)\<close>: the last entry of a key wins.\<close>

definition map_get :: "('a \<Rightarrow> jstring) \<Rightarrow> 'a list \<Rightarrow> jstring \<Rightarrow> 'a option" where
  "map_get f xs k = find (\<lambda>x. f x = k) (rev xs)"

lemma map_get_SomeD: "map_get f xs k = Some x \<Longrightarrow> x \<in> set xs \<and> f x = k"
  unfolding map_get_def by (auto simp: find_Some_iff) (metis length_rev nth_mem set_rev)

lemma map_get_None: "map_get f xs k = None \<longleftrightarrow> k \<notin> f ` set xs"
  by (auto simp: map_get_def find_None_iff)

lemma map_get_distinct:
  "distinct (map f xs) \<Longrightarrow> x \<in> set xs \<Longrightarrow> map_get f xs (f x) = Some x"
proof (cases "map_get f xs (f x)")
  case (Some y)
  assume "distinct (map f xs)" "x \<in> set xs"
  then show ?thesis using map_get_SomeD [OF Some] Some
    by (metis distinct_map inj_on_def)
qed (simp add: map_get_None)

text \<open>\<open>new Set(xs)\<close>: the first occurrence of each element, in order.\<close>

definition js_set :: "'a list \<Rightarrow> 'a list" where
  "js_set xs = rev (remdups (rev xs))"

lemma set_js_set [simp]: "set (js_set xs) = set xs"
  by (simp add: js_set_def)

lemma distinct_js_set [simp]: "distinct (js_set xs)"
  by (simp add: js_set_def)

lemma js_set_id: "distinct xs \<Longrightarrow> js_set xs = xs"
  by (simp add: js_set_def distinct_remdups_id)

text \<open>Toggling an element of an ordered list: remove it when present, append it otherwise.\<close>

definition toggle :: "'a \<Rightarrow> 'a list \<Rightarrow> 'a list" where
  "toggle x xs = (if x \<in> set xs then filter (\<lambda>y. y \<noteq> x) xs else xs @ [x])"

lemma set_toggle: "set (toggle x xs) = (if x \<in> set xs then set xs - {x} else insert x (set xs))"
  by (auto simp: toggle_def)

lemma distinct_toggle: "distinct xs \<Longrightarrow> distinct (toggle x xs)"
  by (simp add: toggle_def)

text \<open>
  The contract of a selection widget: a click flips exactly the element clicked,
  so two clicks restore the selection, and an element is never selected twice.
\<close>

locale selection =
  fixes flip :: "'a \<Rightarrow> 's \<Rightarrow> 's"
    and chosen :: "'s \<Rightarrow> 'a list"
  assumes chosen_flip: "chosen (flip x s) = toggle x (chosen s)"
begin

lemma flip_member: "y \<in> set (chosen (flip x s)) \<longleftrightarrow> (if y = x then y \<notin> set (chosen s) else y \<in> set (chosen s))"
  by (auto simp: chosen_flip set_toggle)

lemma flip_twice: "set (chosen (flip x (flip x s))) = set (chosen s)"
  by (rule set_eqI) (simp add: flip_member)

lemma flip_distinct: "distinct (chosen s) \<Longrightarrow> distinct (chosen (flip x s))"
  by (simp add: chosen_flip distinct_toggle)

lemma flips_member:
  "y \<in> set (chosen (fold flip xs s)) \<longleftrightarrow>
     (if even (count_list xs y) then y \<in> set (chosen s) else y \<notin> set (chosen s))"
  by (induction xs arbitrary: s) (auto simp: flip_member)

lemma flips_distinct: "distinct (chosen s) \<Longrightarrow> distinct (chosen (fold flip xs s))"
  by (induction xs arbitrary: s) (auto simp: flip_distinct)

end

section \<open>JSON values\<close>

datatype json =
    JNull
  | JBool bool
  | JInt int
  | JStr jstring
  | JArr "json list"
  | JObj "(jstring \<times> json) list"

text \<open>\<open>v.k\<close> on a parsed value: \<open>None\<close> is \<open>undefined\<close>.\<close>

fun json_get :: "json \<Rightarrow> jstring \<Rightarrow> json option" where
  "json_get (JObj ps) k = map_of ps k"
| "json_get _ k = None"

text \<open>An object literal: \<open>JSON.stringify\<close> leaves out the properties that are \<open>undefined\<close>.\<close>

definition jobj :: "(jstring \<times> json option) list \<Rightarrow> json" where
  "jobj ps = JObj (List.map_filter (\<lambda>(k, v). map_option (Pair k) v) ps)"

lemma json_get_jobj_Cons [simp]:
  "json_get (jobj ((k, Some v) # ps)) j = (if j = k then Some v else json_get (jobj ps) j)"
  "json_get (jobj ((k, None) # ps)) j = json_get (jobj ps) j"
  "json_get (jobj []) j = None"
  by (simp_all add: jobj_def map_filter_simps)

end
