(* ===== verification/ApiError.thy ===== *)
theory ApiError
  imports Prelude
begin

text \<open>
  The error envelope mapper of both clients: \<^verbatim>\<open>web/src/lib/api-error.ts\<close> and its
  mobile twin \<^verbatim>\<open>mobile/src/lib/api-error.ts\<close>. A response body is an optional
  JSON value (\<open>None\<close> is \<open>undefined\<close>); the mapper accepts it as an error
  envelope exactly when the type guard \<open>isApiErrorBody\<close> does, and otherwise
  falls back to a message chosen by the status. Field entries follow the
  envelope's type: objects whose \<open>field\<close> is a string.
\<close>

section \<open>Data\<close>

record normalized_error =
  ne_code :: json
  ne_message :: json
  ne_fieldErrors :: "json option obj"
  ne_requestId :: "json option"
  ne_status :: nat

text \<open>What the mapper hands to the logger: the message and the fields it names.\<close>

record log_call =
  lc_message :: jstring
  lc_fields :: "json option obj"

text \<open>
  Whatever a promise can reject with: the mapper's result, or an \<open>Error\<close>
  object of the host (a failed \<open>fetch\<close>, a \<open>URIError\<close>) with its message.
\<close>

datatype thrown = Normalized normalized_error | JsError jstring

text \<open>\<open>(e as NormalizedError).message\<close>, \<open>.code\<close> and \<open>.fieldErrors\<close> of such a value.\<close>

fun thrown_message :: "thrown \<Rightarrow> json" where
  "thrown_message (Normalized e) = ne_message e"
| "thrown_message (JsError m) = JStr m"

fun thrown_code :: "thrown \<Rightarrow> json option" where
  "thrown_code (Normalized e) = Some (ne_code e)"
| "thrown_code (JsError m) = None"

fun thrown_fieldErrors :: "thrown \<Rightarrow> json option obj option" where
  "thrown_fieldErrors (Normalized e) = Some (ne_fieldErrors e)"
| "thrown_fieldErrors (JsError m) = None"

fun json_truthy :: "json \<Rightarrow> bool" where
  "json_truthy JNull = False"
| "json_truthy (JBool b) = b"
| "json_truthy (JInt i) = (i \<noteq> 0)"
| "json_truthy (JStr s) = truthy s"
| "json_truthy (JArr _) = True"
| "json_truthy (JObj _) = True"

section \<open>The mapper\<close>

definition isApiErrorBody :: "json option \<Rightarrow> bool" where
  "isApiErrorBody v =
     (case v of
        Some (JObj ps) \<Rightarrow>
          (case map_of ps (js ''error'') of
             Some (JObj es) \<Rightarrow> map_of es (js ''code'') \<noteq> None \<and> map_of es (js ''message'') \<noteq> None
           | _ \<Rightarrow> False)
      | _ \<Rightarrow> False)"

definition friendlyByStatus :: "nat \<Rightarrow> jstring" where
  "friendlyByStatus status =
     (if status = 0 then js ''Network error - check your connection and try again.''
      else if status = 401 then js ''Your session expired. Please sign in again.''
      else if status = 403 then js ''You don't have permission to do that.''
      else if status = 404 then js ''Not found.''
      else if status = 429 then js ''Too many requests - please slow down.''
      else if status \<ge> 500 then js ''Something went wrong on our end. Please try again.''
      else js ''Request failed. Please try again.'')"

definition mobile_friendlyByStatus :: "nat \<Rightarrow> jstring" where
  "mobile_friendlyByStatus status =
     (if status = 0 then js ''Network error. Check your connection and try again.''
      else if status = 401 then js ''Your session expired. Please sign in again.''
      else if status = 403 then js ''You don't have permission to do that.''
      else if status = 404 then js ''Not found.''
      else if status = 429 then js ''Too many requests. Please slow down.''
      else if status \<ge> 500 then js ''Something went wrong on our end. Please try again.''
      else js ''Request failed. Please try again.'')"

text \<open>\<open>f.field\<close> used as a property key.\<close>

definition field_key :: "json \<Rightarrow> jstring" where
  "field_key f = (case json_get f (js ''field'') of Some (JStr s) \<Rightarrow> s | _ \<Rightarrow> js ''undefined'')"

text \<open>\<open>fields ?? []\<close>.\<close>

definition field_list :: "json option \<Rightarrow> json list" where
  "field_list fs = (case fs of Some (JArr xs) \<Rightarrow> xs | _ \<Rightarrow> [])"

definition error_of :: "json option \<Rightarrow> json" where
  "error_of body = (case body of Some b \<Rightarrow> nullish (json_get b (js ''error'')) JNull | None \<Rightarrow> JNull)"

definition normalize_with :: "(nat \<Rightarrow> jstring) \<Rightarrow> nat \<Rightarrow> json option \<Rightarrow> normalized_error" where
  "normalize_with friendly status body =
     (if isApiErrorBody body
      then let err = error_of body in
        \<lparr>ne_code = nullish (json_get err (js ''code'')) JNull,
         ne_message = nullish (json_get err (js ''message'')) JNull,
         ne_fieldErrors = fold (\<lambda>f. obj_set (field_key f) (json_get f (js ''message'')))
                            (field_list (json_get err (js ''fields''))) [],
         ne_requestId = json_get err (js ''request_id''),
         ne_status = status\<rparr>
      else
        \<lparr>ne_code = JStr (if status = 0 then js ''network_error'' else js ''unexpected_error''),
         ne_message = JStr (friendly status),
         ne_fieldErrors = [],
         ne_requestId = None,
         ne_status = status\<rparr>)"

definition normalizeError :: "nat \<Rightarrow> json option \<Rightarrow> normalized_error" where
  "normalizeError = normalize_with friendlyByStatus"

definition mobile_normalizeError :: "nat \<Rightarrow> json option \<Rightarrow> normalized_error" where
  "mobile_normalizeError = normalize_with mobile_friendlyByStatus"

text \<open>The \<open>logger.warn\<close> call the mapper makes on either branch.\<close>

definition normalizeError_log :: "nat \<Rightarrow> json option \<Rightarrow> log_call" where
  "normalizeError_log status body =
     (if isApiErrorBody body
      then let err = error_of body in
        \<lparr>lc_message = js ''api error'',
         lc_fields = [(js ''requestId'', json_get err (js ''request_id'')),
                      (js ''code'', json_get err (js ''code'')),
                      (js ''status'', Some (JInt (int status)))]\<rparr>
      else
        \<lparr>lc_message = js ''api error (unstructured)'',
         lc_fields = [(js ''status'', Some (JInt (int status)))]\<rparr>)"

section \<open>Lemmas\<close>

lemma normalize_status [simp]:
  "ne_status (normalize_with fr s b) = s"
  "ne_status (normalizeError s b) = s"
  "ne_status (mobile_normalizeError s b) = s"
  by (simp_all add: normalize_with_def normalizeError_def mobile_normalizeError_def Let_def)

text \<open>Every envelope the server can send, as a value built from its parts.\<close>

definition envelope :: "json \<Rightarrow> json \<Rightarrow> (jstring \<times> jstring) list \<Rightarrow> json option" where
  "envelope c m fs =
     Some (JObj [(js ''error'', JObj [(js ''code'', c), (js ''message'', m),
       (js ''fields'', JArr (map (\<lambda>(f, t). JObj [(js ''field'', JStr f), (js ''message'', JStr t)]) fs))])])"

lemma envelope_guard [simp]: "isApiErrorBody (envelope c m fs)"
  by (simp add: envelope_def isApiErrorBody_def)

lemma field_entry [simp]:
  "field_key (JObj [(js ''field'', JStr f), (js ''message'', JStr t)]) = f"
  "json_get (JObj [(js ''field'', JStr f), (js ''message'', JStr t)]) (js ''message'') = Some (JStr t)"
  by (simp_all add: field_key_def)

lemma fold_fields:
  "fold (\<lambda>f. obj_set (field_key f) (json_get f (js ''message'')))
     (map (\<lambda>(f, t). JObj [(js ''field'', JStr f), (js ''message'', JStr t)]) fs) ob =
   fold (\<lambda>p. obj_set (fst p) (Some (JStr (snd p)))) fs ob"
  by (induction fs arbitrary: ob) (auto simp: case_prod_beta)

lemma normalizeError_envelope:
  "ne_code (normalizeError s (envelope c m fs)) = c"
  "ne_message (normalizeError s (envelope c m fs)) = m"
  "ne_fieldErrors (normalizeError s (envelope c m fs)) = fold (\<lambda>p. obj_set (fst p) (Some (JStr (snd p)))) fs []"
proof -
  let ?e = "normalizeError s (envelope c m fs)"
  show "ne_fieldErrors ?e = fold (\<lambda>p. obj_set (fst p) (Some (JStr (snd p)))) fs []"
    unfolding normalizeError_def normalize_with_def
    by (simp add: Let_def fold_fields [symmetric]) (simp add: envelope_def error_of_def field_list_def)
  show "ne_code ?e = c" "ne_message ?e = m"
    unfolding normalizeError_def normalize_with_def
    by (simp add: Let_def, simp add: envelope_def error_of_def)+
qed

section \<open>Properties\<close>

text \<open>
  C32. A structured error reaches the user as the server wrote it: code and message
  are the envelope's, and the message kept for a form field is the last one the
  server listed for that field, on both clients.
\<close>

theorem normalizeError_structured:
  "ne_code (normalizeError s (envelope c m fs)) = c \<and>
   ne_message (normalizeError s (envelope c m fs)) = m \<and>
   obj_get (ne_fieldErrors (normalizeError s (envelope c m fs))) k =
     map_option (\<lambda>p. Some (JStr (snd p))) (find (\<lambda>p. fst p = k) (rev fs)) \<and>
   mobile_normalizeError s (envelope c m fs) = normalizeError s (envelope c m fs)"
proof -
  let ?e = "normalizeError s (envelope c m fs)"
  have "obj_get (ne_fieldErrors ?e) k =
      map_option (\<lambda>p. Some (JStr (snd p))) (find (\<lambda>p. fst p = k) (rev fs))"
    unfolding normalizeError_envelope object.get_fold_put by (simp split: option.split)
  moreover have "mobile_normalizeError s (envelope c m fs) = ?e"
    by (simp add: normalizeError_def mobile_normalizeError_def normalize_with_def)
  ultimately show ?thesis by (simp add: normalizeError_envelope)
qed

text \<open>
  A body that is not an error envelope never reaches the user: the whole
  normalized error is then a function of the status alone, and its message is one of
  the seven fixed sentences.
\<close>

theorem normalizeError_unstructured:
  assumes "\<not> isApiErrorBody b1" and "\<not> isApiErrorBody b2"
  shows "normalizeError s b1 = normalizeError s b2 \<and>
    ne_message (normalizeError s b1) = JStr (friendlyByStatus s) \<and>
    ne_fieldErrors (normalizeError s b1) = [] \<and>
    (ne_code (normalizeError s b1) = JStr (js ''network_error'') \<longleftrightarrow> s = 0)"
  using assms by (simp add: normalizeError_def normalize_with_def)

theorem normalizeError_unstructured_witness:
  "normalizeError 404 None = normalizeError 404 (Some (JStr (js ''stack trace''))) \<and>
   ne_message (normalizeError 404 None) = JStr (js ''Not found.'')"
proof -
  have "\<not> isApiErrorBody None" "\<not> isApiErrorBody (Some (JStr (js ''stack trace'')))"
    by (simp_all add: isApiErrorBody_def)
  note unstructured = normalizeError_unstructured [OF this, of 404]
  have "JStr (friendlyByStatus 404) = JStr (js ''Not found.'')"
    by (simp add: friendlyByStatus_def)
  with unstructured show ?thesis by metis
qed

end
