(* ===== verification/Http.thy ===== *)
theory Http
  imports ApiError
begin

text \<open>
  What both API clients use of the platform: requests, responses, headers, the
  promise of \<open>fetch\<close> as a world-passing function that returns a response or
  the message of the rejection, \<open>decodeURIComponent\<close>, and the path of a URL.
\<close>

section \<open>Requests and responses\<close>

record request =
  rq_method :: jstring
  rq_url :: jstring
  rq_headers :: "jstring obj"
  rq_body :: "json option"

text \<open>A response; \<open>rs_json\<close> is \<open>None\<close> when the body does not parse as JSON.\<close>

record response =
  rs_status :: nat
  rs_json :: "json option"
  rs_request_id :: "jstring option"

definition rs_ok :: "response \<Rightarrow> bool" where
  "rs_ok r = (200 \<le> rs_status r \<and> rs_status r \<le> 299)"

type_synonym 'w fetch = "request \<Rightarrow> 'w \<Rightarrow> (jstring + response) \<times> 'w"

definition set_header :: "string \<Rightarrow> jstring \<Rightarrow> request \<Rightarrow> request" where
  "set_header k v r = r\<lparr>rq_headers := obj_set (js k) v (rq_headers r)\<rparr>"

definition header :: "request \<Rightarrow> string \<Rightarrow> jstring option" where
  "header r k = obj_get (rq_headers r) (js k)"

lemma header_set [simp]: "header (set_header k v r) j = (if j = k then Some v else header r j)"
  by (simp add: header_def set_header_def)

lemma set_header_simps [simp]:
  "rq_method (set_header k v r) = rq_method r"
  "rq_url (set_header k v r) = rq_url r"
  "rq_body (set_header k v r) = rq_body r"
  by (simp_all add: set_header_def)

text \<open>Recording every request a client sends, in order.\<close>

definition traced :: "'w fetch \<Rightarrow> ('w \<times> request list) fetch" where
  "traced f r = (\<lambda>(w, tr). case f r w of (x, w') \<Rightarrow> (x, (w', tr @ [r])))"

lemma traced_eq [simp]:
  "traced f r (w, tr) = (fst (f r w), (snd (f r w), tr @ [r]))"
  by (simp add: traced_def case_prod_beta)

text \<open>
  The contract of a client that refreshes a session and retries at most once. A call
  sends the caller's request, then possibly one refresh, then possibly the caller's
  request again; a request the client exempts is sent at most once and never refreshes.
\<close>

definition same_call :: "request \<Rightarrow> request \<Rightarrow> bool" where
  "same_call q r = (rq_method r = rq_method q \<and> rq_url r = rq_url q \<and> rq_body r = rq_body q)"

definition attempt :: "(request \<Rightarrow> bool) \<Rightarrow> (request \<Rightarrow> bool) \<Rightarrow> request \<Rightarrow> request list \<Rightarrow> bool" where
  "attempt is_refresh exempt q ts =
     (ts = [] \<or> (\<exists>q1 rs qs. ts = q1 # rs @ qs \<and> same_call q q1 \<and>
        length rs \<le> 1 \<and> length qs \<le> 1 \<and> (\<forall>r\<in>set rs. is_refresh r) \<and> (\<forall>r\<in>set qs. same_call q r) \<and>
        (exempt q \<longrightarrow> rs = [] \<and> qs = [])))"

lemma attempt_intros:
  "attempt R E q []"
  "same_call q q1 \<Longrightarrow> attempt R E q [q1]"
  "same_call q q1 \<Longrightarrow> R r \<Longrightarrow> \<not> E q \<Longrightarrow> attempt R E q [q1, r]"
  "same_call q q1 \<Longrightarrow> same_call q q2 \<Longrightarrow> \<not> E q \<Longrightarrow> attempt R E q [q1, q2]"
  "same_call q q1 \<Longrightarrow> R r \<Longrightarrow> same_call q q2 \<Longrightarrow> \<not> E q \<Longrightarrow> attempt R E q [q1, r, q2]"
proof -
  show "attempt R E q []" by (simp add: attempt_def)
  show "attempt R E q [q1]" if "same_call q q1"
    unfolding attempt_def using that by (intro disjI2 exI [of _ q1] exI [of _ "[]"]) simp
  show "attempt R E q [q1, r]" if "same_call q q1" "R r" "\<not> E q"
    unfolding attempt_def using that
    by (intro disjI2 exI [of _ q1] exI [of _ "[r]"] exI [of _ "[]"]) simp
  show "attempt R E q [q1, q2]" if "same_call q q1" "same_call q q2" "\<not> E q"
    unfolding attempt_def using that
    by (intro disjI2 exI [of _ q1] exI [of _ "[]"] exI [of _ "[q2]"]) simp
  show "attempt R E q [q1, r, q2]" if "same_call q q1" "R r" "same_call q q2" "\<not> E q"
    unfolding attempt_def using that
    by (intro disjI2 exI [of _ q1] exI [of _ "[r]"] exI [of _ "[q2]"]) simp
qed

fun run_calls :: "('f \<Rightarrow> request \<Rightarrow> 'c \<Rightarrow> 'w \<Rightarrow> 'r \<times> 'c \<times> 'w) \<Rightarrow> 'f \<Rightarrow> request list \<Rightarrow> 'c \<Rightarrow> 'w
    \<Rightarrow> 'r list \<times> 'c \<times> 'w" where
  "run_calls call f [] c w = ([], c, w)"
| "run_calls call f (q # qs) c w =
     (case call f q c w of (r, c1, w1) \<Rightarrow>
       (case run_calls call f qs c1 w1 of (rs, c2, w2) \<Rightarrow> (r # rs, c2, w2)))"

locale retrying_client =
  fixes call :: "('w \<times> request list) fetch \<Rightarrow> request \<Rightarrow> 'c \<Rightarrow> 'w \<times> request list
      \<Rightarrow> 'r \<times> 'c \<times> ('w \<times> request list)"
    and is_refresh :: "request \<Rightarrow> bool"
    and exempt :: "request \<Rightarrow> bool"
  assumes call_trace: "\<exists>ts. snd (snd (snd (call (traced f) q c (w, tr)))) = tr @ ts \<and>
      attempt is_refresh exempt q ts"
begin

text \<open>A whole session: the traffic of a sequence of calls is the concatenation of their attempts.\<close>

lemma run_trace:
  "\<exists>tss. snd (snd (snd (run_calls call (traced f) qs c (w, tr)))) = tr @ concat tss \<and>
     list_all2 (attempt is_refresh exempt) qs tss"
proof (induction qs arbitrary: c w tr)
  case (Cons q qs)
  obtain r c1 w1 tr1 where call: "call (traced f) q c (w, tr) = (r, c1, (w1, tr1))"
    by (metis surj_pair)
  with call_trace [of f q c w tr] obtain ts where
      ts: "tr1 = tr @ ts" "attempt is_refresh exempt q ts" by auto
  obtain tss where "snd (snd (snd (run_calls call (traced f) qs c1 (w1, tr1)))) = tr1 @ concat tss"
      "list_all2 (attempt is_refresh exempt) qs tss"
    using Cons.IH by blast
  with ts call show ?case
    by (intro exI [of _ "ts # tss"]) (simp add: case_prod_beta)
qed simp

lemma attempts_bounded:
  "list_all2 (attempt is_refresh exempt) qs tss \<Longrightarrow>
     length (concat tss) \<le> 3 * length qs"
proof (induction rule: list_all2_induct)
  case (Cons q qs ts tss)
  then have "length ts \<le> 3" by (auto simp: attempt_def)
  with Cons show ?case by simp
qed simp

lemma attempts_exempt:
  "list_all2 (attempt is_refresh exempt) qs tss \<Longrightarrow> \<forall>q\<in>set qs. exempt q \<Longrightarrow>
     length (concat tss) \<le> length qs"
proof (induction rule: list_all2_induct)
  case (Cons q qs ts tss)
  then have "length ts \<le> 1" by (auto simp: attempt_def)
  with Cons show ?case by simp
qed simp

lemma attempts_refreshes:
  "list_all2 (attempt is_refresh exempt) qs tss \<Longrightarrow> \<forall>q\<in>set qs. \<forall>r. same_call q r \<longrightarrow> \<not> is_refresh r \<Longrightarrow>
     length (filter is_refresh (concat tss)) \<le> length qs"
proof (induction rule: list_all2_induct)
  case (Cons q qs ts tss)
  have "length (filter is_refresh ts) \<le> 1"
  proof (cases "ts = []")
    case False
    with Cons.hyps obtain q1 rs qs' where ts: "ts = q1 # rs @ qs'" "same_call q q1" "length rs \<le> 1"
        "\<forall>r\<in>set qs'. same_call q r" by (auto simp: attempt_def)
    with Cons.prems have "filter is_refresh qs' = []" "\<not> is_refresh q1"
      by (auto simp: filter_empty_conv)
    then have "filter is_refresh ts = filter is_refresh rs"
      using ts(1) by simp
    then show ?thesis using ts(3) le_trans [OF length_filter_le] by metis
  qed simp
  with Cons show ?case by simp
qed simp

lemma run_bounded:
  "length (snd (snd (snd (run_calls call (traced f) qs c (w, []))))) \<le> 3 * length qs"
  using run_trace [of f qs c w "[]"] attempts_bounded by fastforce

lemma run_refreshes:
  "\<forall>q\<in>set qs. \<forall>r. same_call q r \<longrightarrow> \<not> is_refresh r \<Longrightarrow>
     length (filter is_refresh (snd (snd (snd (run_calls call (traced f) qs c (w, [])))))) \<le> length qs"
  using run_trace [of f qs c w "[]"] attempts_refreshes by fastforce

lemma run_exempt:
  "\<forall>q\<in>set qs. exempt q \<Longrightarrow>
     length (snd (snd (snd (run_calls call (traced f) qs c (w, []))))) \<le> length qs"
  using run_trace [of f qs c w "[]"] attempts_exempt by fastforce

end

text \<open>\<open>s.toUpperCase()\<close> on the ASCII letters of a method name.\<close>

definition to_upper :: "jstring \<Rightarrow> jstring" where
  "to_upper s = map (\<lambda>c. if 97 \<le> c \<and> c \<le> 122 then c - 32 else c) s"

text \<open>\<open>new URL(url).pathname\<close> of an absolute URL: what follows the authority, up to the query or fragment.\<close>

definition pathname :: "jstring \<Rightarrow> jstring" where
  "pathname url =
     (let rest = drop 2 (dropWhile (\<lambda>c. c \<noteq> of_char CHR ''/'') url)
      in takeWhile (\<lambda>c. c \<noteq> of_char CHR ''?'' \<and> c \<noteq> of_char CHR ''#'')
           (dropWhile (\<lambda>c. c \<noteq> of_char CHR ''/'') rest))"

section \<open>Percent decoding\<close>

definition hex_val :: "jchar \<Rightarrow> nat option" where
  "hex_val c =
     (if 48 \<le> c \<and> c \<le> 57 then Some (unat c - 48)
      else if 65 \<le> c \<and> c \<le> 70 then Some (unat c - 55)
      else if 97 \<le> c \<and> c \<le> 102 then Some (unat c - 87)
      else None)"

text \<open>One escape \<open>%XX\<close> at the front of the input: its octet and the rest.\<close>

fun pct_octet :: "jstring \<Rightarrow> (nat \<times> jstring) option" where
  "pct_octet (p # a # b # rest) =
     (if p = 37 then
        (case (hex_val a, hex_val b) of
           (Some x, Some y) \<Rightarrow> Some (16 * x + y, rest)
         | _ \<Rightarrow> None)
      else None)"
| "pct_octet _ = None"

text \<open>\<open>n\<close> continuation octets \<open>10xxxxxx\<close>, folded onto the code point read so far.\<close>

fun pct_continue :: "nat \<Rightarrow> nat \<Rightarrow> jstring \<Rightarrow> (nat \<times> jstring) option" where
  "pct_continue 0 v s = Some (v, s)"
| "pct_continue (Suc n) v s =
     (case pct_octet s of
        Some (b, rest) \<Rightarrow> if 128 \<le> b \<and> b < 192 then pct_continue n (64 * v + (b - 128)) rest else None
      | None \<Rightarrow> None)"

definition code_units :: "nat \<Rightarrow> jstring" where
  "code_units v =
     (if v < 65536 then [of_nat v]
      else [of_nat (55296 + (v - 65536) div 1024), of_nat (56320 + (v - 65536) mod 1024)])"

text \<open>The lead octet gives the number of continuation octets, its payload and the least code point it may encode.\<close>

definition utf8_lead :: "nat \<Rightarrow> (nat \<times> nat \<times> nat) option" where
  "utf8_lead b =
     (if b < 128 then Some (0, b, 0)
      else if 192 \<le> b \<and> b < 224 then Some (1, b - 192, 128)
      else if 224 \<le> b \<and> b < 240 then Some (2, b - 224, 2048)
      else if 240 \<le> b \<and> b < 248 then Some (3, b - 240, 65536)
      else None)"

definition pct_char :: "jstring \<Rightarrow> (jstring \<times> jstring) option" where
  "pct_char s =
     (case pct_octet s of
        None \<Rightarrow> None
      | Some (b, rest) \<Rightarrow>
          (case utf8_lead b of
             None \<Rightarrow> None
           | Some (n, v, lo) \<Rightarrow>
               (case pct_continue n v rest of
                  None \<Rightarrow> None
                | Some (cp, rest') \<Rightarrow>
                    if lo \<le> cp \<and> cp < 1114112 \<and> \<not> (55296 \<le> cp \<and> cp < 57344)
                    then Some (code_units cp, rest') else None)))"

lemma pct_octet_length: "pct_octet s = Some (b, r) \<Longrightarrow> length r < length s"
  by (induction s rule: pct_octet.induct) (auto split: if_splits option.splits)

lemma pct_continue_length: "pct_continue n v s = Some (x, r) \<Longrightarrow> length r \<le> length s"
proof (induction n arbitrary: v s)
  case (Suc n)
  then obtain b t where t: "pct_octet s = Some (b, t)"
      and "pct_continue n (64 * v + (b - 128)) t = Some (x, r)"
    by (auto split: option.splits if_splits)
  from Suc.IH [OF this(2)] pct_octet_length [OF t] show ?case by simp
qed simp

lemma pct_char_length: "pct_char s = Some (u, r) \<Longrightarrow> length r < length s"
  by (auto simp: pct_char_def split: option.splits if_splits
      dest!: pct_octet_length pct_continue_length)

text \<open>\<open>decodeURIComponent(s)\<close>; \<open>None\<close> is the \<open>URIError\<close>.\<close>

function decodeURIComponent :: "jstring \<Rightarrow> jstring option" where
  "decodeURIComponent [] = Some []"
| "decodeURIComponent (c # cs) =
     (if c \<noteq> 37 then map_option (Cons c) (decodeURIComponent cs)
      else case pct_char (c # cs) of
             None \<Rightarrow> None
           | Some (u, rest) \<Rightarrow> map_option (append u) (decodeURIComponent rest))"
  by pat_completeness auto
termination
  by (relation "measure length") (auto dest: pct_char_length)

declare decodeURIComponent.simps [simp del]

lemma decode_plain: "37 \<notin> set s \<Longrightarrow> decodeURIComponent s = Some s"
  by (induction s) (simp_all add: decodeURIComponent.simps)

section \<open>Interleaved calls\<close>

text \<open>
  Both clients also have a model in which calls interleave (\<open>SingleFlight\<close>,
  \<open>MobileFlight\<close>): a step relation on a state with a table of promises and the
  variable \<open>refreshing\<close>. What their proofs share: a goal can be reached by some
  steps, and an invariant under which the unsettled promise is the one in the variable.
\<close>

definition can_reach :: "('s \<Rightarrow> 's \<Rightarrow> bool) \<Rightarrow> ('s \<Rightarrow> bool) \<Rightarrow> 's \<Rightarrow> bool" where
  "can_reach step goal s = (\<exists>s'. step\<^sup>*\<^sup>* s s' \<and> goal s')"

lemma can_reach_now: "goal s \<Longrightarrow> can_reach step goal s"
  unfolding can_reach_def by blast

lemma can_reach_step: "step s s' \<Longrightarrow> can_reach step goal s' \<Longrightarrow> can_reach step goal s"
  unfolding can_reach_def by (meson converse_rtranclp_into_rtranclp)

lemma can_reach_trans:
  assumes "can_reach step mid s" and "\<And>s'. mid s' \<Longrightarrow> can_reach step goal s'"
  shows "can_reach step goal s"
  using assms unfolding can_reach_def by (meson rtranclp_trans)

locale shared_flight =
  fixes step :: "'s \<Rightarrow> 's \<Rightarrow> bool"
    and inv :: "'s \<Rightarrow> bool"
    and pending :: "'s \<Rightarrow> nat \<Rightarrow> bool"
    and slot :: "'s \<Rightarrow> nat option"
  assumes inv_step: "inv s \<Longrightarrow> step s s' \<Longrightarrow> inv s'"
    and pending_in_slot: "inv s \<Longrightarrow> pending s p \<Longrightarrow> slot s = Some p"
begin

lemma inv_steps: "step\<^sup>*\<^sup>* s s' \<Longrightarrow> inv s \<Longrightarrow> inv s'"
  by (induction rule: rtranclp_induct) (auto intro: inv_step)

lemma one_pending: "step\<^sup>*\<^sup>* s s' \<Longrightarrow> inv s \<Longrightarrow> pending s' p \<Longrightarrow> pending s' p' \<Longrightarrow> p = p'"
  by (metis inv_steps pending_in_slot option.inject)

text \<open>While one promise is unsettled, nothing else is: a new one is created only into an empty variable.\<close>

lemma none_pending: "step\<^sup>*\<^sup>* s s' \<Longrightarrow> inv s \<Longrightarrow> slot s' = None \<Longrightarrow> \<not> pending s' p"
  by (metis inv_steps pending_in_slot option.distinct(1))

end

end
