(* ===== verification/WebClient.thy ===== *)
theory WebClient
  imports Http
begin

text \<open>
  \<^verbatim>\<open>web/src/api/client.ts\<close>: the CSRF token store, the refresh exchange and the
  \<open>fetch\<close> wrapper, as state-passing functions. The client's state is what the
  module reads and writes: the browser's cookie string and session storage, the
  module variable \<open>refreshing\<close>, and the log. \<open>apiFetch\<close> here runs one call to its
  end with nothing else scheduled; theory \<open>SingleFlight\<close> interleaves many.
  The server is the parameter \<open>fetch\<close>; the request id is a parameter because
  \<open>crypto.randomUUID\<close> is random.
\<close>

section \<open>State\<close>

record browser =
  br_document :: bool            \<comment> \<open>\<open>typeof document !== "undefined"\<close>\<close>
  br_cookie :: jstring
  br_storage :: bool             \<comment> \<open>\<open>typeof sessionStorage !== "undefined"\<close>\<close>
  br_get_throws :: bool
  br_set_throws :: bool
  br_item :: "jstring option"    \<comment> \<open>the item under \<open>CSRF_STORE_KEY\<close>\<close>

text \<open>\<open>refreshing\<close> is \<open>None\<close> between exchanges; \<open>Some v\<close> is a promise settled to \<open>v\<close> that was never reset.\<close>

record client =
  cl_browser :: browser
  cl_refreshing :: "bool option"
  cl_log :: "log_call list"

section \<open>The CSRF token\<close>

definition MUTATING :: "jstring list" where
  "MUTATING = [js ''POST'', js ''PUT'', js ''PATCH'', js ''DELETE'']"

text \<open>The capture of the cookie pattern \<open>(?:^|; )name=([^;]*)\<close>, searched from the left.\<close>

fun cookie_match :: "jstring \<Rightarrow> bool \<Rightarrow> jstring \<Rightarrow> jstring option" where
  "cookie_match pat first s =
     (if first \<and> starts_with s pat
      then Some (takeWhile (\<lambda>c. c \<noteq> of_char CHR '';'') (drop (length pat) s))
      else if starts_with s (js ''; '' @ pat)
      then Some (takeWhile (\<lambda>c. c \<noteq> of_char CHR '';'') (drop (length pat + 2) s))
      else (case s of [] \<Rightarrow> None | c # cs \<Rightarrow> cookie_match pat False cs))"

declare cookie_match.simps [simp del]

definition readCookie :: "jstring \<Rightarrow> browser \<Rightarrow> thrown + jstring option" where
  "readCookie name b =
     (if \<not> br_document b then Inr None
      else case cookie_match (name @ js ''='') True (br_cookie b) of
             None \<Rightarrow> Inr None
           | Some v \<Rightarrow>
               (case decodeURIComponent v of
                  None \<Rightarrow> Inl (JsError (js ''URI malformed''))
                | Some d \<Rightarrow> Inr (Some d)))"

definition storeCsrf :: "jstring option \<Rightarrow> browser \<Rightarrow> browser" where
  "storeCsrf token b =
     (if \<not> truthy_opt token \<or> \<not> br_storage b then b
      else if br_set_throws b then b
      else b\<lparr>br_item := token\<rparr>)"

definition csrfToken :: "browser \<Rightarrow> thrown + jstring option" where
  "csrfToken b =
     (if br_storage b \<and> \<not> br_get_throws b \<and> truthy_opt (br_item b) then Inr (br_item b)
      else readCookie (js ''postal_csrf'') b)"

text \<open>\<open>body?.data?.csrf_token\<close> of a parsed body, when it is a non-empty string.\<close>

definition body_csrf :: "json option \<Rightarrow> jstring option" where
  "body_csrf body =
     (case body of None \<Rightarrow> None | Some v \<Rightarrow>
       (case json_get v (js ''data'') of None \<Rightarrow> None | Some d \<Rightarrow>
         (case json_get d (js ''csrf_token'') of Some (JStr t) \<Rightarrow> Some t | _ \<Rightarrow> None)))"

definition captureCsrf :: "response \<Rightarrow> jstring \<Rightarrow> browser \<Rightarrow> browser" where
  "captureCsrf res url b =
     (if \<not> rs_ok res then b
      else if \<not> str_includes url (js ''/auth/login'') \<and> \<not> str_includes url (js ''/auth/refresh'') then b
      else if truthy_opt (body_csrf (rs_json res)) then storeCsrf (body_csrf (rs_json res)) b
      else b)"

section \<open>Refresh and retry\<close>

definition with_csrf :: "jstring option \<Rightarrow> request \<Rightarrow> request" where
  "with_csrf csrf q = (if truthy_opt csrf then set_header ''X-CSRF-Token'' (nullish csrf []) q else q)"

definition refresh_request :: "jstring \<Rightarrow> jstring option \<Rightarrow> request" where
  "refresh_request origin csrf =
     with_csrf csrf \<lparr>rq_method = js ''POST'', rq_url = origin @ js ''/api/v1/auth/refresh'',
       rq_headers = [], rq_body = None\<rparr>"

text \<open>
  \<open>refreshSession()\<close>. The body of the immediately invoked function runs up to its
  first \<open>await\<close> before \<open>refreshing ??=\<close> assigns: when \<open>csrfToken()\<close> throws there,
  the \<open>finally\<close> clause has already cleared the variable and the assignment then
  stores the promise, settled to \<open>false\<close>, for good.
\<close>

definition refreshSession :: "jstring \<Rightarrow> 'w fetch \<Rightarrow> client \<Rightarrow> 'w \<Rightarrow> bool \<times> client \<times> 'w" where
  "refreshSession origin fetch c w =
     (case cl_refreshing c of
        Some v \<Rightarrow> (v, c, w)
      | None \<Rightarrow>
          (case csrfToken (cl_browser c) of
             Inl e \<Rightarrow> (False, c\<lparr>cl_refreshing := Some False\<rparr>, w)
           | Inr csrf \<Rightarrow>
               (case fetch (refresh_request origin csrf) w of
                  (Inl m, w') \<Rightarrow> (False, c, w')
                | (Inr res, w') \<Rightarrow>
                    (rs_ok res,
                     c\<lparr>cl_browser := captureCsrf res (js ''/auth/refresh'') (cl_browser c)\<rparr>, w'))))"

definition isCsrfFailure :: "response \<Rightarrow> bool" where
  "isCsrfFailure res =
     (if rs_status res \<noteq> 403 then False
      else case rs_json res of
             None \<Rightarrow> False
           | Some body \<Rightarrow>
               (case json_get body (js ''error'') of
                  None \<Rightarrow> False
                | Some e \<Rightarrow> json_get e (js ''code'') = Some (JStr (js ''csrf_failed''))))"

definition is_mutating :: "request \<Rightarrow> bool" where
  "is_mutating q = (to_upper (rq_method q) \<in> set MUTATING)"

definition isAuthFlow :: "request \<Rightarrow> bool" where
  "isAuthFlow q =
     (str_includes (rq_url q) (js ''/auth/refresh'') \<or>
      str_includes (rq_url q) (js ''/auth/login'') \<or>
      str_includes (rq_url q) (js ''/auth/logout''))"

definition recoverable :: "request \<Rightarrow> response \<Rightarrow> bool" where
  "recoverable q res = (rs_status res = 401 \<or> (is_mutating q \<and> isCsrfFailure res))"

text \<open>The tail of \<open>apiFetch\<close>: a server error is logged with its correlation id, status and path.\<close>

definition finish :: "request \<Rightarrow> response \<Rightarrow> client \<Rightarrow> 'w \<Rightarrow> (thrown + response) \<times> client \<times> 'w" where
  "finish q res c w =
     (Inr res,
      if rs_status res \<ge> 500
      then c\<lparr>cl_log := cl_log c @
               [\<lparr>lc_message = js ''api server error'',
                 lc_fields = [(js ''requestId'', map_option JStr (rs_request_id res)),
                              (js ''status'', Some (JInt (int (rs_status res)))),
                              (js ''path'', Some (JStr (pathname (rq_url q))))]\<rparr>]\<rparr>
      else c, w)"

text \<open>The request as first sent: the token on mutations, then the correlation id.\<close>

definition prepare :: "jstring \<Rightarrow> request \<Rightarrow> browser \<Rightarrow> thrown + request" where
  "prepare rid q b =
     (if is_mutating q
      then case csrfToken b of
             Inl e \<Rightarrow> Inl e
           | Inr csrf \<Rightarrow> Inr (set_header ''X-Request-Id'' rid (with_csrf csrf q))
      else Inr (set_header ''X-Request-Id'' rid q))"

text \<open>The clone sent after a refresh: \<open>csrfToken()\<close> is read again, and replaces the token on mutations.\<close>

definition rearm :: "request \<Rightarrow> browser \<Rightarrow> thrown + request" where
  "rearm q b =
     (case csrfToken b of
        Inl e \<Rightarrow> Inl e
      | Inr csrf \<Rightarrow> Inr (if is_mutating q then with_csrf csrf q else q))"

definition apiFetch :: "jstring \<Rightarrow> 'w fetch \<Rightarrow> jstring \<Rightarrow> request \<Rightarrow> client \<Rightarrow> 'w
    \<Rightarrow> (thrown + response) \<times> client \<times> 'w" where
  "apiFetch origin fetch rid q c w =
     (case prepare rid q (cl_browser c) of
        Inl e \<Rightarrow> (Inl e, c, w)
      | Inr q1 \<Rightarrow>
          (case fetch q1 w of
             (Inl m, w1) \<Rightarrow> (Inl (JsError m), c, w1)
           | (Inr res, w1) \<Rightarrow>
               (let c1 = c\<lparr>cl_browser := captureCsrf res (rq_url q1) (cl_browser c)\<rparr>
                in if recoverable q res \<and> \<not> isAuthFlow q
                   then (case refreshSession origin fetch c1 w1 of
                           (True, c2, w2) \<Rightarrow>
                             (case rearm q1 (cl_browser c2) of
                                Inl e \<Rightarrow> (Inl e, c2, w2)
                              | Inr q2 \<Rightarrow>
                                  (case fetch q2 w2 of
                                     (Inl m, w3) \<Rightarrow> (Inl (JsError m), c2, w3)
                                   | (Inr res2, w3) \<Rightarrow> finish q1 res2 c2 w3))
                         | (False, c2, w2) \<Rightarrow> finish q1 res c2 w2)
                   else finish q1 res c1 w1)))"

section \<open>Lemmas\<close>

text \<open>What the headers of a request cannot change: its method, address and body.\<close>

lemma with_csrf_simps [simp]:
  "rq_method (with_csrf t q) = rq_method q"
  "rq_url (with_csrf t q) = rq_url q"
  "rq_body (with_csrf t q) = rq_body q"
  "is_mutating (with_csrf t q) = is_mutating q"
  "is_mutating (set_header k v q) = is_mutating q"
  "isAuthFlow (set_header k v q) = isAuthFlow q"
  by (simp_all add: with_csrf_def is_mutating_def isAuthFlow_def)

lemma header_with_csrf:
  "header (with_csrf t q) k = (if k = ''X-CSRF-Token'' \<and> truthy_opt t then t else header q k)"
  by (cases t) (auto simp: with_csrf_def)

lemma prepare_same: "prepare rid q b = Inr q1 \<Longrightarrow> same_call q q1 \<and> is_mutating q1 = is_mutating q"
  by (auto simp: prepare_def same_call_def split: if_splits sum.splits)

lemma rearm_same: "rearm q1 b = Inr q2 \<Longrightarrow> same_call q1 q2"
  by (auto simp: rearm_def same_call_def split: if_splits sum.splits)

lemma same_call_trans: "same_call q r \<Longrightarrow> same_call r s \<Longrightarrow> same_call q s"
  by (simp add: same_call_def)

lemma finish_simps [simp]:
  "fst (finish q res c w) = Inr res"
  "snd (snd (finish q res c w)) = w"
  "cl_browser (fst (snd (finish q res c w))) = cl_browser c"
  "cl_refreshing (fst (snd (finish q res c w))) = cl_refreshing c"
  by (simp_all add: finish_def)

definition is_refresh_of :: "jstring \<Rightarrow> request \<Rightarrow> bool" where
  "is_refresh_of origin r = (rq_url r = origin @ js ''/api/v1/auth/refresh'')"

lemma refresh_request_url [simp]: "is_refresh_of origin (refresh_request origin csrf)"
  by (simp add: is_refresh_of_def refresh_request_def)

lemma refreshSession_trace:
  assumes "refreshSession origin (traced f) c (w, tr) = (v, c', w', tr')"
  shows "tr' = tr \<or> (\<exists>csrf. csrfToken (cl_browser c) = Inr csrf \<and> tr' = tr @ [refresh_request origin csrf])"
  using assms
  by (auto simp: refreshSession_def split: option.splits sum.splits prod.splits)

text \<open>The shape of one call's traffic, whatever the server answers.\<close>

lemma apiFetch_attempt:
  "\<exists>ts. snd (snd (snd (apiFetch origin (traced f) rid q c (w, tr)))) = tr @ ts \<and>
     attempt (is_refresh_of origin) isAuthFlow q ts"
proof (cases "prepare rid q (cl_browser c)")
  case (Inl e)
  then show ?thesis by (simp add: apiFetch_def attempt_intros)
next
  case (Inr q1)
  then have q1: "same_call q q1" using prepare_same by blast
  obtain x w1 where f1: "f q1 w = (x, w1)" by (meson surj_pair)
  show ?thesis
  proof (cases x)
    case (Inl m)
    with Inr f1 q1 show ?thesis by (simp add: apiFetch_def attempt_intros)
  next
    case res: (Inr res)
    let ?c1 = "c\<lparr>cl_browser := captureCsrf res (rq_url q1) (cl_browser c)\<rparr>"
    show ?thesis
    proof (cases "recoverable q res \<and> \<not> isAuthFlow q")
      case False
      then have "snd (snd (apiFetch origin (traced f) rid q c (w, tr))) = (w1, tr @ [q1])"
        using Inr f1 res by (auto simp: apiFetch_def Let_def)
      with q1 show ?thesis by (simp add: attempt_intros)
    next
      case True
      obtain v c2 w2 tr2 where rs: "refreshSession origin (traced f) ?c1 (w1, tr @ [q1]) = (v, c2, w2, tr2)"
        by (metis surj_pair)
      from refreshSession_trace [OF this] obtain rfs where
          tr2: "tr2 = tr @ q1 # rfs" "rfs = [] \<or> (\<exists>r. rfs = [r] \<and> is_refresh_of origin r)"
        by fastforce
      show ?thesis
      proof (cases "\<exists>q2. v \<and> rearm q1 (cl_browser c2) = Inr q2")
        case False
        then have "snd (snd (apiFetch origin (traced f) rid q c (w, tr))) = (w2, tr2)"
          using Inr f1 res True rs
          by (cases v; cases "rearm q1 (cl_browser c2)") (auto simp: apiFetch_def Let_def)
        with tr2 q1 True show ?thesis by (auto simp: attempt_intros)
      next
        case retry: True
        then obtain q2 where q2: "v" "rearm q1 (cl_browser c2) = Inr q2" by blast
        then have "same_call q q2" using q1 rearm_same same_call_trans by blast
        moreover have "snd (snd (snd (apiFetch origin (traced f) rid q c (w, tr)))) = tr2 @ [q2]"
          using Inr f1 res True rs q2
          by (auto simp: apiFetch_def Let_def split: sum.split prod.split)
        ultimately show ?thesis using tr2 q1 True by (auto simp: attempt_intros)
      qed
    qed
  qed
qed

interpretation web: retrying_client "\<lambda>f. apiFetch origin f rid" "is_refresh_of origin" isAuthFlow
  for origin rid
  by unfold_locales (rule apiFetch_attempt)

text \<open>The exchange in one equation: first request, refresh, second request.\<close>

lemma apiFetch_retry_eq:
  assumes "prepare rid q (cl_browser c) = Inr q1" and "f q1 w = (Inr res, w1)"
    and "recoverable q res" and "\<not> isAuthFlow q"
    and "refreshSession origin f (c\<lparr>cl_browser := captureCsrf res (rq_url q1) (cl_browser c)\<rparr>) w1 = (True, c2, w2)"
    and "rearm q1 (cl_browser c2) = Inr q2" and "f q2 w2 = (Inr res2, w3)"
  shows "apiFetch origin f rid q c w = finish q1 res2 c2 w3"
  using assms by (simp add: apiFetch_def Let_def)

lemma isAuthFlow_same: "same_call q q1 \<Longrightarrow> isAuthFlow q1 = isAuthFlow q"
  by (simp add: same_call_def isAuthFlow_def)

lemma captureCsrf_other:
  "\<not> isAuthFlow q \<Longrightarrow> captureCsrf res (rq_url q) b = b"
  by (simp add: captureCsrf_def isAuthFlow_def)

text \<open>The token a store holds after an answer that carries one.\<close>

definition usable_storage :: "browser \<Rightarrow> bool" where
  "usable_storage b = (br_storage b \<and> \<not> br_get_throws b \<and> \<not> br_set_throws b)"

lemma csrfToken_stored:
  "usable_storage b \<Longrightarrow> truthy t \<Longrightarrow> csrfToken (b\<lparr>br_item := Some t\<rparr>) = Inr (Some t)"
  by (simp add: csrfToken_def usable_storage_def)

lemma captureCsrf_refresh:
  assumes "usable_storage b" and "rs_ok r" and "body_csrf (rs_json r) = Some t" and "truthy t"
  shows "captureCsrf r (js ''/auth/refresh'') b = b\<lparr>br_item := Some t\<rparr>"
  using assms by (simp add: captureCsrf_def storeCsrf_def usable_storage_def str_includes_sublist)

section \<open>Reading the cookie\<close>

text \<open>The cookie string a browser hands out: the pairs joined with a semicolon and a space.\<close>

definition cookie_pair :: "jstring \<times> jstring \<Rightarrow> jstring" where
  "cookie_pair p = fst p @ js ''='' @ snd p"

fun cookie_string :: "(jstring \<times> jstring) list \<Rightarrow> jstring" where
  "cookie_string [] = []"
| "cookie_string [p] = cookie_pair p"
| "cookie_string (p # ps) = cookie_pair p @ js ''; '' @ cookie_string ps"

definition cookie_ok :: "jstring \<times> jstring \<Rightarrow> bool" where
  "cookie_ok p = (of_char CHR '';'' \<notin> set (fst p) \<and> of_char CHR ''='' \<notin> set (fst p) \<and>
     of_char CHR '';'' \<notin> set (snd p))"

lemma js_consts: "js ''='' = [of_char CHR ''='']" "js ''; '' = [of_char CHR '';'', of_char CHR '' '']"
  by (simp_all add: js_def)

lemma cookie_pair_no_sep: "cookie_ok p \<Longrightarrow> of_char CHR '';'' \<notin> set (cookie_pair p)"
  by (auto simp: cookie_ok_def cookie_pair_def js_consts)

lemma append_eq_sep:
  assumes "a \<notin> set xs" "a \<notin> set ys" "xs @ a # us = ys @ a # vs"
  shows "xs = ys \<and> us = vs"
  using assms
proof (induction xs arbitrary: ys)
  case Nil
  then show ?case by (cases ys) auto
next
  case (Cons x xs)
  then show ?case by (cases ys) auto
qed

text \<open>A name matches at the head of the string exactly when it is the name of the first pair.\<close>

lemma match_head:
  assumes "cookie_ok p" and "of_char CHR ''='' \<notin> set name"
  shows "starts_with (cookie_pair p @ rest) (name @ js ''='') \<longleftrightarrow> fst p = name"
proof
  assume "starts_with (cookie_pair p @ rest) (name @ js ''='')"
  then obtain vs where "fst p @ of_char CHR ''='' # snd p @ rest = name @ of_char CHR ''='' # vs"
    by (auto simp: starts_with_prefix prefix_def cookie_pair_def js_consts)
  with assms show "fst p = name"
    using append_eq_sep [of "of_char CHR ''=''" "fst p" name] by (auto simp: cookie_ok_def)
qed (simp add: cookie_pair_def starts_with_prefix prefix_def)

lemma cookie_match_skip:
  assumes "of_char CHR '';'' \<notin> set xs"
  shows "cookie_match pat False (xs @ rest) = cookie_match pat False rest"
  using assms
proof (induction xs)
  case (Cons x xs)
  then have "\<not> starts_with (x # xs @ rest) (js ''; '' @ pat)"
    by (auto simp: starts_with_def js_consts)
  then have "cookie_match pat False (x # xs @ rest) = cookie_match pat False (xs @ rest)"
    by (subst cookie_match.simps) simp
  with Cons show ?case by simp
qed simp

definition cookie_tail :: "(jstring \<times> jstring) list \<Rightarrow> jstring" where
  "cookie_tail ps = (if ps = [] then [] else js ''; '' @ cookie_string ps)"

lemma cookie_string_Cons: "cookie_string (p # ps) = cookie_pair p @ cookie_tail ps"
  by (cases ps) (simp_all add: cookie_tail_def)

lemma take_value:
  assumes "cookie_ok p"
  shows "takeWhile (\<lambda>c. c \<noteq> of_char CHR '';'') (snd p @ cookie_tail ps) = snd p"
proof -
  have "takeWhile (\<lambda>c. c \<noteq> of_char CHR '';'') (cookie_tail ps) = []"
    by (simp add: cookie_tail_def js_consts)
  moreover have "\<forall>c\<in>set (snd p). c \<noteq> of_char CHR '';''"
    using assms by (auto simp: cookie_ok_def)
  ultimately show ?thesis by (simp add: takeWhile_append2)
qed

lemma take_value_pair:
  "cookie_ok (n, v) \<Longrightarrow> takeWhile (\<lambda>c. c \<noteq> 59) (v @ cookie_tail ps) = v"
  using take_value [of "(n, v)"] by simp

lemma match_tail:
  assumes "\<forall>p\<in>set ps. cookie_ok p" and "of_char CHR ''='' \<notin> set name"
  shows "cookie_match (name @ js ''='') False (cookie_tail ps) = map_of ps name"
  using assms(1)
proof (induction ps)
  case Nil
  have "\<not> starts_with [] (js ''; '' @ name @ js ''='')" by (simp add: starts_with_def js_consts)
  then show ?case by (simp add: cookie_tail_def cookie_match.simps)
next
  case (Cons p ps)
  let ?pat = "name @ js ''=''" and ?s = "cookie_pair p @ cookie_tail ps"
  have tail: "cookie_tail (p # ps) = js ''; '' @ ?s"
    by (simp add: cookie_tail_def cookie_string_Cons)
  have head: "starts_with (js ''; '' @ ?s) (js ''; '' @ ?pat) \<longleftrightarrow> fst p = name"
    using match_head [of p name "cookie_tail ps"] Cons.prems assms(2)
    by (simp add: starts_with_prefix)
  show ?case
  proof (cases "fst p = name")
    case True
    have "drop (length ?pat + 2) (js ''; '' @ ?s) = snd p @ cookie_tail ps"
      using True by (simp add: cookie_pair_def js_consts)
    with True head tail show ?thesis
      by (subst cookie_match.simps) (use Cons.prems in \<open>cases p; simp add: take_value_pair [of name]\<close>)
  next
    case False
    then have "cookie_match ?pat False (js ''; '' @ ?s) = cookie_match ?pat False ([of_char CHR '' ''] @ ?s)"
      using head by (subst cookie_match.simps) (simp add: js_consts)
    also have "\<dots> = cookie_match ?pat False ?s"
      by (rule cookie_match_skip) simp
    also have "\<dots> = cookie_match ?pat False (cookie_tail ps)"
      using Cons.prems by (intro cookie_match_skip cookie_pair_no_sep) simp
    finally show ?thesis using Cons False tail by (cases p) simp
  qed
qed

lemma cookie_match_string:
  assumes "\<forall>p\<in>set ps. cookie_ok p" and "of_char CHR ''='' \<notin> set name"
  shows "cookie_match (name @ js ''='') True (cookie_string ps) = map_of ps name"
proof (cases ps)
  case Nil
  have "\<not> starts_with [] (js ''; '' @ name @ js ''='')" "\<not> starts_with [] (name @ js ''='')"
    by (simp_all add: starts_with_def js_consts)
  with Nil show ?thesis by (simp add: cookie_match.simps)
next
  case (Cons p ps')
  let ?pat = "name @ js ''=''" and ?s = "cookie_pair p @ cookie_tail ps'"
  have ok: "cookie_ok p" "\<forall>p\<in>set ps'. cookie_ok p" using assms Cons by auto
  have s: "cookie_string ps = ?s" by (simp add: Cons cookie_string_Cons)
  have head: "starts_with ?s ?pat \<longleftrightarrow> fst p = name" using match_head ok(1) assms(2) by blast
  show ?thesis
  proof (cases "fst p = name")
    case True
    have "drop (length ?pat) ?s = snd p @ cookie_tail ps'"
      using True by (simp add: cookie_pair_def)
    with True head ok s Cons show ?thesis
      by (subst cookie_match.simps) (cases p; simp add: take_value_pair [of name])
  next
    case False
    have "\<not> starts_with ?s (js ''; '' @ ?pat)"
      using cookie_pair_no_sep [OF ok(1)]
      by (cases "fst p") (auto simp: starts_with_def js_consts cookie_pair_def)
    with False head have "cookie_match ?pat True ?s = cookie_match ?pat False ?s"
      by (simp add: cookie_match.simps [of _ True] cookie_match.simps [of _ False ?s])
    also have "\<dots> = cookie_match ?pat False (cookie_tail ps')"
      using ok by (intro cookie_match_skip cookie_pair_no_sep)
    finally show ?thesis using match_tail [OF ok(2) assms(2)] False Cons s by (cases p) simp
  qed
qed

section \<open>Properties\<close>

text \<open>
  Reading a cookie: from any cookie string a browser builds, \<open>readCookie\<close> returns the
  percent-decoded value of the first cookie with exactly that name, \<open>null\<close> when there
  is none, and throws exactly when that value is not valid percent-encoding.
\<close>

theorem readCookie_correct:
  assumes "br_document b" and "br_cookie b = cookie_string ps"
    and "\<forall>p\<in>set ps. cookie_ok p" and "of_char CHR ''='' \<notin> set name"
  shows "readCookie name b =
    (case map_of ps name of
       None \<Rightarrow> Inr None
     | Some v \<Rightarrow> (case decodeURIComponent v of
                    None \<Rightarrow> Inl (JsError (js ''URI malformed'')) | Some d \<Rightarrow> Inr (Some d)))"
  using assms by (simp add: readCookie_def cookie_match_string)

theorem readCookie_correct_witness:
  "readCookie (js ''postal_csrf'')
     \<lparr>br_document = True, br_cookie = js ''x_postal_csrf=no; postal_csrf=tok'', br_storage = False,
      br_get_throws = False, br_set_throws = False, br_item = None\<rparr> = Inr (Some (js ''tok''))"
proof -
  let ?ps = "[(js ''x_postal_csrf'', js ''no''), (js ''postal_csrf'', js ''tok'')]"
  have str: "js ''x_postal_csrf=no; postal_csrf=tok'' = cookie_string ?ps"
    by (simp add: js_append [symmetric] cookie_pair_def)
  have ok: "\<forall>p\<in>set ?ps. cookie_ok p" "of_char CHR ''='' \<notin> set (js ''postal_csrf'')"
    by (simp_all add: cookie_ok_def js_def)
  have "decodeURIComponent (js ''tok'') = Some (js ''tok'')"
    by (rule decode_plain) (simp add: js_def)
  then show ?thesis unfolding str by (subst readCookie_correct [OF _ _ ok]) simp_all
qed

text \<open>
  C1. Traffic of a session: any number of calls, whatever the server answers, sends at most
  three requests per call; when no caller asks for the refresh endpoint itself there is at most
  one refresh per call; and calls to the login, refresh and logout endpoints are sent once
  each, so the client cannot loop on them.
\<close>

theorem web_traffic_bounded:
  "length (snd (snd (snd (run_calls (\<lambda>f. apiFetch origin f rid) (traced f) qs c (w, []))))) \<le> 3 * length qs \<and>
   ((\<forall>q\<in>set qs. \<not> is_refresh_of origin q) \<longrightarrow>
     length (filter (is_refresh_of origin)
       (snd (snd (snd (run_calls (\<lambda>f. apiFetch origin f rid) (traced f) qs c (w, [])))))) \<le> length qs) \<and>
   ((\<forall>q\<in>set qs. isAuthFlow q) \<longrightarrow>
     length (snd (snd (snd (run_calls (\<lambda>f. apiFetch origin f rid) (traced f) qs c (w, []))))) \<le> length qs)"
proof -
  have "\<forall>q\<in>set qs. \<forall>r. same_call q r \<longrightarrow> \<not> is_refresh_of origin r"
    if "\<forall>q\<in>set qs. \<not> is_refresh_of origin q"
    using that by (simp add: same_call_def is_refresh_of_def)
  then show ?thesis
    by (intro conjI impI web.run_bounded web.run_refreshes web.run_exempt) simp_all
qed

text \<open>A server that answers 401 until it has been asked to refresh.\<close>

definition expired_server :: "bool fetch" where
  "expired_server r fresh =
     (if str_includes (rq_url r) (js ''/auth/refresh'')
      then (Inr \<lparr>rs_status = 200,
              rs_json = Some (JObj [(js ''data'', JObj [(js ''csrf_token'', JStr (js ''new''))])]),
              rs_request_id = None\<rparr>, True)
      else (Inr \<lparr>rs_status = (if fresh then 201 else 401), rs_json = None, rs_request_id = None\<rparr>, fresh))"

definition sample_client :: "jstring option \<Rightarrow> client" where
  "sample_client t =
     \<lparr>cl_browser = \<lparr>br_document = True, br_cookie = [], br_storage = True, br_get_throws = False,
        br_set_throws = False, br_item = t\<rparr>,
      cl_refreshing = None, cl_log = []\<rparr>"

definition sample_post :: request where
  "sample_post = \<lparr>rq_method = js ''POST'', rq_url = js ''http://h/api/v1/posts'', rq_headers = [], rq_body = None\<rparr>"

theorem web_traffic_bounded_witness:
  "length (filter (is_refresh_of (js ''http://h''))
     (snd (snd (snd (run_calls (\<lambda>f. apiFetch (js ''http://h'') f (js ''r'')) (traced expired_server)
        [sample_post, sample_post] (sample_client None) (False, [])))))) \<le> 2"
proof -
  have "\<forall>q\<in>set [sample_post, sample_post]. \<not> is_refresh_of (js ''http://h'') q"
    by (simp add: is_refresh_of_def sample_post_def js_append [symmetric])
  with web_traffic_bounded [THEN conjunct2, THEN conjunct1,
      of "[sample_post, sample_post]" "js ''http://h''" "js ''r''" expired_server "sample_client None" False]
  show ?thesis by (simp only: list.size) simp
qed

text \<open>
  C15. Double submit: with a stored token, a call that mutates sends that token in
  \<open>X-CSRF-Token\<close> with its first request, a call that only reads leaves the header as the
  caller set it, and either carries the correlation id and otherwise the caller's method,
  address and body.
\<close>

theorem web_csrf_discipline:
  assumes "usable_storage (cl_browser c)" and "br_item (cl_browser c) = Some t" and "truthy t"
  shows "\<exists>q1 ts. snd (snd (snd (apiFetch origin (traced f) rid q c (w, [])))) = q1 # ts \<and>
    same_call q q1 \<and> header q1 ''X-Request-Id'' = Some rid \<and>
    header q1 ''X-CSRF-Token'' = (if is_mutating q then Some t else header q ''X-CSRF-Token'')"
proof -
  have tok: "csrfToken (cl_browser c) = Inr (Some t)"
    using assms by (simp add: csrfToken_def usable_storage_def)
  define q1 where "q1 = set_header ''X-Request-Id'' rid (if is_mutating q then with_csrf (Some t) q else q)"
  have q1: "prepare rid q (cl_browser c) = Inr q1"
      "header q1 ''X-Request-Id'' = Some rid"
      "header q1 ''X-CSRF-Token'' = (if is_mutating q then Some t else header q ''X-CSRF-Token'')"
    using assms(3) tok by (simp_all add: q1_def prepare_def header_with_csrf)
  from apiFetch_attempt [of origin f rid q c w "[]"] obtain ts where
      ts: "snd (snd (snd (apiFetch origin (traced f) rid q c (w, [])))) = ts" by simp
  have "\<exists>us. ts = q1 # us"
    unfolding ts [symmetric] apiFetch_def q1(1)
    by (auto simp: Let_def split: sum.splits prod.splits bool.splits
        dest!: refreshSession_trace)
  with ts q1 prepare_same show ?thesis by blast
qed

theorem web_csrf_discipline_witness:
  "\<exists>q1 ts. snd (snd (snd (apiFetch (js ''http://h'') (traced expired_server) (js ''r'') sample_post
       (sample_client (Some (js ''old''))) (False, [])))) = q1 # ts \<and>
     header q1 ''X-CSRF-Token'' = Some (js ''old'')"
proof -
  let ?c = "sample_client (Some (js ''old''))"
  have "usable_storage (cl_browser ?c)" "br_item (cl_browser ?c) = Some (js ''old'')" "truthy (js ''old'')"
    by (simp_all add: sample_client_def usable_storage_def)
  from web_csrf_discipline [OF this, of "js ''http://h''" expired_server "js ''r''" sample_post False]
  show ?thesis by (auto simp: is_mutating_def sample_post_def to_upper_def MUTATING_def js_def)
qed

text \<open>
  C7. Refresh and retry: outside the auth endpoints a 401, or a rejected CSRF token on a
  mutation, is answered by one refresh carrying the stored token; when that succeeds the
  rotated token is stored, the caller's request is sent once more with the rotated token (on
  mutations) and the same correlation id, and the caller gets the second response.
\<close>

theorem web_refresh_retry:
  assumes "\<not> isAuthFlow q" and "cl_refreshing c = None"
    and "usable_storage (cl_browser c)" and "br_item (cl_browser c) = Some t" and "truthy t"
    and q1: "q1 = set_header ''X-Request-Id'' rid (if is_mutating q then set_header ''X-CSRF-Token'' t q else q)"
    and "f q1 w = (Inr res, w1)" and "recoverable q res"
    and "f (refresh_request origin (Some t)) w1 = (Inr rr, w2)" and "rs_ok rr"
    and "body_csrf (rs_json rr) = Some t'" and "truthy t'"
    and q2: "q2 = (if is_mutating q then set_header ''X-CSRF-Token'' t' q1 else q1)"
    and "f q2 w2 = (Inr res2, w3)"
  shows "fst (apiFetch origin f rid q c w) = Inr res2 \<and>
    br_item (cl_browser (fst (snd (apiFetch origin f rid q c w)))) = Some t' \<and>
    cl_refreshing (fst (snd (apiFetch origin f rid q c w))) = None \<and>
    snd (snd (apiFetch origin f rid q c w)) = w3"
proof -
  have tok: "csrfToken (cl_browser c) = Inr (Some t)"
    using assms(3-5) by (simp add: csrfToken_def usable_storage_def)
  have prep: "prepare rid q (cl_browser c) = Inr q1"
    using tok assms(5) by (simp add: prepare_def q1 with_csrf_def)
  let ?b2 = "(cl_browser c)\<lparr>br_item := Some t'\<rparr>"
  have "captureCsrf res (rq_url q1) (cl_browser c) = cl_browser c"
    using captureCsrf_other [OF assms(1)] by (simp add: q1)
  moreover have "captureCsrf rr (js ''/auth/refresh'') (cl_browser c) = ?b2"
    using captureCsrf_refresh assms(3,10-12) by blast
  ultimately have ref: "refreshSession origin f (c\<lparr>cl_browser := captureCsrf res (rq_url q1) (cl_browser c)\<rparr>) w1
      = (True, c\<lparr>cl_browser := ?b2\<rparr>, w2)"
    using assms(2,9,10) tok by (simp add: refreshSession_def)
  have "rearm q1 ?b2 = Inr q2"
    using csrfToken_stored [OF assms(3,12)] assms(12)
    by (simp add: rearm_def q2 with_csrf_def q1)
  then have "apiFetch origin f rid q c w = finish q1 res2 (c\<lparr>cl_browser := ?b2\<rparr>) w3"
    using apiFetch_retry_eq [OF prep assms(7,8,1) ref] assms(14) by simp
  then show ?thesis using assms(2) by simp
qed

theorem web_refresh_retry_witness:
  "fst (apiFetch (js ''http://h'') expired_server (js ''r'') sample_post (sample_client (Some (js ''old''))) False)
     = Inr \<lparr>rs_status = 201, rs_json = None, rs_request_id = None\<rparr>"
proof -
  let ?c = "sample_client (Some (js ''old''))"
  have fresh: "str_includes (js ''http://h/api/v1/auth/refresh'') (js ''/auth/refresh'')"
    "\<not> str_includes (js ''http://h/api/v1/posts'') (js ''/auth/refresh'')"
    by (simp_all add: js_def starts_with_def)
  have post: "\<not> isAuthFlow sample_post" "is_mutating sample_post"
    by (simp_all add: isAuthFlow_def is_mutating_def sample_post_def js_def starts_with_def
        to_upper_def MUTATING_def)
  have url: "rq_url (refresh_request (js ''http://h'') t) = js ''http://h/api/v1/auth/refresh''" for t
    by (simp add: refresh_request_def js_append [symmetric])
  have c: "usable_storage (cl_browser ?c)" "br_item (cl_browser ?c) = Some (js ''old'')"
    "cl_refreshing ?c = None" by (simp_all add: sample_client_def usable_storage_def)
  have r: "expired_server (refresh_request (js ''http://h'') t) False =
     (Inr \<lparr>rs_status = 200,
        rs_json = Some (JObj [(js ''data'', JObj [(js ''csrf_token'', JStr (js ''new''))])]),
        rs_request_id = None\<rparr>, True)" for t
    by (simp add: expired_server_def url fresh)
  have s: "expired_server (set_header k v (set_header j u sample_post)) b =
     (Inr \<lparr>rs_status = (if b then 201 else 401), rs_json = None, rs_request_id = None\<rparr>, b)"
    "expired_server (set_header k v (set_header j u (set_header i x sample_post))) b =
     (Inr \<lparr>rs_status = (if b then 201 else 401), rs_json = None, rs_request_id = None\<rparr>, b)" for k v j u i x b
    by (simp_all add: expired_server_def sample_post_def fresh)
  show ?thesis
    by (rule web_refresh_retry [where t = "js ''old''" and t' = "js ''new''" and ?w1.0 = False
          and ?w2.0 = True and ?w3.0 = True, OF post(1) c(3,1,2), THEN conjunct1])
       (simp add: post r s recoverable_def rs_ok_def body_csrf_def)+
qed

lemma apiFetch_wedged:
  assumes "cl_refreshing c = Some False"
  shows "cl_refreshing (fst (snd (apiFetch origin (traced f) rid q c (w, tr)))) = Some False \<and>
    (\<exists>ts. snd (snd (snd (apiFetch origin (traced f) rid q c (w, tr)))) = tr @ ts \<and> length ts \<le> 1)"
  using assms
  by (auto simp: apiFetch_def refreshSession_def finish_def Let_def split: sum.splits prod.splits bool.splits)

lemma run_wedged:
  assumes "cl_refreshing c = Some False"
  shows "\<exists>ts. snd (snd (snd (run_calls (\<lambda>f. apiFetch origin f rid) (traced f) qs c (w, tr)))) = tr @ ts \<and>
    length ts \<le> length qs"
  using assms
proof (induction qs arbitrary: c w tr)
  case (Cons q qs)
  obtain r c1 w1 tr1 where call: "apiFetch origin (traced f) rid q c (w, tr) = (r, c1, w1, tr1)"
    by (metis surj_pair)
  with apiFetch_wedged [OF Cons.prems, of origin f rid q w tr]
  obtain ts where "cl_refreshing c1 = Some False" "tr1 = tr @ ts" "length ts \<le> 1" by auto
  moreover from Cons.IH [OF this(1), of w1 tr1] obtain us where
      "snd (snd (snd (run_calls (\<lambda>f. apiFetch origin f rid) (traced f) qs c1 (w1, tr1)))) = tr1 @ us"
      "length us \<le> length qs" by blast
  ultimately show ?case using call
    by (intro exI [of _ "ts @ us"]) (simp add: case_prod_beta)
qed simp

text \<open>
  A malformed CSRF cookie disables refreshing for the life of the page: when a 401
  arrives while nothing is stored and the cookie does not decode, the settled promise
  stays in \<open>refreshing\<close>, and no later call, against any server and with any repaired
  cookie or stored token, sends more than its own request: no refresh and no retry.
\<close>

theorem web_refresh_wedged:
  assumes "cl_refreshing c = None" and "csrfToken (cl_browser c) = Inl e"
    and "\<not> is_mutating q" and "\<not> isAuthFlow q"
    and "f (set_header ''X-Request-Id'' rid q) w = (Inr res, w1)" and "rs_status res = 401"
    and "c' = fst (snd (apiFetch origin f rid q c w))"
  shows "fst (apiFetch origin f rid q c w) = Inr res \<and>
    length (snd (snd (snd (run_calls (\<lambda>f. apiFetch origin f rid') (traced g) qs
      (c'\<lparr>cl_browser := b\<rparr>) (v, []))))) \<le> length qs"
proof -
  let ?q1 = "set_header ''X-Request-Id'' rid q"
  have cap: "captureCsrf res (rq_url ?q1) (cl_browser c) = cl_browser c"
    using captureCsrf_other [OF assms(4)] by simp
  have "recoverable q res" using assms(6) by (simp add: recoverable_def)
  then have "apiFetch origin f rid q c w = finish ?q1 res (c\<lparr>cl_refreshing := Some False\<rparr>) w1"
    using assms(1-6) cap by (simp add: apiFetch_def prepare_def refreshSession_def Let_def)
  then have "fst (apiFetch origin f rid q c w) = Inr res" "cl_refreshing c' = Some False"
    using assms(7) by simp_all
  with run_wedged [of "c'\<lparr>cl_browser := b\<rparr>" origin rid' g qs v "[]"] show ?thesis by auto
qed

definition bad_cookie_client :: client where
  "bad_cookie_client =
     (sample_client None)\<lparr>cl_browser := (cl_browser (sample_client None))\<lparr>br_cookie := js ''postal_csrf=%''\<rparr>\<rparr>"

definition sample_get :: request where
  "sample_get = sample_post\<lparr>rq_method := js ''GET''\<rparr>"

theorem web_refresh_wedged_witness:
  "fst (apiFetch (js ''http://h'') expired_server (js ''r'') sample_get bad_cookie_client False) =
     Inr \<lparr>rs_status = 401, rs_json = None, rs_request_id = None\<rparr> \<and>
   length (snd (snd (snd (run_calls (\<lambda>f. apiFetch (js ''http://h'') f (js ''s'')) (traced expired_server)
     [sample_get, sample_post]
     ((fst (snd (apiFetch (js ''http://h'') expired_server (js ''r'') sample_get bad_cookie_client False)))
        \<lparr>cl_browser := cl_browser (sample_client (Some (js ''old'')))\<rparr>) (False, []))))) \<le> 2"
proof -
  have get: "\<not> is_mutating sample_get" "\<not> isAuthFlow sample_get"
    by (simp_all add: isAuthFlow_def is_mutating_def sample_get_def sample_post_def js_def starts_with_def
        to_upper_def MUTATING_def)
  have "cookie_match (js ''postal_csrf='') True (js ''postal_csrf=%'') = Some [37]"
    by (subst cookie_match.simps) (simp add: js_def starts_with_def)
  moreover have "decodeURIComponent [37] = None"
    by (simp add: decodeURIComponent.simps pct_char_def)
  ultimately have tok: "csrfToken (cl_browser bad_cookie_client) = Inl (JsError (js ''URI malformed''))"
    by (simp add: csrfToken_def readCookie_def bad_cookie_client_def sample_client_def js_append [symmetric])
  have srv: "expired_server (set_header ''X-Request-Id'' (js ''r'') sample_get) False =
      (Inr \<lparr>rs_status = 401, rs_json = None, rs_request_id = None\<rparr>, False)"
    by (simp add: expired_server_def sample_get_def sample_post_def js_def starts_with_def)
  have "cl_refreshing bad_cookie_client = None" by (simp add: bad_cookie_client_def sample_client_def)
  from web_refresh_wedged [where f = expired_server and w = False and rid = "js ''r''",
      OF this tok get srv _ refl, of "js ''http://h''" "js ''s''" expired_server
      "[sample_get, sample_post]" "cl_browser (sample_client (Some (js ''old'')))" False]
  show ?thesis by (simp only: list.size) simp
qed

end
