(* ===== verification/SingleFlight.thy ===== *)
theory SingleFlight
  imports WebClient
begin

text \<open>
  The concurrent behaviour of \<^verbatim>\<open>web/src/api/client.ts\<close>: any number of \<open>apiFetch\<close>
  calls interleaved at their \<open>await\<close>s, sharing the browser state and the module
  variable \<open>refreshing\<close>. A call is a small program counter; a refresh promise is
  a value identified by its creation number. Every rule of \<open>sf_step\<close> is the code
  between two consecutive \<open>await\<close>s of one of them; what the network answers, and
  when, is left open.
\<close>

section \<open>States\<close>

datatype promise =
    Fetching                 \<comment> \<open>awaiting the refresh response\<close>
  | Answered response        \<comment> \<open>awaiting the body in \<open>captureCsrf\<close>\<close>
  | Stored bool              \<comment> \<open>token stored, about to return \<open>res.ok\<close>\<close>
  | Settled bool

datatype call =
    Idle
  | Sent request request              \<comment> \<open>the caller's request and what was sent\<close>
  | Got request request response      \<comment> \<open>awaiting \<open>captureCsrf\<close>\<close>
  | Captured request request response \<comment> \<open>about to test for recovery\<close>
  | Waiting request response nat      \<comment> \<open>awaiting the refresh promise\<close>
  | Retried request
  | Finished "thrown + response"

text \<open>\<open>fl_wire\<close> records the requests sent: \<open>Some i\<close> for call \<open>i\<close>, \<open>None\<close> for a refresh.\<close>

record flight =
  fl_browser :: browser
  fl_refreshing :: "nat option"
  fl_promise :: "nat \<Rightarrow> promise option"
  fl_next :: nat
  fl_call :: "nat \<Rightarrow> call"
  fl_wire :: "(nat option \<times> request) list"

definition fl_init :: "browser \<Rightarrow> flight" where
  "fl_init b = \<lparr>fl_browser = b, fl_refreshing = None, fl_promise = (\<lambda>_. None), fl_next = 0,
     fl_call = (\<lambda>_. Idle), fl_wire = []\<rparr>"

section \<open>Steps\<close>

definition goto :: "nat \<Rightarrow> call \<Rightarrow> flight \<Rightarrow> flight" where
  "goto i k s = s\<lparr>fl_call := (fl_call s)(i := k)\<rparr>"

definition send_as :: "nat option \<Rightarrow> request \<Rightarrow> flight \<Rightarrow> flight" where
  "send_as who r s = s\<lparr>fl_wire := fl_wire s @ [(who, r)]\<rparr>"

definition settle :: "nat \<Rightarrow> promise \<Rightarrow> flight \<Rightarrow> flight" where
  "settle p x s = s\<lparr>fl_promise := (fl_promise s)(p \<mapsto> x)\<rparr>"

text \<open>
  The synchronous part of \<open>refreshSession()\<close>: join the promise in \<open>refreshing\<close>, or
  create one; its function has then run up to the first \<open>await\<close>.
\<close>

definition join_refresh :: "jstring \<Rightarrow> flight \<Rightarrow> nat \<times> flight" where
  "join_refresh origin s =
     (case fl_refreshing s of
        Some p \<Rightarrow> (p, s)
      | None \<Rightarrow>
          (let p = fl_next s; s' = s\<lparr>fl_next := Suc p, fl_refreshing := Some p\<rparr> in
           case csrfToken (fl_browser s) of
             Inl e \<Rightarrow> (p, settle p (Settled False) s')
           | Inr csrf \<Rightarrow> (p, send_as None (refresh_request origin csrf) (settle p Fetching s'))))"

inductive sf_step :: "jstring \<Rightarrow> flight \<Rightarrow> flight \<Rightarrow> bool" for origin :: jstring where
  start: "fl_call s i = Idle \<Longrightarrow> prepare rid q (fl_browser s) = Inr q1 \<Longrightarrow>
    sf_step origin s (send_as (Some i) q1 (goto i (Sent q q1) s))"
| start_throws: "fl_call s i = Idle \<Longrightarrow> prepare rid q (fl_browser s) = Inl e \<Longrightarrow>
    sf_step origin s (goto i (Finished (Inl e)) s)"
| network_error: "fl_call s i = Sent q q1 \<Longrightarrow>
    sf_step origin s (goto i (Finished (Inl (JsError m))) s)"
| respond: "fl_call s i = Sent q q1 \<Longrightarrow> sf_step origin s (goto i (Got q q1 res) s)"
| capture: "fl_call s i = Got q q1 res \<Longrightarrow>
    sf_step origin s (goto i (Captured q q1 res)
      (s\<lparr>fl_browser := captureCsrf res (rq_url q1) (fl_browser s)\<rparr>))"
| return: "fl_call s i = Captured q q1 res \<Longrightarrow> \<not> (recoverable q res \<and> \<not> isAuthFlow q) \<Longrightarrow>
    sf_step origin s (goto i (Finished (Inr res)) s)"
| recover: "fl_call s i = Captured q q1 res \<Longrightarrow> recoverable q res \<Longrightarrow> \<not> isAuthFlow q \<Longrightarrow>
    join_refresh origin s = (p, s') \<Longrightarrow> sf_step origin s (goto i (Waiting q1 res p) s')"
| refresh_error: "fl_promise s p = Some Fetching \<Longrightarrow>
    sf_step origin s (settle p (Settled False) (s\<lparr>fl_refreshing := None\<rparr>))"
| refresh_respond: "fl_promise s p = Some Fetching \<Longrightarrow>
    sf_step origin s (settle p (Answered res) s)"
| refresh_capture: "fl_promise s p = Some (Answered res) \<Longrightarrow>
    sf_step origin s (settle p (Stored (rs_ok res))
      (s\<lparr>fl_browser := captureCsrf res (js ''/auth/refresh'') (fl_browser s)\<rparr>))"
| refresh_return: "fl_promise s p = Some (Stored v) \<Longrightarrow>
    sf_step origin s (settle p (Settled v) (s\<lparr>fl_refreshing := None\<rparr>))"
| give_up: "fl_call s i = Waiting q1 res p \<Longrightarrow> fl_promise s p = Some (Settled False) \<Longrightarrow>
    sf_step origin s (goto i (Finished (Inr res)) s)"
| retry_throws: "fl_call s i = Waiting q1 res p \<Longrightarrow> fl_promise s p = Some (Settled True) \<Longrightarrow>
    rearm q1 (fl_browser s) = Inl e \<Longrightarrow> sf_step origin s (goto i (Finished (Inl e)) s)"
| retry: "fl_call s i = Waiting q1 res p \<Longrightarrow> fl_promise s p = Some (Settled True) \<Longrightarrow>
    rearm q1 (fl_browser s) = Inr q2 \<Longrightarrow>
    sf_step origin s (send_as (Some i) q2 (goto i (Retried q2) s))"
| retry_error: "fl_call s i = Retried q2 \<Longrightarrow>
    sf_step origin s (goto i (Finished (Inl (JsError m))) s)"
| retry_respond: "fl_call s i = Retried q2 \<Longrightarrow> sf_step origin s (goto i (Finished (Inr res)) s)"

inductive sf_reach :: "jstring \<Rightarrow> browser \<Rightarrow> flight \<Rightarrow> bool" for origin :: jstring and b :: browser where
  sf_init: "sf_reach origin b (fl_init b)"
| sf_next: "sf_reach origin b s \<Longrightarrow> sf_step origin s s' \<Longrightarrow> sf_reach origin b s'"

section \<open>The invariant\<close>

lemma fl_simps [simp]:
  "fl_browser (goto i k s) = fl_browser s" "fl_refreshing (goto i k s) = fl_refreshing s"
  "fl_promise (goto i k s) = fl_promise s" "fl_next (goto i k s) = fl_next s"
  "fl_wire (goto i k s) = fl_wire s" "fl_call (goto i k s) = (fl_call s)(i := k)"
  "fl_browser (send_as w r s) = fl_browser s" "fl_refreshing (send_as w r s) = fl_refreshing s"
  "fl_promise (send_as w r s) = fl_promise s" "fl_next (send_as w r s) = fl_next s"
  "fl_wire (send_as w r s) = fl_wire s @ [(w, r)]" "fl_call (send_as w r s) = fl_call s"
  "fl_browser (settle p x s) = fl_browser s" "fl_refreshing (settle p x s) = fl_refreshing s"
  "fl_promise (settle p x s) = (fl_promise s)(p \<mapsto> x)" "fl_next (settle p x s) = fl_next s"
  "fl_wire (settle p x s) = fl_wire s" "fl_call (settle p x s) = fl_call s"
  by (simp_all add: goto_def send_as_def settle_def)

definition pending :: "flight \<Rightarrow> nat \<Rightarrow> bool" where
  "pending s p = (case fl_promise s p of None \<Rightarrow> False | Some (Settled v) \<Rightarrow> False | Some x \<Rightarrow> True)"

definition requests_of :: "nat option \<Rightarrow> flight \<Rightarrow> request list" where
  "requests_of who s = map snd (filter (\<lambda>x. fst x = who) (fl_wire s))"

text \<open>How many requests a call has sent when it stands at a given point.\<close>

fun sends_ok :: "call \<Rightarrow> nat \<Rightarrow> bool" where
  "sends_ok Idle n = (n = 0)"
| "sends_ok (Retried q) n = (n = 2)"
| "sends_ok (Finished x) n = (n \<le> 2)"
| "sends_ok k n = (n = 1)"

definition promises_ok :: "flight \<Rightarrow> bool" where
  "promises_ok s =
     ((\<forall>p. fl_promise s p = None \<longleftrightarrow> fl_next s \<le> p) \<and>
      (\<forall>p. pending s p \<longrightarrow> fl_refreshing s = Some p) \<and>
      (\<forall>p. fl_refreshing s = Some p \<longrightarrow> p < fl_next s))"

definition calls_ok :: "flight \<Rightarrow> bool" where
  "calls_ok s =
     ((\<forall>i q1 res p. fl_call s i = Waiting q1 res p \<longrightarrow> p < fl_next s) \<and>
      (\<forall>i. sends_ok (fl_call s i) (length (requests_of (Some i) s))))"

definition refreshes_ok :: "flight \<Rightarrow> bool" where
  "refreshes_ok s = (length (requests_of None s) \<le> fl_next s)"

lemma requests_of_simps [simp]:
  "requests_of w (goto i k s) = requests_of w s"
  "requests_of w (settle p x s) = requests_of w s"
  "requests_of w (send_as v r s) = requests_of w s @ (if v = w then [r] else [])"
  "requests_of w (s\<lparr>fl_browser := b\<rparr>) = requests_of w s"
  "requests_of w (s\<lparr>fl_refreshing := y\<rparr>) = requests_of w s"
  "requests_of w (s\<lparr>fl_next := n\<rparr>) = requests_of w s"
  by (simp_all add: requests_of_def)

lemma pending_settle:
  "pending (settle p x s) p' = (if p' = p then (\<forall>v. x \<noteq> Settled v) else pending s p')"
  by (cases x) (auto simp: pending_def)

lemma pending_simps [simp]:
  "pending (goto i k s) = pending s"
  "pending (send_as w r s) = pending s"
  "pending (s\<lparr>fl_browser := b\<rparr>) = pending s"
  "pending (s\<lparr>fl_refreshing := y\<rparr>) = pending s"
  "pending (s\<lparr>fl_next := n\<rparr>) = pending s"
  by (simp_all add: pending_def fun_eq_iff)

lemma promises_ok_simps [simp]:
  "promises_ok (goto i k s) = promises_ok s"
  "promises_ok (send_as w r s) = promises_ok s"
  "promises_ok (s\<lparr>fl_browser := b\<rparr>) = promises_ok s"
  by (simp_all add: promises_ok_def)

lemma pending_unique: "promises_ok s \<Longrightarrow> pending s p \<Longrightarrow> pending s p' \<Longrightarrow> p = p'"
  by (metis promises_ok_def option.inject)

lemma pending_created: "promises_ok s \<Longrightarrow> pending s p \<Longrightarrow> p < fl_next s"
  by (simp add: promises_ok_def)

lemma promises_ok_advance:
  assumes "promises_ok s" and "pending s p" and "\<And>v. x \<noteq> Settled v"
  shows "promises_ok (settle p x s)"
proof -
  have "\<not> pending s p'" if "p' \<noteq> p" for p'
    using pending_unique assms that by blast
  then show ?thesis using assms pending_created [OF assms(1,2)]
    by (auto simp: promises_ok_def pending_settle)
qed

lemma promises_ok_settled:
  assumes "promises_ok s" and "pending s p"
  shows "promises_ok (settle p (Settled v) (s\<lparr>fl_refreshing := None\<rparr>))"
proof -
  have "\<not> pending s p'" if "p' \<noteq> p" for p'
    using pending_unique assms that by blast
  then show ?thesis using assms pending_created [OF assms]
    by (auto simp: promises_ok_def pending_settle)
qed

lemma join_refresh_facts:
  assumes "promises_ok s" and "join_refresh origin s = (p, s')"
  shows "promises_ok s' \<and> p < fl_next s' \<and> fl_call s' = fl_call s \<and> fl_next s \<le> fl_next s' \<and>
    requests_of (Some i) s' = requests_of (Some i) s \<and>
    length (requests_of None s') + fl_next s \<le> length (requests_of None s) + fl_next s'"
proof (cases "fl_refreshing s")
  case (Some p')
  with assms show ?thesis by (auto simp: join_refresh_def promises_ok_def)
next
  case None
  then have "\<not> pending s p'" for p' using assms(1) by (auto simp: promises_ok_def)
  then have "promises_ok (settle (fl_next s) x (s\<lparr>fl_next := Suc (fl_next s), fl_refreshing := Some (fl_next s)\<rparr>))" for x
    using assms(1) None by (auto simp: promises_ok_def pending_settle)
  then show ?thesis using assms(2) None
    by (auto simp: join_refresh_def Let_def split: sum.splits)
qed

lemma sf_step_promises_ok: "sf_step origin s s' \<Longrightarrow> promises_ok s \<Longrightarrow> promises_ok s'"
  by (induction rule: sf_step.induct)
     (auto simp: pending_def dest: join_refresh_facts intro!: promises_ok_advance promises_ok_settled)

lemma sends_ok_init: "sends_ok k n \<Longrightarrow> n \<le> 2"
  by (cases k) auto

lemma calls_ok_goto:
  assumes "calls_ok s" and "\<forall>q r p. k = Waiting q r p \<longrightarrow> p < fl_next s"
    and "\<And>n. sends_ok (fl_call s i) n \<Longrightarrow> sends_ok k n"
  shows "calls_ok (goto i k s)"
  using assms by (auto simp: calls_ok_def)

lemma calls_ok_send:
  assumes "calls_ok s" and "\<forall>q r p. k \<noteq> Waiting q r p"
    and "\<And>n. sends_ok (fl_call s i) n \<Longrightarrow> sends_ok k (Suc n)"
  shows "calls_ok (send_as (Some i) r (goto i k s))"
  using assms by (auto simp: calls_ok_def)

lemma calls_ok_frame:
  "calls_ok s \<Longrightarrow> calls_ok (settle p x s)"
  "calls_ok s \<Longrightarrow> calls_ok (s\<lparr>fl_browser := b\<rparr>)"
  "calls_ok s \<Longrightarrow> calls_ok (s\<lparr>fl_refreshing := y\<rparr>)"
  by (simp_all add: calls_ok_def)

lemma calls_ok_join:
  assumes "promises_ok s" and "calls_ok s" and "join_refresh origin s = (p, s')"
  shows "calls_ok s'"
  using join_refresh_facts [OF assms(1,3)] assms(2) unfolding calls_ok_def by fastforce

lemma sf_step_calls_ok:
  assumes "sf_step origin s s'" and "promises_ok s" and "calls_ok s"
  shows "calls_ok s'"
  using assms
proof (induction rule: sf_step.induct)
  case (recover s i q q1 res p s')
  then have "calls_ok s'" "p < fl_next s'" "fl_call s' = fl_call s"
    using calls_ok_join join_refresh_facts by blast+
  then show ?case using recover.hyps(1) by (intro calls_ok_goto) auto
qed (auto intro!: calls_ok_goto calls_ok_send calls_ok_frame)

lemma sf_step_refreshes_ok:
  assumes "sf_step origin s s'" and "promises_ok s" and "refreshes_ok s"
  shows "refreshes_ok s'"
  using assms
proof (induction rule: sf_step.induct)
  case (recover s i q q1 res p s')
  then show ?case using join_refresh_facts [OF recover.prems(1) recover.hyps(4), of 0]
    by (auto simp: refreshes_ok_def)
qed (auto simp: refreshes_ok_def)

lemma sf_reach_ok: "sf_reach origin b s \<Longrightarrow> promises_ok s \<and> calls_ok s \<and> refreshes_ok s"
proof (induction rule: sf_reach.induct)
  case sf_init
  then show ?case
    by (simp add: fl_init_def promises_ok_def calls_ok_def refreshes_ok_def pending_def requests_of_def)
next
  case (sf_next s s')
  then show ?case using sf_step_promises_ok sf_step_calls_ok sf_step_refreshes_ok by blast
qed

interpretation web_flight: shared_flight "sf_step origin" promises_ok pending fl_refreshing for origin
  by unfold_locales (auto simp: sf_step_promises_ok, simp add: promises_ok_def)

section \<open>Progress\<close>

text \<open>
  From every point of a call some sequence of steps finishes it; a waiting call
  needs the promise it waits for to be run to its end first.
\<close>

abbreviation sf_steps :: "jstring \<Rightarrow> flight \<Rightarrow> flight \<Rightarrow> bool" where
  "sf_steps origin \<equiv> (sf_step origin)\<^sup>*\<^sup>*"

definition can_finish :: "jstring \<Rightarrow> nat \<Rightarrow> flight \<Rightarrow> bool" where
  "can_finish origin i s = can_reach (sf_step origin) (\<lambda>s'. \<exists>x. fl_call s' i = Finished x) s"

lemma can_finish_now: "fl_call s i = Finished x \<Longrightarrow> can_finish origin i s"
  unfolding can_finish_def by (rule can_reach_now) blast

lemma can_finish_step: "sf_step origin s s' \<Longrightarrow> can_finish origin i s' \<Longrightarrow> can_finish origin i s"
  unfolding can_finish_def by (rule can_reach_step)

lemma can_finish_settled:
  assumes "fl_call s i = Waiting q1 res p" and "fl_promise s p = Some (Settled v)"
  shows "can_finish origin i s"
proof (cases v)
  case False
  with assms have "sf_step origin s (goto i (Finished (Inr res)) s)" by (simp add: sf_step.give_up)
  then show ?thesis by (rule can_finish_step) (simp add: can_finish_now)
next
  case True
  show ?thesis
  proof (cases "rearm q1 (fl_browser s)")
    case (Inl e)
    with assms True have "sf_step origin s (goto i (Finished (Inl e)) s)" by (simp add: sf_step.retry_throws)
    then show ?thesis by (rule can_finish_step) (simp add: can_finish_now)
  next
    case (Inr q2)
    let ?s = "send_as (Some i) q2 (goto i (Retried q2) s)"
    have "sf_step origin ?s (goto i (Finished (Inr res)) ?s)"
      by (rule sf_step.retry_respond) simp
    then have "can_finish origin i ?s" by (rule can_finish_step) (simp add: can_finish_now)
    moreover have "sf_step origin s ?s" using assms True Inr by (auto intro: sf_step.retry)
    ultimately show ?thesis by (rule can_finish_step [rotated])
  qed
qed

lemma can_finish_stored:
  assumes "fl_call s i = Waiting q1 res p" and "fl_promise s p = Some (Stored v)"
  shows "can_finish origin i s"
  by (rule can_finish_step [OF sf_step.refresh_return [OF assms(2)]], rule can_finish_settled [of _ _ q1 res p v])
     (simp_all add: assms(1))

lemma can_finish_answered:
  assumes "fl_call s i = Waiting q1 res p" and "fl_promise s p = Some (Answered r)"
  shows "can_finish origin i s"
  by (rule can_finish_step [OF sf_step.refresh_capture [OF assms(2)]], rule can_finish_stored [of _ _ q1 res p "rs_ok r"])
     (simp_all add: assms(1))

lemma can_finish_fetching:
  assumes "fl_call s i = Waiting q1 res p" and "fl_promise s p = Some Fetching"
  shows "can_finish origin i s"
  by (rule can_finish_step [OF sf_step.refresh_respond [OF assms(2), of _ res]],
      rule can_finish_answered [of _ _ q1 res p res])
     (simp_all add: assms(1))

lemma can_finish_waiting:
  assumes "promises_ok s" and "calls_ok s" and "fl_call s i = Waiting q1 res p"
  shows "can_finish origin i s"
proof -
  have "p < fl_next s" using assms(2,3) by (auto simp: calls_ok_def)
  then obtain x where x: "fl_promise s p = Some x"
    using assms(1) by (fastforce simp: promises_ok_def)
  show ?thesis
    by (cases x) (use x in \<open>simp_all add: can_finish_settled [OF assms(3)] can_finish_stored [OF assms(3)]
        can_finish_answered [OF assms(3)] can_finish_fetching [OF assms(3)]\<close>)
qed

lemma can_finish_captured:
  assumes "promises_ok s" and "calls_ok s" and "fl_call s i = Captured q q1 res"
  shows "can_finish origin i s"
proof (cases "recoverable q res \<and> \<not> isAuthFlow q")
  case False
  show ?thesis
    by (rule can_finish_step [OF sf_step.return [OF assms(3) False]]) (simp add: can_finish_now)
next
  case True
  obtain p s' where join: "join_refresh origin s = (p, s')" by (metis surj_pair)
  have st: "sf_step origin s (goto i (Waiting q1 res p) s')"
    by (rule sf_step.recover [OF assms(3) _ _ join]) (use True in auto)
  have "promises_ok (goto i (Waiting q1 res p) s')" "calls_ok (goto i (Waiting q1 res p) s')"
    using st assms sf_step_promises_ok sf_step_calls_ok by blast+
  then show ?thesis by (rule can_finish_step [OF st can_finish_waiting]) simp
qed

lemma can_finish_got:
  assumes "promises_ok s" and "calls_ok s" and "fl_call s i = Got q q1 res"
  shows "can_finish origin i s"
proof -
  note st = sf_step.capture [OF assms(3), of origin]
  show ?thesis
    using sf_step_promises_ok [OF st assms(1)] sf_step_calls_ok [OF st assms(1,2)]
    by (rule can_finish_step [OF st can_finish_captured [of _ _ q q1 res]]) simp
qed

text \<open>Two readers whose sessions expired: both end up waiting for one refresh.\<close>

definition sample_401 :: response where
  "sample_401 = \<lparr>rs_status = 401, rs_json = None, rs_request_id = None\<rparr>"

lemma sample_get_facts:
  "prepare rid sample_get b = Inr (set_header ''X-Request-Id'' rid sample_get)"
  "recoverable sample_get sample_401" "\<not> isAuthFlow sample_get"
  by (simp_all add: prepare_def recoverable_def sample_401_def isAuthFlow_def is_mutating_def sample_get_def
      sample_post_def js_def starts_with_def to_upper_def MUTATING_def)

lemma sf_reach_captured:
  assumes "sf_reach origin b s" and "fl_call s i = Idle"
  shows "\<exists>s' q1. sf_reach origin b s' \<and> fl_call s' = (fl_call s)(i := Captured sample_get q1 sample_401) \<and>
    fl_browser s' = fl_browser s \<and> fl_refreshing s' = fl_refreshing s \<and> fl_promise s' = fl_promise s"
proof -
  let ?q1 = "set_header ''X-Request-Id'' [] sample_get"
  let ?s1 = "send_as (Some i) ?q1 (goto i (Sent sample_get ?q1) s)"
  let ?s2 = "goto i (Got sample_get ?q1 sample_401) ?s1"
  let ?s3 = "goto i (Captured sample_get ?q1 sample_401)
    (?s2\<lparr>fl_browser := captureCsrf sample_401 (rq_url ?q1) (fl_browser ?s2)\<rparr>)"
  have "sf_step origin s ?s1" by (rule sf_step.start [OF assms(2) sample_get_facts(1)])
  moreover have "sf_step origin ?s1 ?s2" by (rule sf_step.respond) simp
  moreover have "sf_step origin ?s2 ?s3" by (rule sf_step.capture) simp
  ultimately have "sf_reach origin b ?s3" using assms(1) by (blast intro: sf_reach.sf_next)
  moreover have "captureCsrf sample_401 u bb = bb" for u bb
    by (simp add: captureCsrf_def sample_401_def rs_ok_def)
  ultimately show ?thesis by (intro exI [of _ ?s3] exI [of _ ?q1]) simp
qed

lemma two_waiters:
  assumes "csrfToken b = Inr t"
  shows "\<exists>s q q' r r' p p'. sf_reach origin b s \<and> fl_call s 0 = Waiting q r p \<and> fl_call s 1 = Waiting q' r' p' \<and>
    pending s p \<and> pending s p'"
proof -
  obtain s1 qa where s1: "sf_reach origin b s1" "fl_call s1 = (fl_call (fl_init b))(0 := Captured sample_get qa sample_401)"
      "fl_browser s1 = b" "fl_refreshing s1 = None" "fl_promise s1 = (\<lambda>_. None)"
    using sf_reach_captured [OF sf_reach.sf_init, of b 0 origin] by (auto simp: fl_init_def)
  obtain s2 qb where s2: "sf_reach origin b s2" "fl_call s2 0 = Captured sample_get qa sample_401"
      "fl_call s2 1 = Captured sample_get qb sample_401" "fl_browser s2 = b" "fl_refreshing s2 = None"
    using sf_reach_captured [OF s1(1), of 1] s1 by (auto simp: fl_init_def)
  let ?p = "fl_next s2"
  obtain s3 where s3: "join_refresh origin s2 = (?p, s3)" "fl_refreshing s3 = Some ?p" "pending s3 ?p"
      "fl_call s3 = fl_call s2"
    using assms s2 by (auto simp: join_refresh_def Let_def pending_settle)
  let ?s4 = "goto 0 (Waiting qa sample_401 ?p) s3"
  have "sf_step origin s2 ?s4"
    using sf_step.recover [OF s2(2) sample_get_facts(2,3) s3(1)] .
  then have r4: "sf_reach origin b ?s4" using s2(1) by (rule sf_reach.sf_next [rotated])
  let ?s5 = "goto 1 (Waiting qb sample_401 ?p) ?s4"
  have "sf_step origin ?s4 ?s5"
    by (rule sf_step.recover [OF _ sample_get_facts(2,3), of _ _ qb]) (simp_all add: join_refresh_def s2 s3 del: One_nat_def)
  then have "sf_reach origin b ?s5" using r4 by (rule sf_reach.sf_next [rotated])
  then show ?thesis using s3(3)
    by (intro exI [of _ ?s5] exI [of _ qa] exI [of _ qb] exI [of _ sample_401] exI [of _ ?p]) simp
qed

lemma sample_token: "csrfToken (cl_browser (sample_client (Some (js ''old'')))) = Inr (Some (js ''old''))"
  by (simp add: csrfToken_def sample_client_def)

section \<open>A call on its own\<close>

text \<open>
  \<open>apiFetch\<close> of \<open>WebClient\<close> runs one call to its end; the same requests, browser state and
  result come out of a run of the interleaved model in which nothing else moves.
\<close>

definition sf_sent :: "flight \<Rightarrow> request list" where
  "sf_sent s = map snd (fl_wire s)"

text \<open>The client of the sequential model that a state stands for, when no refresh is under way.\<close>

definition agrees :: "flight \<Rightarrow> client \<Rightarrow> request list \<Rightarrow> bool" where
  "agrees s c tr \<longleftrightarrow> fl_browser s = cl_browser c \<and> (fl_refreshing s = None \<longleftrightarrow> cl_refreshing c = None) \<and> sf_sent s = tr"

lemma agrees_simps [simp]:
  "agrees (goto i k s) c tr = agrees s c tr"
  "agrees (settle p x s) c tr = agrees s c tr"
  "agrees (send_as u r s) c (tr @ [r']) \<longleftrightarrow> agrees s c tr \<and> r' = r"
  by (auto simp: agrees_def sf_sent_def)

definition ends_as :: "jstring \<Rightarrow> nat \<Rightarrow> flight \<Rightarrow> (thrown + response) \<times> client \<times> 'w \<times> request list \<Rightarrow> bool" where
  "ends_as origin i s = (\<lambda>(x, c, w, tr).
     \<exists>s'. sf_steps origin s s' \<and> fl_call s' = (fl_call s)(i := Finished x) \<and> agrees s' c tr)"

lemma ends_as_now:
  "sf_step origin s s' \<Longrightarrow> fl_call s' = (fl_call s)(i := Finished x) \<Longrightarrow> agrees s' c tr \<Longrightarrow>
   ends_as origin i s (x, c, w, tr)"
  unfolding ends_as_def by (auto intro: r_into_rtranclp)

lemma ends_as_steps:
  assumes "sf_steps origin s s1" and "ends_as origin i s1 y" and "fl_call s1 = (fl_call s)(i := k)"
  shows "ends_as origin i s y"
proof -
  obtain x c w tr where y: "y = (x, c, w, tr)" by (metis surj_pair)
  with assms(2) obtain s' where "sf_steps origin s1 s'" "fl_call s' = (fl_call s1)(i := Finished x)" "agrees s' c tr"
    by (auto simp: ends_as_def)
  with rtranclp_trans [OF assms(1)] show ?thesis using assms(3) y by (auto simp: ends_as_def)
qed

lemma agrees_browser: "agrees s c tr \<Longrightarrow> agrees (s\<lparr>fl_browser := b\<rparr>) (c\<lparr>cl_browser := b\<rparr>) tr"
  by (simp add: agrees_def sf_sent_def)

lemma refresh_run:
  assumes "agrees s c tr" and "fl_refreshing s = None"
    and "refreshSession origin (traced f) c (w, tr) = (v, c2, w2, tr2)" and "join_refresh origin s = (p, s1)"
  shows "\<exists>s'. sf_steps origin s1 s' \<and> fl_promise s' p = Some (Settled v) \<and> fl_call s' = fl_call s \<and> agrees s' c2 tr2"
proof -
  have b: "fl_browser s = cl_browser c" "cl_refreshing c = None" "sf_sent s = tr" using assms(1,2) by (auto simp: agrees_def)
  show ?thesis
  proof (cases "csrfToken (cl_browser c)")
    case (Inl e)
    then show ?thesis using assms b
      by (intro exI [of _ s1]) (auto simp: refreshSession_def join_refresh_def Let_def agrees_def sf_sent_def)
  next
    case (Inr csrf)
    let ?r = "refresh_request origin csrf"
    have s1: "fl_promise s1 p = Some Fetching" "fl_browser s1 = cl_browser c" "sf_sent s1 = tr @ [?r]" "fl_call s1 = fl_call s"
      using assms(2,4) b Inr by (auto simp: join_refresh_def Let_def sf_sent_def)
    obtain out w1 where out: "f ?r w = (out, w1)" by (metis surj_pair)
    show ?thesis
    proof (cases out)
      case (Inl m)
      then have "v = False" "c2 = c" "tr2 = tr @ [?r]" using assms(3) b \<open>csrfToken _ = Inr csrf\<close> out
        by (auto simp: refreshSession_def)
      then show ?thesis using sf_step.refresh_error [OF s1(1), of origin] s1 b
        by (intro exI [of _ "settle p (Settled False) (s1\<lparr>fl_refreshing := None\<rparr>)"]) (auto simp: agrees_def sf_sent_def)
    next
      case r: (Inr res)
      let ?b = "captureCsrf res (js ''/auth/refresh'') (cl_browser c)"
      let ?s2 = "settle p (Answered res) s1"
      let ?s3 = "settle p (Stored (rs_ok res)) (?s2\<lparr>fl_browser := ?b\<rparr>)"
      let ?s4 = "settle p (Settled (rs_ok res)) (?s3\<lparr>fl_refreshing := None\<rparr>)"
      have "sf_step origin s1 ?s2" by (rule sf_step.refresh_respond [OF s1(1)])
      moreover have "sf_step origin ?s2 ?s3"
        using sf_step.refresh_capture [of ?s2 p res origin] s1(2) by simp
      moreover have "sf_step origin ?s3 ?s4" by (rule sf_step.refresh_return) simp
      ultimately have "sf_steps origin s1 ?s4" by (meson r_into_rtranclp rtranclp_trans)
      moreover have "v = rs_ok res" "c2 = c\<lparr>cl_browser := ?b\<rparr>" "tr2 = tr @ [?r]"
        using assms(3) b Inr out r by (auto simp: refreshSession_def)
      ultimately show ?thesis using s1 b by (intro exI [of _ ?s4]) (simp add: agrees_def sf_sent_def)
    qed
  qed
qed

lemma agrees_finish: "agrees s (fst (snd (finish q res c w))) tr = agrees s c tr"
  by (simp add: agrees_def)

lemma ends_as_finish:
  assumes "sf_step origin s s'" and "fl_call s' = (fl_call s)(i := Finished (Inr res))" and "agrees s' c tr"
  shows "ends_as origin i s (finish q res c (w, tr))"
proof -
  have "finish q res c (w, tr) = (Inr res, fst (snd (finish q res c (w, tr))), w, tr)" by (simp add: finish_def)
  moreover have "agrees s' (fst (snd (finish q res c (w, tr)))) tr" using assms(3) by (simp add: agrees_finish)
  ultimately show ?thesis using ends_as_now [OF assms(1,2)] by metis
qed

lemma join_refresh_goto:
  "join_refresh origin (goto i k s) = (case join_refresh origin s of (p, s') \<Rightarrow> (p, goto i k s'))"
  by (simp add: join_refresh_def goto_def settle_def send_as_def Let_def split: option.split sum.split)

lemma ends_as_retry:
  assumes "fl_call s i = Waiting q1 res p" and "fl_promise s p = Some (Settled True)" and "agrees s c tr"
  shows "ends_as origin i s
    (case rearm q1 (cl_browser c) of
       Inl e \<Rightarrow> (Inl e, c, w, tr)
     | Inr q2 \<Rightarrow> (case traced f q2 (w, tr) of
                   (Inl m, w3) \<Rightarrow> (Inl (JsError m), c, w3)
                 | (Inr res2, w3) \<Rightarrow> finish q1 res2 c w3))"
proof -
  have b: "fl_browser s = cl_browser c" using assms(3) by (simp add: agrees_def)
  show ?thesis
  proof (cases "rearm q1 (cl_browser c)")
    case (Inl e)
    then show ?thesis using sf_step.retry_throws [OF assms(1,2), of e origin] b assms(3)
      by (simp add: ends_as_now)
  next
    case (Inr q2)
    let ?s1 = "send_as (Some i) q2 (goto i (Retried q2) s)"
    have st: "sf_step origin s ?s1" using sf_step.retry [OF assms(1,2), of q2 origin] b Inr by simp
    have "ends_as origin i ?s1
      (case traced f q2 (w, tr) of
         (Inl m, w3) \<Rightarrow> (Inl (JsError m), c, w3)
       | (Inr res2, w3) \<Rightarrow> finish q1 res2 c w3)"
    proof (cases "fst (f q2 w)")
      case (Inl m)
      show ?thesis using sf_step.retry_error [of ?s1 i q2 origin m] assms(3) Inl by (simp add: ends_as_now)
    next
      case r: (Inr res2)
      show ?thesis using sf_step.retry_respond [of ?s1 i q2 origin res2] assms(3) r
        by (simp add: ends_as_finish)
    qed
    then have "ends_as origin i s
      (case traced f q2 (w, tr) of
         (Inl m, w3) \<Rightarrow> (Inl (JsError m), c, w3)
       | (Inr res2, w3) \<Rightarrow> finish q1 res2 c w3)"
      by (rule ends_as_steps [OF r_into_rtranclp [of "sf_step origin", OF st]]) simp
    with Inr show ?thesis by simp
  qed
qed

lemma ends_as_captured:
  assumes c: "fl_call s i = Captured q q1 res" and a: "agrees s c tr" and free: "fl_refreshing s = None"
  shows "ends_as origin i s
    (if recoverable q res \<and> \<not> isAuthFlow q
     then (case refreshSession origin (traced f) c (w, tr) of
             (True, c2, w2) \<Rightarrow>
               (case rearm q1 (cl_browser c2) of
                  Inl e \<Rightarrow> (Inl e, c2, w2)
                | Inr q2 \<Rightarrow> (case traced f q2 w2 of
                              (Inl m, w3) \<Rightarrow> (Inl (JsError m), c2, w3)
                            | (Inr res2, w3) \<Rightarrow> finish q1 res2 c2 w3))
           | (False, c2, w2) \<Rightarrow> finish q1 res c2 w2)
     else finish q1 res c (w, tr))"
proof (cases "recoverable q res \<and> \<not> isAuthFlow q")
  case False
  show ?thesis
    using ends_as_finish [where q = q1 and w = w and c = c and tr = tr and i = i and res = res, OF sf_step.return [OF c False, of origin]] False a
    by auto
next
  case True
  obtain p s1 where join: "join_refresh origin s = (p, s1)" by (metis surj_pair)
  obtain v c2 w2 tr2 where ref: "refreshSession origin (traced f) c (w, tr) = (v, c2, w2, tr2)" by (metis surj_pair)
  let ?s1 = "goto i (Waiting q1 res p) s1"
  have st: "sf_step origin s ?s1" by (rule sf_step.recover [OF c _ _ join]) (use True in auto)
  have "agrees (goto i (Waiting q1 res p) s) c tr" using a by simp
  from refresh_run [OF this _ ref, of p ?s1] obtain s2 where s2: "sf_steps origin ?s1 s2"
      "fl_promise s2 p = Some (Settled v)" "fl_call s2 = (fl_call s)(i := Waiting q1 res p)" "agrees s2 c2 tr2"
    using free join by (auto simp: join_refresh_goto)
  have run: "sf_steps origin s s2" using st s2(1) by (rule converse_rtranclp_into_rtranclp)
  have w: "fl_call s2 i = Waiting q1 res p" using s2(3) by simp
  show ?thesis
  proof (cases v)
    case v: True
    have "ends_as origin i s2
      (case rearm q1 (cl_browser c2) of
         Inl e \<Rightarrow> (Inl e, c2, w2, tr2)
       | Inr q2 \<Rightarrow> (case traced f q2 (w2, tr2) of
                     (Inl m, w3) \<Rightarrow> (Inl (JsError m), c2, w3)
                   | (Inr res2, w3) \<Rightarrow> finish q1 res2 c2 w3))"
      by (rule ends_as_retry [OF w _ s2(4)]) (use s2(2) v in simp)
    from ends_as_steps [OF run this s2(3)] show ?thesis using True ref v by simp
  next
    case False
    then have "fl_promise s2 p = Some (Settled False)" using s2(2) by simp
    from ends_as_finish [where q = q1 and w = w2 and c = c2 and tr = tr2 and i = i and res = res,
        OF sf_step.give_up [OF w this, of origin]] s2(4)
    have "ends_as origin i s2 (finish q1 res c2 (w2, tr2))" by simp
    from ends_as_steps [OF run this s2(3)] show ?thesis using True ref False by simp
  qed
qed

lemma ends_as_call:
  assumes idle: "fl_call s i = Idle" and free: "fl_refreshing s = None" and a: "agrees s c (sf_sent s)"
  shows "ends_as origin i s (apiFetch origin (traced f) rid q c (w, sf_sent s))"
proof -
  have b: "fl_browser s = cl_browser c" using a by (simp add: agrees_def)
  show ?thesis
  proof (cases "prepare rid q (cl_browser c)")
    case (Inl e)
    then show ?thesis using sf_step.start_throws [OF idle, of rid q e origin] b a
      by (simp add: apiFetch_def ends_as_now)
  next
    case (Inr q1)
    let ?s1 = "send_as (Some i) q1 (goto i (Sent q q1) s)"
    obtain out w1 where out: "f q1 w = (out, w1)" by (metis surj_pair)
    have st1: "sf_step origin s ?s1" using sf_step.start [OF idle, of rid q q1 origin] b Inr by simp
    have "ends_as origin i ?s1 (apiFetch origin (traced f) rid q c (w, sf_sent s))"
    proof (cases out)
      case (Inl m)
      then show ?thesis using sf_step.network_error [of ?s1 i q q1 origin m] a out \<open>prepare _ _ _ = Inr q1\<close>
        by (simp add: apiFetch_def ends_as_now)
    next
      case r: (Inr res)
      let ?b = "captureCsrf res (rq_url q1) (cl_browser c)"
      let ?s2 = "goto i (Got q q1 res) ?s1"
      let ?s3 = "goto i (Captured q q1 res) (?s2\<lparr>fl_browser := ?b\<rparr>)"
      have st2: "sf_step origin ?s1 ?s2" by (rule sf_step.respond) simp
      have st3: "sf_step origin ?s2 ?s3" using sf_step.capture [of ?s2 i q q1 res origin] b by simp
      have run: "sf_steps origin ?s1 ?s3" 
        by (rule rtranclp.rtrancl_into_rtrancl [where r = "sf_step origin", OF r_into_rtranclp [where r = "sf_step origin", OF st2] st3])
      have "agrees ?s3 (c\<lparr>cl_browser := ?b\<rparr>) (sf_sent s @ [q1])" using a by (simp add: agrees_def sf_sent_def)
      note ends = ends_as_captured [of ?s3 i q q1 res, OF _ this, of origin f w1]
      show ?thesis
        by (rule ends_as_steps [OF run, of _ _ "Captured q q1 res"])
           (use ends free Inr out r in \<open>simp_all add: apiFetch_def Let_def\<close>)
    qed
    then show ?thesis by (rule ends_as_steps [OF r_into_rtranclp [of "sf_step origin", OF st1]]) simp
  qed
qed


section \<open>Properties\<close>

text \<open>
  C2. Single flight: however the calls interleave, at most one refresh is under way at any
  time, and it is the one in \<open>refreshing\<close>; every call that waits for an unfinished
  refresh waits for that one; a call sends at most two requests, and there are
  never more refresh requests than promises created.
\<close>

theorem single_flight:
  assumes "sf_reach origin b s"
  shows "(pending s p \<longrightarrow> fl_refreshing s = Some p) \<and>
    (pending s p \<and> pending s p' \<longrightarrow> p = p') \<and>
    (fl_call s i = Waiting q r p \<and> fl_call s j = Waiting q' r' p' \<and> pending s p \<and> pending s p' \<longrightarrow> p = p') \<and>
    length (requests_of (Some i) s) \<le> 2 \<and>
    length (requests_of None s) \<le> fl_next s"
proof -
  from sf_reach_ok [OF assms] have ok: "promises_ok s" "calls_ok s" "refreshes_ok s" by auto
  have "length (requests_of (Some i) s) \<le> 2"
    using ok(2) sends_ok_init [of "fl_call s i"] by (simp add: calls_ok_def)
  with ok pending_unique [OF ok(1)] show ?thesis
    by (auto simp: promises_ok_def refreshes_ok_def)
qed

theorem single_flight_witness:
  "\<exists>s q q' r r' p. sf_reach (js ''http://h'') (cl_browser (sample_client (Some (js ''old'')))) s \<and>
     fl_call s 0 = Waiting q r p \<and> fl_call s 1 = Waiting q' r' p \<and> fl_refreshing s = Some p"
proof -
  obtain s q q' r r' p p' where s: "sf_reach (js ''http://h'') (cl_browser (sample_client (Some (js ''old'')))) s"
      "fl_call s 0 = Waiting q r p" "fl_call s 1 = Waiting q' r' p'" "pending s p" "pending s p'"
    using two_waiters [OF sample_token] by blast
  with single_flight [OF s(1), of p p' 0 q r 1 q' r'] show ?thesis by blast
qed

text \<open>
  C10. No lost waiter: in every reachable state every call that has started can still finish;
  no call is left waiting for a promise that was never created or can no longer settle.
\<close>

theorem no_lost_waiter:
  assumes "sf_reach origin b s" and "fl_call s i \<noteq> Idle"
  shows "can_finish origin i s"
proof -
  from sf_reach_ok [OF assms(1)] have ok: "promises_ok s" "calls_ok s" by auto
  show ?thesis
  proof (cases "fl_call s i")
    case (Sent q q1)
    show ?thesis
      by (rule can_finish_step [OF sf_step.network_error [OF Sent, of _ "[]"]]) (simp add: can_finish_now)
  next
    case (Retried q)
    show ?thesis
      by (rule can_finish_step [OF sf_step.retry_error [OF Retried, of _ "[]"]]) (simp add: can_finish_now)
  next
    case (Waiting q r p)
    then show ?thesis by (rule can_finish_waiting [OF ok])
  qed (use assms(2) in \<open>simp_all add: can_finish_now can_finish_got [OF ok] can_finish_captured [OF ok]\<close>)
qed

theorem no_lost_waiter_witness:
  "\<exists>s. sf_reach (js ''http://h'') (cl_browser (sample_client (Some (js ''old'')))) s \<and>
     (\<exists>q r p. fl_call s 0 = Waiting q r p) \<and> can_finish (js ''http://h'') 0 s"
proof -
  obtain s q r p where s: "sf_reach (js ''http://h'') (cl_browser (sample_client (Some (js ''old'')))) s"
      "fl_call s 0 = Waiting q r p"
    using two_waiters [OF sample_token] by blast
  then have "can_finish (js ''http://h'') 0 s" by (intro no_lost_waiter [OF s(1)]) simp
  with s show ?thesis by blast
qed

text \<open>
  C8. \<open>apiFetch\<close> of the sequential model is a run of the interleaved one: with no refresh under
  way, a call that nothing interrupts reaches, by its own steps, the result of \<open>apiFetch\<close>
  against any server, with its requests in the same order, the browser state (stored CSRF token)
  it leaves, and \<open>refreshing\<close> set exactly when \<open>apiFetch\<close> leaves it set; other calls do not move.
\<close>

theorem apiFetch_is_a_run:
  assumes "fl_call s i = Idle" and "fl_refreshing s = None" and "cl_browser c = fl_browser s" and "cl_refreshing c = None"
    and "apiFetch origin (traced f) rid q c (w, map snd (fl_wire s)) = (x, c', w', tr)"
  shows "\<exists>s'. sf_steps origin s s' \<and> fl_call s' = (fl_call s)(i := Finished x) \<and>
    fl_browser s' = cl_browser c' \<and> map snd (fl_wire s') = tr \<and> (fl_refreshing s' = None \<longleftrightarrow> cl_refreshing c' = None)"
  using ends_as_call [OF assms(1,2), of c origin f rid q w] assms(2-5)
  by (auto simp: ends_as_def agrees_def sf_sent_def)

theorem apiFetch_is_a_run_witness:
  "\<exists>s'. sf_steps (js ''http://h'') (fl_init (cl_browser (sample_client None))) s' \<and>
     fl_call s' 0 = Finished (fst (apiFetch (js ''http://h'') (traced expired_server) (js ''r'') sample_post
       (sample_client None) (False, [])))"
proof -
  obtain x c' w' tr where run: "apiFetch (js ''http://h'') (traced expired_server) (js ''r'') sample_post
      (sample_client None) (False, []) = (x, c', w', tr)" by (metis surj_pair)
  let ?s = "fl_init (cl_browser (sample_client None))"
  have i: "fl_call ?s 0 = Idle" "fl_refreshing ?s = None" "cl_browser (sample_client None) = fl_browser ?s"
      "cl_refreshing (sample_client None) = None" "map snd (fl_wire ?s) = []"
    by (simp_all add: fl_init_def sample_client_def)
  from apiFetch_is_a_run [where f = expired_server, OF i(1-4), unfolded i(5), OF run] show ?thesis
    unfolding run by auto
qed

end
