(* ===== verification/MobileClient.thy ===== *)
theory MobileClient
  imports Http
begin

text \<open>
  The bearer client of the mobile app: the session store
  (\<^verbatim>\<open>mobile/src/lib/secure-session.ts\<close>), the refresh exchange and \<open>fetch\<close> wrapper of
  \<^verbatim>\<open>mobile/src/api/client.ts\<close>, and the direct \<open>authedFetch\<close> of
  \<^verbatim>\<open>mobile/src/data/governance.ts\<close>. The Keystore (\<open>expo-secure-store\<close>) is a
  parameter: three operations on an abstract store that may each reject. The access
  token is a field of the state of its own, so that what reaches the Keystore is
  visible in the types. One call runs to its end here; \<open>refreshing\<close> is then null
  whenever a call starts, because the function behind it awaits before it can fail.
\<close>

section \<open>The session store\<close>

text \<open>A read returns \<open>None\<close> when it rejects; a write returns whether it resolved, and the store after it.\<close>

record 'k secure_store =
  ss_get :: "jstring \<Rightarrow> 'k \<Rightarrow> jstring option option"
  ss_set :: "jstring \<Rightarrow> jstring \<Rightarrow> 'k \<Rightarrow> bool \<times> 'k"
  ss_delete :: "jstring \<Rightarrow> 'k \<Rightarrow> bool \<times> 'k"

record 'k session =
  se_access :: "jstring option"
  se_keys :: 'k
  se_log :: "log_call list"

definition REFRESH_KEY :: jstring where
  "REFRESH_KEY = js ''postal.refreshToken''"

definition getAccessToken :: "'k session \<Rightarrow> jstring option" where
  "getAccessToken s = se_access s"

definition setAccessToken :: "jstring option \<Rightarrow> 'k session \<Rightarrow> 'k session" where
  "setAccessToken token s = s\<lparr>se_access := token\<rparr>"

definition getRefreshToken :: "'k secure_store \<Rightarrow> 'k session \<Rightarrow> jstring option" where
  "getRefreshToken ss s = (case ss_get ss REFRESH_KEY (se_keys s) of Some v \<Rightarrow> v | None \<Rightarrow> None)"

text \<open>A rejected write is swallowed; the in-memory token still works.\<close>

definition setRefreshToken :: "'k secure_store \<Rightarrow> jstring option \<Rightarrow> 'k session \<Rightarrow> 'k session" where
  "setRefreshToken ss token s =
     (if truthy_opt token
      then s\<lparr>se_keys := snd (ss_set ss REFRESH_KEY (nullish token []) (se_keys s))\<rparr>
      else s\<lparr>se_keys := snd (ss_delete ss REFRESH_KEY (se_keys s))\<rparr>)"

definition saveSession :: "'k secure_store \<Rightarrow> jstring \<Rightarrow> jstring option \<Rightarrow> 'k session \<Rightarrow> 'k session" where
  "saveSession ss access refresh s =
     (let s' = setAccessToken (Some access) s
      in if truthy_opt refresh then setRefreshToken ss refresh s' else s')"

definition clearSession :: "'k secure_store \<Rightarrow> 'k session \<Rightarrow> 'k session" where
  "clearSession ss s = setRefreshToken ss None (setAccessToken None s)"

section \<open>Refresh and retry\<close>

definition AUTH_PATHS :: "jstring list" where
  "AUTH_PATHS = [js ''/auth/refresh'', js ''/auth/login'', js ''/auth/logout'']"

text \<open>\<open>body.data?.k\<close> of a parsed body, when it is a string.\<close>

definition body_token :: "string \<Rightarrow> json option \<Rightarrow> jstring option" where
  "body_token k body =
     (case body of None \<Rightarrow> None | Some v \<Rightarrow>
       (case json_get v (js ''data'') of None \<Rightarrow> None | Some d \<Rightarrow>
         (case json_get d (js k) of Some (JStr t) \<Rightarrow> Some t | _ \<Rightarrow> None)))"

definition mobile_refresh_request :: "jstring \<Rightarrow> jstring \<Rightarrow> request" where
  "mobile_refresh_request origin refresh =
     \<lparr>rq_method = js ''POST'', rq_url = origin @ js ''/api/v1/auth/refresh'',
      rq_headers = [(js ''Content-Type'', js ''application/json'')],
      rq_body = Some (JObj [(js ''refresh_token'', JStr refresh)])\<rparr>"

definition mobile_refreshSession :: "jstring \<Rightarrow> 'k secure_store \<Rightarrow> 'w fetch \<Rightarrow> 'k session \<Rightarrow> 'w
    \<Rightarrow> bool \<times> 'k session \<times> 'w" where
  "mobile_refreshSession origin ss fetch s w =
     (if \<not> truthy_opt (getRefreshToken ss s) then (False, s, w)
      else case fetch (mobile_refresh_request origin (nullish (getRefreshToken ss s) [])) w of
             (Inl m, w') \<Rightarrow> (False, s, w')
           | (Inr res, w') \<Rightarrow>
               if \<not> rs_ok res then (False, s, w')
               else if \<not> truthy_opt (body_token ''access_token'' (rs_json res)) then (False, s, w')
               else (True,
                     saveSession ss (nullish (body_token ''access_token'' (rs_json res)) [])
                       (body_token ''refresh_token'' (rs_json res)) s, w'))"

definition bearer :: "jstring \<Rightarrow> jstring" where
  "bearer token = js ''Bearer '' @ token"

definition with_bearer :: "jstring option \<Rightarrow> request \<Rightarrow> request" where
  "with_bearer token q =
     (if truthy_opt token then set_header ''Authorization'' (bearer (nullish token [])) q else q)"

definition mobile_isAuthFlow :: "request \<Rightarrow> bool" where
  "mobile_isAuthFlow q = list_ex (str_includes (rq_url q)) AUTH_PATHS"

definition mobile_finish :: "response \<Rightarrow> 'k session \<Rightarrow> 'w \<Rightarrow> (thrown + response) \<times> 'k session \<times> 'w" where
  "mobile_finish res s w =
     (Inr res,
      if rs_status res \<ge> 500
      then s\<lparr>se_log := se_log s @
               [\<lparr>lc_message = js ''api server error'',
                 lc_fields = [(js ''requestId'', map_option JStr (rs_request_id res)),
                              (js ''status'', Some (JInt (int (rs_status res))))]\<rparr>]\<rparr>
      else s, w)"

definition mobile_apiFetch :: "jstring \<Rightarrow> 'k secure_store \<Rightarrow> 'w fetch \<Rightarrow> jstring \<Rightarrow> request \<Rightarrow> 'k session \<Rightarrow> 'w
    \<Rightarrow> (thrown + response) \<times> 'k session \<times> 'w" where
  "mobile_apiFetch origin ss fetch rid q s w =
     (let q1 = set_header ''X-Request-Id'' rid (with_bearer (getAccessToken s) q) in
      case fetch q1 w of
        (Inl m, w1) \<Rightarrow> (Inl (JsError m), s, w1)
      | (Inr res, w1) \<Rightarrow>
          if rs_status res = 401 \<and> \<not> mobile_isAuthFlow q
          then (case mobile_refreshSession origin ss fetch s w1 of
                  (True, s2, w2) \<Rightarrow>
                    (case fetch (set_header ''Authorization'' (bearer (nullish (getAccessToken s2) [])) q1) w2 of
                       (Inl m, w3) \<Rightarrow> (Inl (JsError m), s2, w3)
                     | (Inr res2, w3) \<Rightarrow> mobile_finish res2 s2 w3)
                | (False, s2, w2) \<Rightarrow> mobile_finish res s2 w2)
          else mobile_finish res s w1)"

text \<open>\<open>authedFetch(path, init)\<close>: \<open>q\<close> is the request that path and options describe.\<close>

definition authedFetch :: "jstring \<Rightarrow> 'k secure_store \<Rightarrow> 'w fetch \<Rightarrow> request \<Rightarrow> 'k session \<Rightarrow> 'w
    \<Rightarrow> (thrown + response) \<times> 'k session \<times> 'w" where
  "authedFetch origin ss fetch q s w =
     (case fetch (with_bearer (getAccessToken s) q) w of
        (Inl m, w1) \<Rightarrow> (Inl (JsError m), s, w1)
      | (Inr res, w1) \<Rightarrow>
          if rs_status res = 401
          then (case mobile_refreshSession origin ss fetch s w1 of
                  (True, s2, w2) \<Rightarrow>
                    (case fetch (with_bearer (getAccessToken s2) q) w2 of
                       (Inl m, w3) \<Rightarrow> (Inl (JsError m), s2, w3)
                     | (Inr res2, w3) \<Rightarrow> (Inr res2, s2, w3))
                | (False, s2, w2) \<Rightarrow> (Inr res, s2, w2))
          else (Inr res, s, w1))"

section \<open>Lemmas\<close>

lemma with_bearer_same [simp]: "same_call q (with_bearer t q)"
  "same_call q (set_header k v (with_bearer t q))"
  "same_call q (set_header j u (set_header k v (with_bearer t q)))"
  by (simp_all add: same_call_def with_bearer_def)

lemma header_with_bearer:
  "header (with_bearer t q) k =
     (if k = ''Authorization'' \<and> truthy_opt t then map_option bearer t else header q k)"
  by (cases t) (auto simp: with_bearer_def)

lemma mobile_finish_simps [simp]:
  "fst (mobile_finish res s w) = Inr res"
  "snd (snd (mobile_finish res s w)) = w"
  "se_access (fst (snd (mobile_finish res s w))) = se_access s"
  "se_keys (fst (snd (mobile_finish res s w))) = se_keys s"
  by (simp_all add: mobile_finish_def)

definition is_mobile_refresh :: "jstring \<Rightarrow> request \<Rightarrow> bool" where
  "is_mobile_refresh origin r = (rq_url r = origin @ js ''/api/v1/auth/refresh'')"

lemma mobile_refresh_trace:
  assumes "mobile_refreshSession origin ss (traced f) s (w, tr) = (v, s', w', tr')"
  shows "\<exists>rs. tr' = tr @ rs \<and> (rs = [] \<or> (\<exists>r. rs = [r] \<and> is_mobile_refresh origin r))"
  using assms
  by (auto simp: mobile_refreshSession_def is_mobile_refresh_def mobile_refresh_request_def
      split: option.splits sum.splits prod.splits if_splits)

text \<open>Both wrappers run the same exchange after their first response.\<close>

lemma refresh_then:
  assumes "mobile_refreshSession origin ss (traced f) s (w, tr @ [q1]) = (v, s', w', tr')"
    and "same_call q q1" and "same_call q q2" and "\<not> E q"
  shows "\<exists>ts. tr' = tr @ ts \<and> attempt (is_mobile_refresh origin) E q ts"
    and "\<exists>ts. tr' @ [q2] = tr @ ts \<and> attempt (is_mobile_refresh origin) E q ts"
  using mobile_refresh_trace [OF assms(1)] assms(2-4) by (auto simp: attempt_intros)

lemma mobile_apiFetch_attempt:
  "\<exists>ts. snd (snd (snd (mobile_apiFetch origin ss (traced f) rid q s (w, tr)))) = tr @ ts \<and>
     attempt (is_mobile_refresh origin) mobile_isAuthFlow q ts"
proof -
  let ?q1 = "set_header ''X-Request-Id'' rid (with_bearer (getAccessToken s) q)"
  obtain x w1 where f1: "f ?q1 w = (x, w1)" by (meson surj_pair)
  show ?thesis
  proof (cases "\<exists>res. x = Inr res \<and> rs_status res = 401 \<and> \<not> mobile_isAuthFlow q")
    case False
    then have "snd (snd (mobile_apiFetch origin ss (traced f) rid q s (w, tr))) = (w1, tr @ [?q1])"
      using f1 by (cases x) (auto simp: mobile_apiFetch_def)
    then show ?thesis by (simp add: attempt_intros)
  next
    case True
    then obtain res where res: "x = Inr res" "rs_status res = 401" "\<not> mobile_isAuthFlow q" by blast
    obtain v s2 w2 tr2 where rs: "mobile_refreshSession origin ss (traced f) s (w1, tr @ [?q1]) = (v, s2, w2, tr2)"
      by (metis surj_pair)
    let ?q2 = "set_header ''Authorization'' (bearer (nullish (getAccessToken s2) [])) ?q1"
    have "snd (snd (snd (mobile_apiFetch origin ss (traced f) rid q s (w, tr)))) =
        (if v then tr2 @ [?q2] else tr2)"
      using f1 res rs by (auto simp: mobile_apiFetch_def Let_def split: sum.split prod.split)
    then show ?thesis using refresh_then [OF rs, of q ?q2 mobile_isAuthFlow] res(3) by auto
  qed
qed

interpretation mobile: retrying_client "\<lambda>f. mobile_apiFetch origin ss f rid" "is_mobile_refresh origin" mobile_isAuthFlow
  for origin ss rid
  by unfold_locales (rule mobile_apiFetch_attempt)

lemma authedFetch_attempt:
  "\<exists>ts. snd (snd (snd (authedFetch origin ss (traced f) q s (w, tr)))) = tr @ ts \<and>
     attempt (is_mobile_refresh origin) (\<lambda>_. False) q ts"
proof -
  let ?q1 = "with_bearer (getAccessToken s) q"
  obtain x w1 where f1: "f ?q1 w = (x, w1)" by (meson surj_pair)
  show ?thesis
  proof (cases "\<exists>res. x = Inr res \<and> rs_status res = 401")
    case False
    then have "snd (snd (authedFetch origin ss (traced f) q s (w, tr))) = (w1, tr @ [?q1])"
      using f1 by (cases x) (auto simp: authedFetch_def)
    then show ?thesis by (simp add: attempt_intros)
  next
    case True
    then obtain res where res: "x = Inr res" "rs_status res = 401" by blast
    obtain v s2 w2 tr2 where rs: "mobile_refreshSession origin ss (traced f) s (w1, tr @ [?q1]) = (v, s2, w2, tr2)"
      by (metis surj_pair)
    have "snd (snd (snd (authedFetch origin ss (traced f) q s (w, tr)))) =
        (if v then tr2 @ [with_bearer (getAccessToken s2) q] else tr2)"
      using f1 res rs by (auto simp: authedFetch_def Let_def split: sum.split prod.split)
    then show ?thesis
      using refresh_then [OF rs, of q "with_bearer (getAccessToken s2) q" "\<lambda>_. False"] by auto
  qed
qed

interpretation direct: retrying_client "\<lambda>f. authedFetch origin ss f" "is_mobile_refresh origin" "\<lambda>_. False"
  for origin ss
  by unfold_locales (rule authedFetch_attempt)

text \<open>What the code relies on of the Keystore: a resolved write is read back, a resolved deletion removes.\<close>

definition keystore_laws :: "'k secure_store \<Rightarrow> bool" where
  "keystore_laws ss =
     ((\<forall>key v k. fst (ss_set ss key v k) \<longrightarrow> ss_get ss key (snd (ss_set ss key v k)) = Some (Some v)) \<and>
      (\<forall>key k. fst (ss_delete ss key k) \<longrightarrow> ss_get ss key (snd (ss_delete ss key k)) = Some None))"

text \<open>A store that keeps its items in a map and never rejects.\<close>

definition map_store :: "(jstring \<rightharpoonup> jstring) secure_store" where
  "map_store = \<lparr>ss_get = (\<lambda>key k. Some (k key)), ss_set = (\<lambda>key v k. (True, k(key \<mapsto> v))),
     ss_delete = (\<lambda>key k. (True, k(key := None)))\<rparr>"

lemma map_store_laws: "keystore_laws map_store"
  by (simp add: keystore_laws_def map_store_def)

lemma saveSession_simps [simp]:
  "se_access (saveSession ss a r s) = Some a"
  "se_keys (saveSession ss a r s) =
     (if truthy_opt r then snd (ss_set ss REFRESH_KEY (nullish r []) (se_keys s)) else se_keys s)"
  by (simp_all add: saveSession_def setRefreshToken_def setAccessToken_def Let_def)

lemma clearSession_simps [simp]:
  "se_access (clearSession ss s) = None"
  "se_keys (clearSession ss s) = snd (ss_delete ss REFRESH_KEY (se_keys s))"
  by (simp_all add: clearSession_def setRefreshToken_def setAccessToken_def)

lemma mobile_refresh_success:
  assumes "getRefreshToken ss s = Some rt" and "truthy rt"
    and "f (mobile_refresh_request origin rt) w = (Inr rr, w')" and "rs_ok rr"
    and "body_token ''access_token'' (rs_json rr) = Some at" and "truthy at"
  shows "mobile_refreshSession origin ss f s w = (True, saveSession ss at (body_token ''refresh_token'' (rs_json rr)) s, w')"
  using assms by (simp add: mobile_refreshSession_def)

lemma mobile_refresh_keys:
  assumes "mobile_refreshSession origin ss f s w = (v, s', w')"
  shows "se_keys s' = se_keys s \<or> (\<exists>res u t. f u w = (Inr res, w') \<and> rs_ok res \<and>
    body_token ''refresh_token'' (rs_json res) = Some t \<and> se_keys s' = snd (ss_set ss REFRESH_KEY t (se_keys s)))"
proof (cases "s' = s")
  case False
  with assms obtain res where res: "f (mobile_refresh_request origin (nullish (getRefreshToken ss s) [])) w = (Inr res, w')"
      "rs_ok res" "s' = saveSession ss (nullish (body_token ''access_token'' (rs_json res)) [])
                       (body_token ''refresh_token'' (rs_json res)) s"
    by (auto simp: mobile_refreshSession_def split: if_splits prod.splits sum.splits)
  then show ?thesis
    by (cases "body_token ''refresh_token'' (rs_json res)") auto
qed simp

section \<open>Properties\<close>

text \<open>
  Traffic of the mobile clients: at most three requests per call; when no caller asks for
  the refresh endpoint itself, at most one refresh per call, for the typed client and for the
  direct \<open>authedFetch\<close>; calls of the typed client to the auth endpoints are sent once each.
\<close>

theorem mobile_traffic_bounded:
  "length (snd (snd (snd (run_calls (\<lambda>f. mobile_apiFetch origin ss f rid) (traced f) qs s (w, []))))) \<le> 3 * length qs \<and>
   length (snd (snd (snd (run_calls (\<lambda>f. authedFetch origin ss f) (traced f) qs s (w, []))))) \<le> 3 * length qs \<and>
   ((\<forall>q\<in>set qs. \<not> is_mobile_refresh origin q) \<longrightarrow>
     length (filter (is_mobile_refresh origin)
       (snd (snd (snd (run_calls (\<lambda>f. mobile_apiFetch origin ss f rid) (traced f) qs s (w, [])))))) \<le> length qs \<and>
     length (filter (is_mobile_refresh origin)
       (snd (snd (snd (run_calls (\<lambda>f. authedFetch origin ss f) (traced f) qs s (w, [])))))) \<le> length qs) \<and>
   ((\<forall>q\<in>set qs. mobile_isAuthFlow q) \<longrightarrow>
     length (snd (snd (snd (run_calls (\<lambda>f. mobile_apiFetch origin ss f rid) (traced f) qs s (w, []))))) \<le> length qs)"
proof -
  have "\<forall>q\<in>set qs. \<forall>r. same_call q r \<longrightarrow> \<not> is_mobile_refresh origin r"
    if "\<forall>q\<in>set qs. \<not> is_mobile_refresh origin q"
    using that by (simp add: same_call_def is_mobile_refresh_def)
  then show ?thesis
    by (intro conjI impI mobile.run_bounded mobile.run_refreshes mobile.run_exempt
        direct.run_bounded direct.run_refreshes) simp_all
qed

text \<open>A server that accepts one access token and hands it out on refresh.\<close>

definition bearer_server :: "nat fetch" where
  "bearer_server r n =
     (if str_includes (rq_url r) (js ''/auth/refresh'')
      then (Inr \<lparr>rs_status = 200,
              rs_json = Some (JObj [(js ''data'', JObj [(js ''access_token'', JStr (js ''a2'')),
                                                         (js ''refresh_token'', JStr (js ''r2''))])]),
              rs_request_id = None\<rparr>, Suc n)
      else (Inr \<lparr>rs_status = (if header r ''Authorization'' = Some (js ''Bearer a2'') then 200 else 401),
              rs_json = None, rs_request_id = None\<rparr>, Suc n))"

definition stale_session :: "(jstring \<rightharpoonup> jstring) session" where
  "stale_session = \<lparr>se_access = Some (js ''a1''), se_keys = [REFRESH_KEY \<mapsto> js ''r1''], se_log = []\<rparr>"

definition mobile_get :: request where
  "mobile_get = \<lparr>rq_method = js ''GET'', rq_url = js ''http://h/api/v1/posts'', rq_headers = [], rq_body = None\<rparr>"

theorem mobile_traffic_bounded_witness:
  "length (filter (is_mobile_refresh (js ''http://h''))
     (snd (snd (snd (run_calls (\<lambda>f. mobile_apiFetch (js ''http://h'') map_store f (js ''r'')) (traced bearer_server)
        [mobile_get, mobile_get] stale_session (0, [])))))) \<le> 2"
proof -
  have "\<forall>q\<in>set [mobile_get, mobile_get]. \<not> is_mobile_refresh (js ''http://h'') q"
    by (simp add: is_mobile_refresh_def mobile_get_def js_append [symmetric])
  with mobile_traffic_bounded [THEN conjunct2, THEN conjunct2, THEN conjunct1,
      of "[mobile_get, mobile_get]" "js ''http://h''" map_store "js ''r''" bearer_server stale_session 0]
  show ?thesis by (simp only: list.size) simp
qed

text \<open>
  C6. Token rotation: outside the auth endpoints a 401 with a stored refresh token leads to
  one exchange of that token; when it yields a new pair, the access token is replaced in
  memory, the refresh token in the Keystore (when its write resolves), the request is sent
  again with the new bearer token and the same correlation id, and the caller gets that answer.
\<close>

theorem mobile_refresh_rotates:
  assumes "keystore_laws ss" and "\<not> mobile_isAuthFlow q"
    and "q1 = set_header ''X-Request-Id'' rid (with_bearer (getAccessToken s) q)"
    and "f q1 w = (Inr res, w1)" and "rs_status res = 401"
    and "getRefreshToken ss s = Some rt" and "truthy rt"
    and "f (mobile_refresh_request origin rt) w1 = (Inr rr, w2)" and "rs_ok rr"
    and "body_token ''access_token'' (rs_json rr) = Some at" and "truthy at"
    and "body_token ''refresh_token'' (rs_json rr) = Some rt'" and "truthy rt'"
    and "fst (ss_set ss REFRESH_KEY rt' (se_keys s))"
    and "f (set_header ''Authorization'' (js ''Bearer '' @ at) q1) w2 = (Inr res2, w3)"
    and "s' = fst (snd (mobile_apiFetch origin ss f rid q s w))"
  shows "fst (mobile_apiFetch origin ss f rid q s w) = Inr res2 \<and>
    getAccessToken s' = Some at \<and> getRefreshToken ss s' = Some rt' \<and>
    snd (snd (mobile_apiFetch origin ss f rid q s w)) = w3"
proof -
  let ?s2 = "saveSession ss at (Some rt') s"
  have ref: "mobile_refreshSession origin ss f s w1 = (True, ?s2, w2)"
    using mobile_refresh_success [of ss s rt f, OF assms(6-11)] assms(12) by simp
  have at: "bearer (nullish (getAccessToken ?s2) []) = js ''Bearer '' @ at"
    by (simp add: getAccessToken_def bearer_def)
  have "mobile_apiFetch origin ss f rid q s w = mobile_finish res2 ?s2 w3"
    using assms(2-5,15) ref at by (simp add: mobile_apiFetch_def Let_def)
  moreover have "ss_get ss REFRESH_KEY (snd (ss_set ss REFRESH_KEY rt' (se_keys s))) = Some (Some rt')"
    using assms(1,14) by (simp add: keystore_laws_def)
  ultimately show ?thesis
    using assms(13,16) by (simp add: getAccessToken_def getRefreshToken_def)
qed

theorem mobile_refresh_rotates_witness:
  "fst (mobile_apiFetch (js ''http://h'') map_store bearer_server (js ''r'') mobile_get stale_session 0) =
     Inr \<lparr>rs_status = 200, rs_json = None, rs_request_id = None\<rparr> \<and>
   getRefreshToken map_store
     (fst (snd (mobile_apiFetch (js ''http://h'') map_store bearer_server (js ''r'') mobile_get stale_session 0)))
     = Some (js ''r2'')"
proof -
  let ?q1 = "set_header ''X-Request-Id'' (js ''r'') (with_bearer (getAccessToken stale_session) mobile_get)"
  have auth: "\<not> mobile_isAuthFlow mobile_get" "str_includes (js ''http://h/api/v1/auth/refresh'') (js ''/auth/refresh'')"
    "\<not> str_includes (js ''http://h/api/v1/posts'') (js ''/auth/refresh'')"
    by (simp_all add: mobile_isAuthFlow_def mobile_get_def AUTH_PATHS_def js_def starts_with_def)
  have urls: "rq_url ?q1 = js ''http://h/api/v1/posts''"
    "rq_url (mobile_refresh_request (js ''http://h'') t) = js ''http://h/api/v1/auth/refresh''" for t
    by (simp_all add: with_bearer_def mobile_get_def mobile_refresh_request_def js_append [symmetric])
  have hd: "header ?q1 ''Authorization'' = Some (js ''Bearer a1'')"
    by (simp add: header_with_bearer getAccessToken_def stale_session_def bearer_def js_append [symmetric])
  have ans: "bearer_server ?q1 0 = (Inr \<lparr>rs_status = 401, rs_json = None, rs_request_id = None\<rparr>, 1)"
    "bearer_server (set_header ''Authorization'' (js ''Bearer '' @ js ''a2'') ?q1) 2 =
       (Inr \<lparr>rs_status = 200, rs_json = None, rs_request_id = None\<rparr>, 3)"
    using hd by (simp_all add: bearer_server_def urls(1) [simplified] auth js_append [symmetric])
  have ref: "bearer_server (mobile_refresh_request (js ''http://h'') (js ''r1'')) 1 =
     (Inr \<lparr>rs_status = 200, rs_json = Some (JObj [(js ''data'', JObj [(js ''access_token'', JStr (js ''a2'')),
        (js ''refresh_token'', JStr (js ''r2''))])]), rs_request_id = None\<rparr>, 2)"
    by (simp add: bearer_server_def urls auth)
  have rt: "getRefreshToken map_store stale_session = Some (js ''r1'')"
    by (simp add: getRefreshToken_def map_store_def stale_session_def)
  show ?thesis
    using mobile_refresh_rotates [where f = bearer_server and w = 0 and ?w1.0 = 1 and ?w2.0 = 2
        and ?w3.0 = 3 and at = "js ''a2''" and rt' = "js ''r2''",
        OF map_store_laws auth(1) refl ans(1) _ rt _ ref _ _ _ _ _ _ ans(2) refl]
    by (simp add: rs_ok_def body_token_def map_store_def)
qed

lemma mobile_apiFetch_keys:
  "se_keys (fst (snd (mobile_apiFetch origin ss f rid q s w))) = se_keys s \<or>
   (\<exists>v s2 w1 w2. mobile_refreshSession origin ss f s w1 = (v, s2, w2) \<and>
      se_keys (fst (snd (mobile_apiFetch origin ss f rid q s w))) = se_keys s2)"
  by (auto simp: mobile_apiFetch_def Let_def split: sum.split prod.split bool.split)


text \<open>
  Signing out is final: after \<open>clearSession\<close> on a Keystore whose deletion resolves, a
  call sends the caller's request without a bearer token of its own, exactly once, whatever
  the server answers, and the session is still empty afterwards.
\<close>

theorem clearSession_signs_out:
  assumes "keystore_laws ss" and "fst (ss_delete ss REFRESH_KEY (se_keys s))"
  shows "\<exists>q1. snd (snd (snd (mobile_apiFetch origin ss (traced f) rid q (clearSession ss s) (w, [])))) = [q1] \<and>
    same_call q q1 \<and> header q1 ''Authorization'' = header q ''Authorization'' \<and>
    getAccessToken (fst (snd (mobile_apiFetch origin ss (traced f) rid q (clearSession ss s) (w, [])))) = None"
proof -
  let ?s = "clearSession ss s" and ?q1 = "set_header ''X-Request-Id'' rid q"
  have "getRefreshToken ss ?s = None"
    using assms by (simp add: getRefreshToken_def keystore_laws_def)
  then have ref: "mobile_refreshSession origin ss (traced f) ?s (v, tr) = (False, ?s, (v, tr))" for v tr
    by (simp add: mobile_refreshSession_def)
  have q1: "set_header ''X-Request-Id'' rid (with_bearer (getAccessToken ?s) q) = ?q1"
    by (simp add: getAccessToken_def with_bearer_def)
  obtain x w1 where "f ?q1 w = (x, w1)" by (meson surj_pair)
  then have "snd (snd (snd (mobile_apiFetch origin ss (traced f) rid q ?s (w, [])))) = [?q1] \<and>
      getAccessToken (fst (snd (mobile_apiFetch origin ss (traced f) rid q ?s (w, [])))) = None"
    unfolding mobile_apiFetch_def Let_def q1 by (cases x) (simp_all add: ref getAccessToken_def)
  then show ?thesis by (intro exI [of _ ?q1]) (simp add: same_call_def)
qed

theorem clearSession_signs_out_witness:
  "\<exists>q1. snd (snd (snd (mobile_apiFetch (js ''http://h'') map_store (traced bearer_server) (js ''r'') mobile_get
      (clearSession map_store stale_session) (0, [])))) = [q1] \<and> header q1 ''Authorization'' = None"
proof -
  have "fst (ss_delete map_store REFRESH_KEY (se_keys stale_session))" by (simp add: map_store_def)
  from clearSession_signs_out [OF map_store_laws this, of "js ''http://h''" bearer_server "js ''r''" mobile_get 0]
  show ?thesis by (auto simp: header_def mobile_get_def)
qed

end
