(* ===== verification/Schema.thy ===== *)
theory Schema
  imports Prelude
begin

text \<open>
  The data of the API contract as the clients type it, from the generated
  \<^verbatim>\<open>web/src/api/schema.d.ts\<close>: one record per schema object the sources use, with a
  field per property (\<open>option\<close> where the contract makes it optional or nullable), one
  datatype per string enumeration with its wire name, and the JSON encodings of the
  objects the clients send. Dates stay the strings the server sent.
\<close>

section \<open>Enumerations\<close>

datatype role = Owner | Admin | Editor | Viewer | Custom

fun role_name :: "role \<Rightarrow> jstring" where
  "role_name Owner = js ''owner''"
| "role_name Admin = js ''admin''"
| "role_name Editor = js ''editor''"
| "role_name Viewer = js ''viewer''"
| "role_name Custom = js ''custom''"

datatype capability = Cap_read | Cap_create | Cap_update | Cap_delete | Cap_upload | Cap_publish | Manage_channels | Manage_members | Manage_workspace

fun capability_name :: "capability \<Rightarrow> jstring" where
  "capability_name Cap_read = js ''read''"
| "capability_name Cap_create = js ''create''"
| "capability_name Cap_update = js ''update''"
| "capability_name Cap_delete = js ''delete''"
| "capability_name Cap_upload = js ''upload''"
| "capability_name Cap_publish = js ''publish''"
| "capability_name Manage_channels = js ''manage_channels''"
| "capability_name Manage_members = js ''manage_members''"
| "capability_name Manage_workspace = js ''manage_workspace''"

datatype channel_status = Active | Expired | Revoked

fun channel_status_name :: "channel_status \<Rightarrow> jstring" where
  "channel_status_name Active = js ''active''"
| "channel_status_name Expired = js ''expired''"
| "channel_status_name Revoked = js ''revoked''"

datatype media_kind = Image | Gif | Video

fun media_kind_name :: "media_kind \<Rightarrow> jstring" where
  "media_kind_name Image = js ''image''"
| "media_kind_name Gif = js ''gif''"
| "media_kind_name Video = js ''video''"

datatype job_status = Scheduled | Publishing | Published | Failed | Canceled

fun job_status_name :: "job_status \<Rightarrow> jstring" where
  "job_status_name Scheduled = js ''scheduled''"
| "job_status_name Publishing = js ''publishing''"
| "job_status_name Published = js ''published''"
| "job_status_name Failed = js ''failed''"
| "job_status_name Canceled = js ''canceled''"

datatype ledger_kind = Topup | Publish_charge | Refund | Adjustment

fun ledger_kind_name :: "ledger_kind \<Rightarrow> jstring" where
  "ledger_kind_name Topup = js ''topup''"
| "ledger_kind_name Publish_charge = js ''publish_charge''"
| "ledger_kind_name Refund = js ''refund''"
| "ledger_kind_name Adjustment = js ''adjustment''"

section \<open>Objects\<close>

record user =
  us_id :: jstring
  us_email :: jstring
  us_email_verified :: bool
  us_status :: jstring
  us_created_at :: jstring

record token =
  tk_access_token :: jstring
  tk_token_type :: jstring
  tk_expires_in :: int
  tk_csrf_token :: jstring
  tk_refresh_token :: "jstring option"
  tk_user :: "user option"

record workspace =
  wk_id :: jstring
  wk_name :: jstring
  wk_owner_user_id :: jstring
  wk_plan :: jstring
  wk_created_at :: jstring

record member =
  mb_workspace_id :: jstring
  mb_user_id :: jstring
  mb_role :: role
  mb_permissions :: "capability list"

record channel =
  ch_id :: jstring
  ch_platform :: jstring
  ch_platform_account_id :: jstring
  ch_handle :: jstring
  ch_display_name :: jstring
  ch_status :: channel_status
  ch_connected_by :: "jstring option"
  ch_created_at :: jstring

record media_meta =
  mm_media_id :: jstring
  mm_kind :: media_kind
  mm_mime :: jstring
  mm_bytes :: int

record variant_input =
  vi_channel_id :: jstring
  vi_body :: "jstring option"
  vi_media :: "media_meta list option"
  vi_platform_options :: "json option"

record variant =
  va_id :: jstring
  va_channel_id :: jstring
  va_body :: jstring
  va_media :: "media_meta list option"
  va_platform_options :: "json option"

record post =
  po_id :: jstring
  po_workspace_id :: jstring
  po_author_user_id :: "jstring option"
  po_status :: jstring
  po_created_at :: jstring
  po_variants :: "variant list option"

record variant_validation =
  vv_channel_id :: jstring
  vv_valid :: bool
  vv_code :: "jstring option"
  vv_message :: "jstring option"

record job =
  jb_id :: jstring
  jb_post_id :: jstring
  jb_channel_id :: jstring
  jb_run_at :: jstring
  jb_status :: job_status
  jb_attempts :: nat
  jb_last_error :: "jstring option"
  jb_created_at :: jstring

record slot =
  sl_id :: jstring
  sl_channel_id :: jstring
  sl_day_of_week :: nat
  sl_time_of_day :: jstring
  sl_timezone :: jstring
  sl_created_at :: jstring

record slot_request =
  sr_channel_id :: jstring
  sr_day_of_week :: nat
  sr_time_of_day :: jstring
  sr_timezone :: jstring

record asset =
  as_id :: jstring
  as_workspace_id :: jstring
  as_kind :: media_kind
  as_mime :: jstring
  as_width :: int
  as_height :: int
  as_duration_ms :: int
  as_bytes :: int
  as_status :: jstring
  as_created_at :: jstring

record post_metrics =
  pm_post_id :: jstring
  pm_channel_id :: jstring
  pm_platform_post_id :: jstring
  pm_metrics :: "int obj"
  pm_captured_at :: jstring

record channel_metrics =
  cm_channel_id :: jstring
  cm_platform_post_id :: jstring
  cm_metrics :: "int obj"
  cm_captured_at :: jstring

record series_point =
  sp_value :: int
  sp_captured_at :: jstring

record integration =
  ig_provider :: jstring
  ig_enabled :: bool
  ig_auto_apply :: bool
  ig_configured :: bool
  ig_updated_at :: jstring

record link_preview =
  lp_url :: jstring
  lp_site_name :: jstring
  lp_title :: jstring
  lp_description :: jstring
  lp_image :: jstring

record wallet =
  wl_workspace_id :: jstring
  wl_balance :: int
  wl_publish_costs :: "int obj"
  wl_updated_at :: jstring

record ledger_entry =
  le_id :: jstring
  le_workspace_id :: jstring
  le_kind :: ledger_kind
  le_credits :: int
  le_reference :: jstring
  le_note :: jstring
  le_created_at :: jstring

section \<open>Encodings of what the clients send\<close>

definition media_meta_json :: "media_meta \<Rightarrow> json" where
  "media_meta_json m =
     jobj [(js ''media_id'', Some (JStr (mm_media_id m))),
           (js ''kind'', Some (JStr (media_kind_name (mm_kind m)))),
           (js ''mime'', Some (JStr (mm_mime m))),
           (js ''bytes'', Some (JInt (mm_bytes m)))]"

definition variant_input_json :: "variant_input \<Rightarrow> json" where
  "variant_input_json v =
     jobj [(js ''channel_id'', Some (JStr (vi_channel_id v))),
           (js ''body'', map_option JStr (vi_body v)),
           (js ''media'', map_option (\<lambda>ms. JArr (map media_meta_json ms)) (vi_media v)),
           (js ''platform_options'', vi_platform_options v)]"

definition slot_request_json :: "slot_request \<Rightarrow> json" where
  "slot_request_json s =
     jobj [(js ''channel_id'', Some (JStr (sr_channel_id s))),
           (js ''day_of_week'', Some (JInt (int (sr_day_of_week s)))),
           (js ''time_of_day'', Some (JStr (sr_time_of_day s))),
           (js ''timezone'', Some (JStr (sr_timezone s)))]"

section \<open>Lemmas\<close>

text \<open>Wire names are unambiguous.\<close>

lemma role_name_inject [simp]: "role_name a = role_name b \<longleftrightarrow> a = b"
  by (cases a; cases b) simp_all

lemma capability_name_inject [simp]: "capability_name a = capability_name b \<longleftrightarrow> a = b"
  by (cases a; cases b) simp_all

lemma channel_status_name_inject [simp]: "channel_status_name a = channel_status_name b \<longleftrightarrow> a = b"
  by (cases a; cases b) simp_all

lemma media_kind_name_inject [simp]: "media_kind_name a = media_kind_name b \<longleftrightarrow> a = b"
  by (cases a; cases b) simp_all

lemma job_status_name_inject [simp]: "job_status_name a = job_status_name b \<longleftrightarrow> a = b"
  by (cases a; cases b) simp_all

lemma ledger_kind_name_inject [simp]: "ledger_kind_name a = ledger_kind_name b \<longleftrightarrow> a = b"
  by (cases a; cases b) simp_all

end
