(* ===== verification/DataCore.thy ===== *)
theory DataCore
  imports Schema ApiError Http
begin

text \<open>
  The shape shared by the data hooks of both clients. A query hook is what it hands to
  \<open>useQuery\<close>: its cache key, whether it is enabled, the call its \<open>queryFn\<close> makes and
  how it turns the outcome into a value or a thrown error. A mutation hook is what it
  hands to \<open>useMutation\<close>: the call for an input, the decoding, and the cache operations
  of \<open>onSuccess\<close>. The typed HTTP client (\<open>openapi-fetch\<close>) and the query cache
  (\<open>TanStack Query\<close>) are libraries: calls and cache operations stay data here.
\<close>

section \<open>Calls and outcomes\<close>

record api_call =
  ac_method :: jstring
  ac_template :: jstring
  ac_path :: "jstring obj"
  ac_query :: "jstring option obj"
  ac_body :: "json option"

text \<open>A call of the typed client, or a \<open>fetch\<close> the hook makes itself.\<close>

datatype remote = Typed api_call | Direct request

text \<open>
  \<open>{ data, error, response }\<close>: \<open>ar_data\<close> is \<open>None\<close> when \<open>data\<close> is undefined and
  \<open>Some x\<close> otherwise, \<open>x\<close> being the optional \<open>data.data\<close>.
\<close>

record 't api_result =
  ar_data :: "'t option option"
  ar_error :: "json option"
  ar_status :: nat

definition status_ok :: "nat \<Rightarrow> bool" where
  "status_ok s = (200 \<le> s \<and> s \<le> 299)"

definition get_call :: "string \<Rightarrow> jstring obj \<Rightarrow> jstring option obj \<Rightarrow> remote" where
  "get_call t p q = Typed \<lparr>ac_method = js ''GET'', ac_template = js t, ac_path = p, ac_query = q, ac_body = None\<rparr>"

definition send_call :: "string \<Rightarrow> string \<Rightarrow> jstring obj \<Rightarrow> json option \<Rightarrow> remote" where
  "send_call m t p b = Typed \<lparr>ac_method = js m, ac_template = js t, ac_path = p, ac_query = [], ac_body = b\<rparr>"

section \<open>The guards every hook uses\<close>

type_synonym normalizer = "nat \<Rightarrow> json option \<Rightarrow> normalized_error"

definition fail_with :: "normalizer \<Rightarrow> 't api_result \<Rightarrow> thrown + 'o" where
  "fail_with norm r = Inl (Normalized (norm (ar_status r) (ar_error r)))"

text \<open>\<open>if (!response.ok) throw normalizeError(response.status, error)\<close>.\<close>

definition when_ok :: "normalizer \<Rightarrow> 't api_result \<Rightarrow> thrown + unit" where
  "when_ok norm r = (if \<not> status_ok (ar_status r) then fail_with norm r else Inr ())"

text \<open>\<open>if (!response.ok || !data) throw \<dots>\<close>, then the continuation on \<open>data.data\<close>.\<close>

definition when_data :: "normalizer \<Rightarrow> ('t option \<Rightarrow> 'o) \<Rightarrow> 't api_result \<Rightarrow> thrown + 'o" where
  "when_data norm k r =
     (case ar_data r of
        None \<Rightarrow> fail_with norm r
      | Some x \<Rightarrow> if \<not> status_ok (ar_status r) then fail_with norm r else Inr (k x))"

text \<open>\<open>if (!response.ok || !data?.data) throw \<dots>\<close>, then the continuation on \<open>data.data\<close>.\<close>

definition when_inner :: "normalizer \<Rightarrow> ('t \<Rightarrow> 'o) \<Rightarrow> 't api_result \<Rightarrow> thrown + 'o" where
  "when_inner norm k r =
     (case ar_data r of
        Some (Some x) \<Rightarrow> if \<not> status_ok (ar_status r) then fail_with norm r else Inr (k x)
      | _ \<Rightarrow> fail_with norm r)"

text \<open>\<open>if (!response.ok || !data?.data?.field) throw \<dots>; return data.data.field\<close> for a string field.\<close>

definition when_field :: "normalizer \<Rightarrow> jstring option api_result \<Rightarrow> thrown + jstring" where
  "when_field norm r =
     (case ar_data r of
        Some (Some (Some s)) \<Rightarrow> if \<not> status_ok (ar_status r) \<or> s = [] then fail_with norm r else Inr s
      | _ \<Rightarrow> fail_with norm r)"

text \<open>The outcome of a direct \<open>fetch\<close> and the shapes its hooks decode it with.\<close>

definition direct_void :: "normalizer \<Rightarrow> response \<Rightarrow> thrown + unit" where
  "direct_void norm res = (if \<not> rs_ok res then Inl (Normalized (norm (rs_status res) (rs_json res))) else Inr ())"

text \<open>\<open>body?.data ?? body\<close>.\<close>

definition data_or_body :: "json option \<Rightarrow> json option" where
  "data_or_body body =
     (case body of
        None \<Rightarrow> None
      | Some b \<Rightarrow> (case json_get b (js ''data'') of Some d \<Rightarrow> if d = JNull then body else Some d | None \<Rightarrow> body))"

definition direct_json :: "normalizer \<Rightarrow> response \<Rightarrow> thrown + json option" where
  "direct_json norm res =
     (if \<not> rs_ok res then Inl (Normalized (norm (rs_status res) (rs_json res))) else Inr (data_or_body (rs_json res)))"

section \<open>Keys, cache operations and hooks\<close>

datatype seg = KS jstring | KO "jstring option obj"

type_synonym key = "seg list"

datatype 'd cache_op = Invalidate key | SetData key 'd | RemoveAll

record ('r, 'o) query_hook =
  q_key :: key
  q_enabled :: bool
  q_call :: remote
  q_decode :: "'r \<Rightarrow> thrown + 'o"
  q_retry :: "bool option"
  q_staleTime :: "nat option"

record ('i, 'r, 'o, 'd) mutation_hook =
  m_call :: "'i \<Rightarrow> remote"
  m_decode :: "'r \<Rightarrow> thrown + 'o"
  m_onSuccess :: "'i \<Rightarrow> 'o \<Rightarrow> 'd cache_op list"

definition ws_key :: "jstring \<Rightarrow> key \<Rightarrow> key" where
  "ws_key ws rest = KS (js ''workspaces'') # KS ws # rest"

text \<open>The path parameters of a workspace-scoped route.\<close>

definition in_ws :: "jstring \<Rightarrow> jstring obj \<Rightarrow> jstring obj" where
  "in_ws ws ps = (js ''workspaceID'', ws) # ps"

section \<open>Lemmas\<close>

text \<open>
  The contract of a decoder: it returns a value only for a successful status, and what
  it throws is the normalized error of that very response.
\<close>

definition faithful :: "normalizer \<Rightarrow> ('t api_result \<Rightarrow> thrown + 'o) \<Rightarrow> bool" where
  "faithful norm dec = (\<forall>r. case dec r of
       Inr x \<Rightarrow> status_ok (ar_status r)
     | Inl e \<Rightarrow> e = Normalized (norm (ar_status r) (ar_error r)))"

lemma faithful_guards [simp, intro]:
  "faithful norm (when_ok norm)"
  "faithful norm (when_data norm k)"
  "faithful norm (when_inner norm f)"
  "faithful norm (when_field norm)"
  by (auto simp: faithful_def when_ok_def when_data_def when_inner_def when_field_def fail_with_def
      split: option.split sum.split)

text \<open>The same contract for the hooks that call \<open>fetch\<close> themselves.\<close>

definition faithful_direct :: "normalizer \<Rightarrow> (response \<Rightarrow> thrown + 'o) \<Rightarrow> bool" where
  "faithful_direct norm dec = (\<forall>r. case dec r of
       Inr x \<Rightarrow> rs_ok r
     | Inl e \<Rightarrow> e = Normalized (norm (rs_status r) (rs_json r)))"

lemma faithful_direct_guards [simp, intro]:
  "faithful_direct norm (direct_void norm)"
  "faithful_direct norm (direct_json norm)"
  by (auto simp: faithful_direct_def direct_void_def direct_json_def)

text \<open>A query is scoped to a workspace when both its key and its route name that workspace.\<close>

fun call_ws :: "remote \<Rightarrow> jstring option" where
  "call_ws (Typed c) = obj_get (ac_path c) (js ''workspaceID'')"
| "call_ws (Direct r) = None"

definition key_of_ws :: "jstring \<Rightarrow> key \<Rightarrow> bool" where
  "key_of_ws ws k = prefix [KS (js ''workspaces''), KS ws] k"

lemma key_of_ws_ws_key [simp]: "key_of_ws ws (ws_key ws' rest) \<longleftrightarrow> ws = ws'"
  by (auto simp: key_of_ws_def ws_key_def)

lemma call_ws_simps [simp]:
  "call_ws (get_call t (in_ws ws ps) q) = Some ws"
  "call_ws (send_call m t (in_ws ws ps) b) = Some ws"
  by (simp_all add: get_call_def send_call_def in_ws_def obj_get_def)

lemma ws_key_inject [simp]: "ws_key a r = ws_key b s \<longleftrightarrow> a = b \<and> r = s"
  by (simp add: ws_key_def)

lemma ws_key_prefix [simp]: "prefix (ws_key a r) (ws_key b s) \<longleftrightarrow> a = b \<and> prefix r s"
  by (simp add: ws_key_def)

text \<open>The keys a list of cache operations invalidates.\<close>

definition invalidated :: "'d cache_op list \<Rightarrow> key list" where
  "invalidated ops = List.map_filter (\<lambda>op. case op of Invalidate k \<Rightarrow> Some k | _ \<Rightarrow> None) ops"

lemma invalidated_simps [simp]:
  "invalidated [] = []"
  "invalidated (Invalidate k # ops) = k # invalidated ops"
  "invalidated (SetData k d # ops) = invalidated ops"
  "invalidated (RemoveAll # ops) = invalidated ops"
  by (simp_all add: invalidated_def map_filter_simps)

text \<open>An entry is refetched when an invalidated key is a prefix of its own.\<close>

definition refetches :: "'d cache_op list \<Rightarrow> key \<Rightarrow> bool" where
  "refetches ops k = (\<exists>i\<in>set (invalidated ops). prefix i k)"

lemma refetches_simps [simp]:
  "\<not> refetches [] k"
  "refetches (Invalidate i # ops) k \<longleftrightarrow> prefix i k \<or> refetches ops k"
  "refetches (SetData i d # ops) k \<longleftrightarrow> refetches ops k"
  "refetches (RemoveAll # ops) k \<longleftrightarrow> refetches ops k"
  by (auto simp: refetches_def)

end
