(* ===== verification/WebData.thy ===== *)
theory WebData
  imports DataCore WebClient
begin

text \<open>
  The data hooks of the web client, one definition per hook, in the order of
  \<^verbatim>\<open>web/src/data/*.ts\<close>. A workspace or post id that may still be undefined is an
  optional string; the call of a disabled query is never made, and is written here with
  the empty string, as the key is.
\<close>

abbreviation kseg :: "string \<Rightarrow> seg" where
  "kseg s \<equiv> KS (js s)"

abbreviation path_id :: "string \<Rightarrow> jstring \<Rightarrow> jstring \<times> jstring" where
  "path_id k v \<equiv> (js k, v)"

section \<open>Auth\<close>

record credentials =
  cr_email :: jstring
  cr_password :: jstring

definition credentials_json :: "credentials \<Rightarrow> json" where
  "credentials_json c = jobj [(js ''email'', Some (JStr (cr_email c))), (js ''password'', Some (JStr (cr_password c)))]"

definition authKeys_me :: key where
  "authKeys_me = [kseg ''auth'', kseg ''me'']"

definition useMe :: "(user api_result, user option) query_hook" where
  "useMe = \<lparr>q_key = authKeys_me, q_enabled = True, q_call = get_call ''/api/v1/auth/me'' [] [],
     q_decode = (\<lambda>r. if ar_status r = 401 then Inr None else when_data normalizeError id r),
     q_retry = Some False, q_staleTime = Some 60000\<rparr>"

definition useLogin :: "(credentials, token api_result, user option, user option) mutation_hook" where
  "useLogin = \<lparr>m_call = (\<lambda>body. send_call ''POST'' ''/api/v1/auth/login'' [] (Some (credentials_json body))),
     m_decode = when_data normalizeError (\<lambda>t. Option.bind t tk_user),
     m_onSuccess = (\<lambda>_ user. [SetData authKeys_me user])\<rparr>"

definition useSignup :: "(credentials, user api_result, user option, unit) mutation_hook" where
  "useSignup = \<lparr>m_call = (\<lambda>body. send_call ''POST'' ''/api/v1/auth/signup'' [] (Some (credentials_json body))),
     m_decode = when_data normalizeError id, m_onSuccess = (\<lambda>_ _. [])\<rparr>"

definition useLogout :: "(unit, unit api_result, unit, user option) mutation_hook" where
  "useLogout = \<lparr>m_call = (\<lambda>_. send_call ''POST'' ''/api/v1/auth/logout'' [] (Some (JObj []))),
     m_decode = when_ok normalizeError,
     m_onSuccess = (\<lambda>_ _. [SetData authKeys_me None, RemoveAll])\<rparr>"

definition useVerifyEmail :: "(jstring, unit api_result, unit, unit) mutation_hook" where
  "useVerifyEmail = \<lparr>m_call = (\<lambda>tok. send_call ''POST'' ''/api/v1/auth/verify-email'' []
       (Some (JObj [(js ''token'', JStr tok)]))),
     m_decode = when_ok normalizeError, m_onSuccess = (\<lambda>_ _. [])\<rparr>"

definition useResendVerification :: "(jstring, response, unit, unit) mutation_hook" where
  "useResendVerification = \<lparr>m_call = (\<lambda>email. Direct
       \<lparr>rq_method = js ''POST'', rq_url = js ''/api/v1/auth/verify-email/resend'',
        rq_headers = [(js ''Content-Type'', js ''application/json'')],
        rq_body = Some (JObj [(js ''email'', JStr email)])\<rparr>),
     m_decode = direct_void normalizeError, m_onSuccess = (\<lambda>_ _. [])\<rparr>"

definition useRequestReset :: "(jstring, unit api_result, unit, unit) mutation_hook" where
  "useRequestReset = \<lparr>m_call = (\<lambda>email. send_call ''POST'' ''/api/v1/auth/password-reset/request'' []
       (Some (JObj [(js ''email'', JStr email)]))),
     m_decode = when_ok normalizeError, m_onSuccess = (\<lambda>_ _. [])\<rparr>"

definition useConfirmReset :: "(jstring \<times> jstring, unit api_result, unit, unit) mutation_hook" where
  "useConfirmReset = \<lparr>m_call = (\<lambda>(tok, pw). send_call ''POST'' ''/api/v1/auth/password-reset/confirm'' []
       (Some (JObj [(js ''token'', JStr tok), (js ''new_password'', JStr pw)]))),
     m_decode = when_ok normalizeError, m_onSuccess = (\<lambda>_ _. [])\<rparr>"

section \<open>Workspaces and members\<close>

definition wsKeys_list :: key where
  "wsKeys_list = [kseg ''workspaces'']"

definition wsKeys_members :: "jstring \<Rightarrow> key" where
  "wsKeys_members i = ws_key i [kseg ''members'']"

definition useWorkspaces :: "(workspace list api_result, workspace list) query_hook" where
  "useWorkspaces = \<lparr>q_key = wsKeys_list, q_enabled = True, q_call = get_call ''/api/v1/workspaces/'' [] [],
     q_decode = when_data normalizeError (\<lambda>d. nullish d []), q_retry = None, q_staleTime = None\<rparr>"

definition useMembers :: "jstring option \<Rightarrow> (member list api_result, member list) query_hook" where
  "useMembers ws = \<lparr>q_key = wsKeys_members (nullish ws []), q_enabled = truthy_opt ws,
     q_call = get_call ''/api/v1/workspaces/{workspaceID}/members'' (in_ws (nullish ws []) []) [],
     q_decode = when_data normalizeError (\<lambda>d. nullish d []), q_retry = None, q_staleTime = None\<rparr>"

record add_member_input =
  am_email :: jstring
  am_role :: "role option"
  am_capabilities :: "capability list option"

definition caps_json :: "capability list \<Rightarrow> json" where
  "caps_json cs = JArr (map (\<lambda>c. JStr (capability_name c)) cs)"

definition useAddMember :: "jstring \<Rightarrow> (add_member_input, member api_result, member option, unit) mutation_hook" where
  "useAddMember ws = \<lparr>m_call = (\<lambda>b. send_call ''POST'' ''/api/v1/workspaces/{workspaceID}/members'' (in_ws ws [])
       (Some (jobj [(js ''email'', Some (JStr (am_email b))),
                    (js ''role'', map_option (\<lambda>r. JStr (role_name r)) (am_role b)),
                    (js ''capabilities'', map_option caps_json (am_capabilities b))]))),
     m_decode = when_data normalizeError id,
     m_onSuccess = (\<lambda>_ _. [Invalidate (wsKeys_members ws)])\<rparr>"

record update_caps_input =
  uc_userId :: jstring
  uc_role :: "role option"
  uc_capabilities :: "capability list option"

definition useUpdateCapabilities :: "jstring \<Rightarrow> (update_caps_input, member api_result, member option, unit) mutation_hook" where
  "useUpdateCapabilities ws = \<lparr>m_call = (\<lambda>b. send_call ''PATCH''
       ''/api/v1/workspaces/{workspaceID}/members/{userID}/capabilities''
       (in_ws ws [path_id ''userID'' (uc_userId b)])
       (Some (jobj [(js ''role'', map_option (\<lambda>r. JStr (role_name r)) (uc_role b)),
                    (js ''capabilities'', map_option caps_json (uc_capabilities b))]))),
     m_decode = when_data normalizeError id,
     m_onSuccess = (\<lambda>_ _. [Invalidate (wsKeys_members ws)])\<rparr>"

section \<open>Channels\<close>

definition channelKeys_list :: "jstring \<Rightarrow> key" where
  "channelKeys_list ws = ws_key ws [kseg ''channels'']"

definition useChannels :: "jstring option \<Rightarrow> (channel list api_result, channel list) query_hook" where
  "useChannels ws = \<lparr>q_key = channelKeys_list (nullish ws []), q_enabled = truthy_opt ws,
     q_call = get_call ''/api/v1/workspaces/{workspaceID}/channels/'' (in_ws (nullish ws []) []) [],
     q_decode = when_data normalizeError (\<lambda>d. nullish d []), q_retry = None, q_staleTime = None\<rparr>"

definition useConnectChannel :: "jstring \<Rightarrow> (jstring, jstring option api_result, jstring, unit) mutation_hook" where
  "useConnectChannel ws = \<lparr>m_call = (\<lambda>platform. send_call ''POST''
       ''/api/v1/workspaces/{workspaceID}/channels/connect'' (in_ws ws [])
       (Some (JObj [(js ''platform'', JStr platform)]))),
     m_decode = when_field normalizeError, m_onSuccess = (\<lambda>_ _. [])\<rparr>"

definition useCompleteOAuth :: "(jstring \<times> jstring, channel api_result, channel, unit) mutation_hook" where
  "useCompleteOAuth = \<lparr>m_call = (\<lambda>(state, code). get_call ''/api/v1/channels/oauth/callback'' []
       [(js ''state'', Some state), (js ''code'', Some code)]),
     m_decode = when_inner normalizeError id,
     m_onSuccess = (\<lambda>_ _. [Invalidate [kseg ''workspaces'']])\<rparr>"

text \<open>\<open>csrf\<close> is what \<open>csrfToken()\<close> returned when the mutation ran.\<close>

definition useConnectManual :: "jstring option \<Rightarrow> jstring
    \<Rightarrow> (jstring \<times> jstring obj, response, unit, unit) mutation_hook" where
  "useConnectManual csrf ws = \<lparr>m_call = (\<lambda>(platform, creds). Direct (with_csrf csrf
       \<lparr>rq_method = js ''POST'',
        rq_url = js ''/api/v1/workspaces/'' @ ws @ js ''/channels/connect-manual'',
        rq_headers = [(js ''Content-Type'', js ''application/json'')],
        rq_body = Some (JObj [(js ''platform'', JStr platform),
                              (js ''credentials'', JObj (map (\<lambda>(k, v). (k, JStr v)) creds))])\<rparr>)),
     m_decode = direct_void normalizeError,
     m_onSuccess = (\<lambda>_ _. [Invalidate (channelKeys_list ws)])\<rparr>"

definition useDisconnectChannel :: "jstring \<Rightarrow> (jstring, unit api_result, unit, unit) mutation_hook" where
  "useDisconnectChannel ws = \<lparr>m_call = (\<lambda>channelId. send_call ''DELETE''
       ''/api/v1/workspaces/{workspaceID}/channels/{channelID}''
       (in_ws ws [path_id ''channelID'' channelId]) None),
     m_decode = when_data normalizeError (\<lambda>_. ()),
     m_onSuccess = (\<lambda>_ _. [Invalidate (channelKeys_list ws)])\<rparr>"

section \<open>Posts\<close>

definition postKeys_list :: "jstring \<Rightarrow> key" where
  "postKeys_list ws = ws_key ws [kseg ''posts'']"

definition postKeys_detail :: "jstring \<Rightarrow> jstring \<Rightarrow> key" where
  "postKeys_detail ws p = ws_key ws [kseg ''posts'', KS p]"

definition usePosts :: "jstring option \<Rightarrow> (post list api_result, post list) query_hook" where
  "usePosts ws = \<lparr>q_key = postKeys_list (nullish ws []), q_enabled = truthy_opt ws,
     q_call = get_call ''/api/v1/workspaces/{workspaceID}/posts/'' (in_ws (nullish ws []) []) [],
     q_decode = when_data normalizeError (\<lambda>d. nullish d []), q_retry = None, q_staleTime = None\<rparr>"

definition usePost :: "jstring option \<Rightarrow> jstring option \<Rightarrow> (post api_result, post) query_hook" where
  "usePost ws p = \<lparr>q_key = postKeys_detail (nullish ws []) (nullish p []),
     q_enabled = (truthy_opt ws \<and> truthy_opt p),
     q_call = get_call ''/api/v1/workspaces/{workspaceID}/posts/{postID}''
       (in_ws (nullish ws []) [path_id ''postID'' (nullish p [])]) [],
     q_decode = when_inner normalizeError id, q_retry = None, q_staleTime = None\<rparr>"

definition variants_json :: "variant_input list \<Rightarrow> json" where
  "variants_json vs = JObj [(js ''variants'', JArr (map variant_input_json vs))]"

definition useCreatePost :: "jstring \<Rightarrow> (variant_input list, post api_result, post, post) mutation_hook" where
  "useCreatePost ws = \<lparr>m_call = (\<lambda>vs. send_call ''POST'' ''/api/v1/workspaces/{workspaceID}/posts/''
       (in_ws ws []) (Some (variants_json vs))),
     m_decode = when_inner normalizeError id,
     m_onSuccess = (\<lambda>_ _. [Invalidate (postKeys_list ws)])\<rparr>"

definition useUpdatePost :: "jstring \<Rightarrow> (jstring \<times> variant_input list, post api_result, post, post) mutation_hook" where
  "useUpdatePost ws = \<lparr>m_call = (\<lambda>(postId, vs). send_call ''PUT'' ''/api/v1/workspaces/{workspaceID}/posts/{postID}''
       (in_ws ws [path_id ''postID'' postId]) (Some (variants_json vs))),
     m_decode = when_inner normalizeError id,
     m_onSuccess = (\<lambda>_ post. [Invalidate (postKeys_list ws), SetData (postKeys_detail ws (po_id post)) post])\<rparr>"

definition useDeletePost :: "jstring \<Rightarrow> (jstring, unit api_result, unit, post) mutation_hook" where
  "useDeletePost ws = \<lparr>m_call = (\<lambda>postId. send_call ''DELETE'' ''/api/v1/workspaces/{workspaceID}/posts/{postID}''
       (in_ws ws [path_id ''postID'' postId]) None),
     m_decode = when_data normalizeError (\<lambda>_. ()),
     m_onSuccess = (\<lambda>_ _. [Invalidate (postKeys_list ws)])\<rparr>"

text \<open>The body of the validation answer is an optional list; that of the preview an optional text.\<close>

definition useValidatePost :: "jstring \<Rightarrow> (jstring, variant_validation list option api_result,
    variant_validation list, unit) mutation_hook" where
  "useValidatePost ws = \<lparr>m_call = (\<lambda>postId. send_call ''POST''
       ''/api/v1/workspaces/{workspaceID}/posts/{postID}/validate''
       (in_ws ws [path_id ''postID'' postId]) None),
     m_decode = when_inner normalizeError (\<lambda>d. nullish d []), m_onSuccess = (\<lambda>_ _. [])\<rparr>"

definition useUtmPreview :: "jstring \<Rightarrow> (jstring \<times> jstring obj option, jstring option api_result, jstring, unit) mutation_hook" where
  "useUtmPreview ws = \<lparr>m_call = (\<lambda>(text, utm). send_call ''POST''
       ''/api/v1/workspaces/{workspaceID}/posts/utm-preview'' (in_ws ws [])
       (Some (jobj [(js ''text'', Some (JStr text)),
                    (js ''utm'', map_option (\<lambda>u. JObj (map (\<lambda>(k, v). (k, JStr v)) u)) utm)]))),
     m_decode = when_inner normalizeError (\<lambda>d. nullish d []), m_onSuccess = (\<lambda>_ _. [])\<rparr>"

text \<open>The first match of \<open>https?://[^\\s)]+\<close>.\<close>

definition url_char :: "jchar \<Rightarrow> bool" where
  "url_char c = (\<not> is_space c \<and> c \<noteq> of_char CHR '')'')"

definition url_at :: "jstring \<Rightarrow> jstring \<Rightarrow> jstring option" where
  "url_at scheme s =
     (let tail = takeWhile url_char (drop (length scheme) s)
      in if starts_with s scheme \<and> tail \<noteq> [] then Some (scheme @ tail) else None)"

fun firstURL :: "jstring \<Rightarrow> jstring option" where
  "firstURL [] = None"
| "firstURL (c # cs) =
     (case url_at (js ''https://'') (c # cs) of
        Some u \<Rightarrow> Some u
      | None \<Rightarrow> (case url_at (js ''http://'') (c # cs) of Some u \<Rightarrow> Some u | None \<Rightarrow> firstURL cs))"

definition useLinkPreview :: "jstring option \<Rightarrow> jstring option \<Rightarrow> (link_preview api_result, link_preview) query_hook" where
  "useLinkPreview ws url = \<lparr>q_key = ws_key (nullish ws []) [kseg ''link-preview'', KS (nullish url [])],
     q_enabled = (truthy_opt ws \<and> truthy_opt url),
     q_call = get_call ''/api/v1/workspaces/{workspaceID}/posts/link-preview''
       (in_ws (nullish ws []) []) [(js ''url'', Some (nullish url []))],
     q_decode = when_inner normalizeError id, q_retry = Some False, q_staleTime = Some 300000\<rparr>"

section \<open>Scheduling\<close>

definition window :: "jstring option \<Rightarrow> jstring option \<Rightarrow> jstring option obj" where
  "window from to = [(js ''from'', from), (js ''to'', to)]"

definition scheduleKeys_calendar :: "jstring \<Rightarrow> jstring option \<Rightarrow> jstring option \<Rightarrow> key" where
  "scheduleKeys_calendar ws from to = ws_key ws [kseg ''calendar'', KO (window from to)]"

definition scheduleKeys_slots :: "jstring \<Rightarrow> jstring \<Rightarrow> key" where
  "scheduleKeys_slots ws ch = ws_key ws [kseg ''slots'', KS ch]"

record schedule_input =
  si_postId :: jstring
  si_runAt :: "jstring option"
  si_toSlots :: "bool option"

definition useSchedulePost :: "jstring \<Rightarrow> (schedule_input, job list option api_result, job list, unit) mutation_hook" where
  "useSchedulePost ws = \<lparr>m_call = (\<lambda>i. send_call ''POST'' ''/api/v1/workspaces/{workspaceID}/schedule'' (in_ws ws [])
       (Some (jobj [(js ''post_id'', Some (JStr (si_postId i))),
                    (js ''run_at'', map_option JStr (si_runAt i)),
                    (js ''to_slots'', map_option JBool (si_toSlots i))]))),
     m_decode = when_inner normalizeError (\<lambda>d. nullish d []),
     m_onSuccess = (\<lambda>_ _. [Invalidate (ws_key ws [kseg ''calendar'']), Invalidate (ws_key ws [kseg ''posts''])])\<rparr>"

definition useCalendar :: "jstring option \<Rightarrow> jstring option \<Rightarrow> jstring option
    \<Rightarrow> (job list option api_result, job list) query_hook" where
  "useCalendar ws from to = \<lparr>q_key = scheduleKeys_calendar (nullish ws []) from to, q_enabled = truthy_opt ws,
     q_call = get_call ''/api/v1/workspaces/{workspaceID}/calendar'' (in_ws (nullish ws []) []) (window from to),
     q_decode = when_inner normalizeError (\<lambda>d. nullish d []), q_retry = None, q_staleTime = None\<rparr>"

definition useCancelJob :: "jstring \<Rightarrow> (jstring, unit api_result, unit, unit) mutation_hook" where
  "useCancelJob ws = \<lparr>m_call = (\<lambda>jobId. send_call ''DELETE''
       ''/api/v1/workspaces/{workspaceID}/scheduled-jobs/{jobID}'' (in_ws ws [path_id ''jobID'' jobId]) None),
     m_decode = when_data normalizeError (\<lambda>_. ()),
     m_onSuccess = (\<lambda>_ _. [Invalidate (ws_key ws [kseg ''calendar''])])\<rparr>"

definition useSlots :: "jstring option \<Rightarrow> jstring option \<Rightarrow> (slot list api_result, slot list) query_hook" where
  "useSlots ws ch = \<lparr>q_key = scheduleKeys_slots (nullish ws []) (nullish ch []),
     q_enabled = (truthy_opt ws \<and> truthy_opt ch),
     q_call = get_call ''/api/v1/workspaces/{workspaceID}/slots/'' (in_ws (nullish ws []) [])
       [(js ''channel_id'', Some (nullish ch []))],
     q_decode = when_data normalizeError (\<lambda>d. nullish d []), q_retry = None, q_staleTime = None\<rparr>"

definition useCreateSlot :: "jstring \<Rightarrow> (slot_request, slot api_result, slot, unit) mutation_hook" where
  "useCreateSlot ws = \<lparr>m_call = (\<lambda>b. send_call ''POST'' ''/api/v1/workspaces/{workspaceID}/slots/'' (in_ws ws [])
       (Some (slot_request_json b))),
     m_decode = when_inner normalizeError id,
     m_onSuccess = (\<lambda>_ slot. [Invalidate (scheduleKeys_slots ws (sl_channel_id slot))])\<rparr>"

text \<open>The input is the slot and its channel; the channel also goes into the query string.\<close>

definition useDeleteSlot :: "jstring \<Rightarrow> (jstring \<times> jstring, unit api_result, unit, unit) mutation_hook" where
  "useDeleteSlot ws = \<lparr>m_call = (\<lambda>(slotId, channelId). Typed
       \<lparr>ac_method = js ''DELETE'', ac_template = js ''/api/v1/workspaces/{workspaceID}/slots/{slotID}'',
        ac_path = in_ws ws [path_id ''slotID'' slotId], ac_query = [(js ''channel_id'', Some channelId)],
        ac_body = None\<rparr>),
     m_decode = when_data normalizeError (\<lambda>_. ()),
     m_onSuccess = (\<lambda>(slotId, channelId) _. [Invalidate (scheduleKeys_slots ws channelId)])\<rparr>"

section \<open>Media\<close>

definition mediaKeys_list :: "jstring \<Rightarrow> key" where
  "mediaKeys_list ws = ws_key ws [kseg ''media'']"

definition useMedia :: "jstring option \<Rightarrow> (asset list api_result, asset list) query_hook" where
  "useMedia ws = \<lparr>q_key = mediaKeys_list (nullish ws []), q_enabled = truthy_opt ws,
     q_call = get_call ''/api/v1/workspaces/{workspaceID}/media/'' (in_ws (nullish ws []) []) [],
     q_decode = when_data normalizeError (\<lambda>d. nullish d []), q_retry = None, q_staleTime = None\<rparr>"

definition mediaDownloadURL :: "jstring \<Rightarrow> jstring \<Rightarrow> jstring \<Rightarrow> jstring" where
  "mediaDownloadURL origin ws m = origin @ js ''/api/v1/workspaces/'' @ ws @ js ''/media/'' @ m @ js ''/download''"

text \<open>
  \<open>uploadMedia\<close>: the request the \<open>XMLHttpRequest\<close> sends (its body is the multipart form
  of the file), and how the promise settles on its final event. The response is the parsed
  body with the asset it holds, or \<open>null\<close>.
\<close>

definition uploadMedia_request :: "jstring \<Rightarrow> jstring option \<Rightarrow> jstring \<Rightarrow> jstring \<Rightarrow> request" where
  "uploadMedia_request origin csrf rid ws = set_header ''X-Request-Id'' rid (with_csrf csrf
     \<lparr>rq_method = js ''POST'', rq_url = origin @ js ''/api/v1/workspaces/'' @ ws @ js ''/media/'',
      rq_headers = [], rq_body = None\<rparr>)"

datatype xhr_event =
    Xhr_load nat "json option" "asset option"   \<comment> \<open>status, body, \<open>body?.data\<close>\<close>
  | Xhr_error
  | Xhr_abort

fun uploadMedia_settle :: "xhr_event \<Rightarrow> thrown + asset" where
  "uploadMedia_settle (Xhr_load st body asset) =
     (case asset of
        Some a \<Rightarrow> if st = 201 then Inr a else Inl (Normalized (normalizeError st body))
      | None \<Rightarrow> Inl (Normalized (normalizeError st body)))"
| "uploadMedia_settle Xhr_error = Inl (Normalized (normalizeError 0 (Some JNull)))"
| "uploadMedia_settle Xhr_abort = Inl (Normalized (normalizeError 0 (Some JNull)))"

definition useUploadMedia :: "jstring \<Rightarrow> jstring option \<Rightarrow> jstring \<Rightarrow> jstring
    \<Rightarrow> (unit, xhr_event, asset, unit) mutation_hook" where
  "useUploadMedia origin csrf rid ws = \<lparr>m_call = (\<lambda>_. Direct (uploadMedia_request origin csrf rid ws)),
     m_decode = uploadMedia_settle, m_onSuccess = (\<lambda>_ _. [Invalidate (mediaKeys_list ws)])\<rparr>"

definition useDeleteMedia :: "jstring \<Rightarrow> (jstring, unit api_result, unit, unit) mutation_hook" where
  "useDeleteMedia ws = \<lparr>m_call = (\<lambda>mediaId. send_call ''DELETE'' ''/api/v1/workspaces/{workspaceID}/media/{mediaID}''
       (in_ws ws [path_id ''mediaID'' mediaId]) None),
     m_decode = when_data normalizeError (\<lambda>_. ()),
     m_onSuccess = (\<lambda>_ _. [Invalidate (mediaKeys_list ws)])\<rparr>"

section \<open>Billing\<close>

definition billingKeys_wallet :: "jstring \<Rightarrow> key" where
  "billingKeys_wallet ws = ws_key ws [kseg ''billing'', kseg ''wallet'']"

definition billingKeys_ledger :: "jstring \<Rightarrow> key" where
  "billingKeys_ledger ws = ws_key ws [kseg ''billing'', kseg ''ledger'']"

datatype topup_provider = Stripe | Paystack | Dev

fun topup_provider_name :: "topup_provider \<Rightarrow> jstring" where
  "topup_provider_name Stripe = js ''stripe''"
| "topup_provider_name Paystack = js ''paystack''"
| "topup_provider_name Dev = js ''dev''"

definition useWallet :: "jstring option \<Rightarrow> (wallet api_result, wallet) query_hook" where
  "useWallet ws = \<lparr>q_key = billingKeys_wallet (nullish ws []), q_enabled = truthy_opt ws,
     q_call = get_call ''/api/v1/workspaces/{workspaceID}/billing/wallet'' (in_ws (nullish ws []) []) [],
     q_decode = when_inner normalizeError id, q_retry = None, q_staleTime = None\<rparr>"

definition useLedger :: "jstring option \<Rightarrow> (ledger_entry list api_result, ledger_entry list) query_hook" where
  "useLedger ws = \<lparr>q_key = billingKeys_ledger (nullish ws []), q_enabled = truthy_opt ws,
     q_call = get_call ''/api/v1/workspaces/{workspaceID}/billing/ledger'' (in_ws (nullish ws []) []) [],
     q_decode = when_data normalizeError (\<lambda>d. nullish d []), q_retry = None, q_staleTime = None\<rparr>"

definition useTopup :: "jstring \<Rightarrow> (topup_provider \<times> int, jstring option api_result, jstring, unit) mutation_hook" where
  "useTopup ws = \<lparr>m_call = (\<lambda>(provider, credits). send_call ''POST''
       ''/api/v1/workspaces/{workspaceID}/billing/topup'' (in_ws ws [])
       (Some (JObj [(js ''provider'', JStr (topup_provider_name provider)), (js ''credits'', JInt credits)]))),
     m_decode = when_field normalizeError,
     m_onSuccess = (\<lambda>_ _. [Invalidate (billingKeys_wallet ws), Invalidate (billingKeys_ledger ws)])\<rparr>"

section \<open>Analytics\<close>

definition analyticsKeys_overview :: "jstring \<Rightarrow> key" where
  "analyticsKeys_overview ws = ws_key ws [kseg ''analytics'']"

definition analyticsKeys_post :: "jstring \<Rightarrow> jstring \<Rightarrow> key" where
  "analyticsKeys_post ws p = ws_key ws [kseg ''analytics'', KS p]"

definition analyticsKeys_series :: "jstring \<Rightarrow> jstring \<Rightarrow> jstring \<Rightarrow> jstring \<Rightarrow> key" where
  "analyticsKeys_series ws p ch metric = ws_key ws [kseg ''analytics'', KS p, KS ch, KS metric]"

definition useAnalyticsOverview :: "jstring option \<Rightarrow> (post_metrics list option api_result, post_metrics list) query_hook" where
  "useAnalyticsOverview ws = \<lparr>q_key = analyticsKeys_overview (nullish ws []), q_enabled = truthy_opt ws,
     q_call = get_call ''/api/v1/workspaces/{workspaceID}/analytics/'' (in_ws (nullish ws []) []) [],
     q_decode = when_inner normalizeError (\<lambda>d. nullish d []), q_retry = None, q_staleTime = None\<rparr>"

definition usePostAnalytics :: "jstring option \<Rightarrow> jstring option
    \<Rightarrow> (channel_metrics list option api_result, channel_metrics list) query_hook" where
  "usePostAnalytics ws p = \<lparr>q_key = analyticsKeys_post (nullish ws []) (nullish p []),
     q_enabled = (truthy_opt ws \<and> truthy_opt p),
     q_call = get_call ''/api/v1/workspaces/{workspaceID}/analytics/posts/{postID}''
       (in_ws (nullish ws []) [path_id ''postID'' (nullish p [])]) [],
     q_decode = when_inner normalizeError (\<lambda>d. nullish d []), q_retry = None, q_staleTime = None\<rparr>"

record series_args =
  sa_workspaceId :: "jstring option"
  sa_postId :: "jstring option"
  sa_channelId :: "jstring option"
  sa_metric :: jstring
  sa_from :: "jstring option"
  sa_to :: "jstring option"

definition useMetricSeries :: "series_args \<Rightarrow> (series_point list option api_result, series_point list) query_hook" where
  "useMetricSeries a = \<lparr>q_key = analyticsKeys_series (nullish (sa_workspaceId a) []) (nullish (sa_postId a) [])
         (nullish (sa_channelId a) []) (sa_metric a) @ [KO (window (sa_from a) (sa_to a))],
     q_enabled = (truthy_opt (sa_workspaceId a) \<and> truthy_opt (sa_postId a) \<and>
                  truthy_opt (sa_channelId a) \<and> truthy (sa_metric a)),
     q_call = get_call ''/api/v1/workspaces/{workspaceID}/analytics/posts/{postID}/series''
       (in_ws (nullish (sa_workspaceId a) []) [path_id ''postID'' (nullish (sa_postId a) [])])
       ((js ''channel_id'', Some (nullish (sa_channelId a) [])) # (js ''metric'', Some (sa_metric a)) #
        window (sa_from a) (sa_to a)),
     q_decode = when_inner normalizeError (\<lambda>d. nullish d []), q_retry = None, q_staleTime = None\<rparr>"

definition analyticsCsvURL :: "jstring \<Rightarrow> jstring \<Rightarrow> jstring" where
  "analyticsCsvURL origin ws = origin @ js ''/api/v1/workspaces/'' @ ws @ js ''/analytics/export.csv''"

section \<open>Integrations\<close>

definition integrationKeys_list :: "jstring \<Rightarrow> key" where
  "integrationKeys_list ws = ws_key ws [kseg ''integrations'']"

definition useIntegrations :: "jstring option \<Rightarrow> (integration list api_result, integration list) query_hook" where
  "useIntegrations ws = \<lparr>q_key = integrationKeys_list (nullish ws []), q_enabled = truthy_opt ws,
     q_call = get_call ''/api/v1/workspaces/{workspaceID}/integrations/'' (in_ws (nullish ws []) []) [],
     q_decode = when_data normalizeError (\<lambda>d. nullish d []), q_retry = None, q_staleTime = None\<rparr>"

text \<open>The only provider of the input type is \<open>"ogshortener"\<close>.\<close>

record configure_input =
  ci_enabled :: bool
  ci_autoApply :: "bool option"
  ci_apiKey :: "jstring option"

definition useConfigureIntegration :: "jstring \<Rightarrow> (configure_input, integration api_result, integration, unit) mutation_hook" where
  "useConfigureIntegration ws = \<lparr>m_call = (\<lambda>i. send_call ''PUT''
       ''/api/v1/workspaces/{workspaceID}/integrations/{provider}''
       (in_ws ws [path_id ''provider'' (js ''ogshortener'')])
       (Some (JObj [(js ''enabled'', JBool (ci_enabled i)),
                    (js ''auto_apply'', JBool (nullish (ci_autoApply i) False)),
                    (js ''api_key'', case ci_apiKey i of None \<Rightarrow> JNull | Some k \<Rightarrow> JStr k)]))),
     m_decode = when_inner normalizeError id,
     m_onSuccess = (\<lambda>_ _. [Invalidate (integrationKeys_list ws)])\<rparr>"

definition useShortenLinks :: "jstring \<Rightarrow> (jstring, jstring option api_result, jstring, unit) mutation_hook" where
  "useShortenLinks ws = \<lparr>m_call = (\<lambda>text. send_call ''POST''
       ''/api/v1/workspaces/{workspaceID}/integrations/ogshortener/shorten'' (in_ws ws [])
       (Some (JObj [(js ''text'', JStr text)]))),
     m_decode = when_inner normalizeError (\<lambda>d. nullish d []), m_onSuccess = (\<lambda>_ _. [])\<rparr>"

section \<open>Governance\<close>

definition governanceKeys_channels :: "jstring \<Rightarrow> jstring \<Rightarrow> key" where
  "governanceKeys_channels ws user = ws_key ws [kseg ''member-channels'', KS user]"

definition governanceKeys_activity :: "jstring \<Rightarrow> key" where
  "governanceKeys_activity ws = ws_key ws [kseg ''activity'']"

definition plain_get :: "jstring \<Rightarrow> request" where
  "plain_get url = \<lparr>rq_method = js ''GET'', rq_url = url, rq_headers = [], rq_body = None\<rparr>"

definition member_channels_url :: "jstring \<Rightarrow> jstring \<Rightarrow> jstring" where
  "member_channels_url ws user = js ''/api/v1/workspaces/'' @ ws @ js ''/members/'' @ user @ js ''/channels''"

definition useMemberChannels :: "jstring \<Rightarrow> jstring \<Rightarrow> (response, json option) query_hook" where
  "useMemberChannels ws user = \<lparr>q_key = governanceKeys_channels ws user, q_enabled = (truthy ws \<and> truthy user),
     q_call = Direct (plain_get (member_channels_url ws user)),
     q_decode = direct_json normalizeError, q_retry = None, q_staleTime = None\<rparr>"

definition useSetMemberChannels :: "jstring option \<Rightarrow> jstring \<Rightarrow> jstring
    \<Rightarrow> (bool \<times> jstring list, response, json option, unit) mutation_hook" where
  "useSetMemberChannels csrf ws user = \<lparr>m_call = (\<lambda>(restricted, ids). Direct (with_csrf csrf
       \<lparr>rq_method = js ''PUT'', rq_url = member_channels_url ws user,
        rq_headers = [(js ''Content-Type'', js ''application/json'')],
        rq_body = Some (JObj [(js ''restricted'', JBool restricted),
                              (js ''channel_ids'', JArr (map JStr ids))])\<rparr>)),
     m_decode = direct_json normalizeError,
     m_onSuccess = (\<lambda>_ _. [Invalidate (governanceKeys_channels ws user)])\<rparr>"

definition useActivity :: "jstring option \<Rightarrow> (response, json option) query_hook" where
  "useActivity ws = \<lparr>q_key = governanceKeys_activity (nullish ws []), q_enabled = truthy_opt ws,
     q_call = Direct (plain_get (js ''/api/v1/workspaces/'' @ nullish ws [] @ js ''/activity'')),
     q_decode = direct_json normalizeError, q_retry = None, q_staleTime = None\<rparr>"

end
