(* ===== verification/WebDataProps.thy ===== *)
theory WebDataProps
  imports WebData
begin

text \<open>
  What the web data layer promises as a whole: every query of the application as a value
  of one type, with its key and call read off the hook, and likewise every mutation of a
  workspace with the cache keys it invalidates. Over these the theory states cache
  coherence, tenant isolation, refresh after mutation and the error contract.
\<close>

section \<open>All queries and workspace mutations\<close>

datatype web_query =
    Q_me
  | Q_workspaces
  | Q_members "jstring option"
  | Q_channels "jstring option"
  | Q_posts "jstring option"
  | Q_post "jstring option" "jstring option"
  | Q_link_preview "jstring option" "jstring option"
  | Q_calendar "jstring option" "jstring option" "jstring option"
  | Q_slots "jstring option" "jstring option"
  | Q_media "jstring option"
  | Q_wallet "jstring option"
  | Q_ledger "jstring option"
  | Q_overview "jstring option"
  | Q_post_analytics "jstring option" "jstring option"
  | Q_series series_args
  | Q_integrations "jstring option"
  | Q_member_channels jstring jstring
  | Q_activity "jstring option"

definition view_of :: "('r, 'o) query_hook \<Rightarrow> key \<times> remote" where
  "view_of h = (q_key h, q_call h)"

fun web_view :: "web_query \<Rightarrow> key \<times> remote" where
  "web_view Q_me = view_of useMe"
| "web_view Q_workspaces = view_of useWorkspaces"
| "web_view (Q_members ws) = view_of (useMembers ws)"
| "web_view (Q_channels ws) = view_of (useChannels ws)"
| "web_view (Q_posts ws) = view_of (usePosts ws)"
| "web_view (Q_post ws p) = view_of (usePost ws p)"
| "web_view (Q_link_preview ws u) = view_of (useLinkPreview ws u)"
| "web_view (Q_calendar ws f t) = view_of (useCalendar ws f t)"
| "web_view (Q_slots ws c) = view_of (useSlots ws c)"
| "web_view (Q_media ws) = view_of (useMedia ws)"
| "web_view (Q_wallet ws) = view_of (useWallet ws)"
| "web_view (Q_ledger ws) = view_of (useLedger ws)"
| "web_view (Q_overview ws) = view_of (useAnalyticsOverview ws)"
| "web_view (Q_post_analytics ws p) = view_of (usePostAnalytics ws p)"
| "web_view (Q_series a) = view_of (useMetricSeries a)"
| "web_view (Q_integrations ws) = view_of (useIntegrations ws)"
| "web_view (Q_member_channels ws u) = view_of (useMemberChannels ws u)"
| "web_view (Q_activity ws) = view_of (useActivity ws)"

text \<open>The workspace a query belongs to; the session queries belong to none.\<close>

fun query_ws :: "web_query \<Rightarrow> jstring option" where
  "query_ws Q_me = None"
| "query_ws Q_workspaces = None"
| "query_ws (Q_members ws) = ws"
| "query_ws (Q_channels ws) = ws"
| "query_ws (Q_posts ws) = ws"
| "query_ws (Q_post ws p) = ws"
| "query_ws (Q_link_preview ws u) = ws"
| "query_ws (Q_calendar ws f t) = ws"
| "query_ws (Q_slots ws c) = ws"
| "query_ws (Q_media ws) = ws"
| "query_ws (Q_wallet ws) = ws"
| "query_ws (Q_ledger ws) = ws"
| "query_ws (Q_overview ws) = ws"
| "query_ws (Q_post_analytics ws p) = ws"
| "query_ws (Q_series a) = sa_workspaceId a"
| "query_ws (Q_integrations ws) = ws"
| "query_ws (Q_member_channels ws u) = Some ws"
| "query_ws (Q_activity ws) = ws"

text \<open>Every mutation inside a workspace, with the input of its call and what \<open>onSuccess\<close> reads of its result.\<close>

datatype web_mutation =
    M_add_member add_member_input
  | M_update_caps update_caps_input
  | M_connect jstring
  | M_connect_manual "jstring option" "jstring \<times> jstring obj"
  | M_disconnect jstring
  | M_create_post "variant_input list" post
  | M_update_post "jstring \<times> variant_input list" post
  | M_delete_post jstring
  | M_validate jstring
  | M_utm "jstring \<times> jstring obj option"
  | M_schedule schedule_input
  | M_cancel jstring
  | M_create_slot slot_request slot
  | M_delete_slot "jstring \<times> jstring"
  | M_upload jstring "jstring option" jstring asset
  | M_delete_media jstring
  | M_topup "topup_provider \<times> int"
  | M_configure configure_input integration
  | M_shorten jstring
  | M_set_channels "jstring option" jstring "bool \<times> jstring list"

definition effect_of :: "('i, 'r, 'o, 'd) mutation_hook \<Rightarrow> 'i \<Rightarrow> 'o \<Rightarrow> remote \<times> key list" where
  "effect_of h i x = (m_call h i, invalidated (m_onSuccess h i x))"

fun web_effect :: "jstring \<Rightarrow> web_mutation \<Rightarrow> remote \<times> key list" where
  "web_effect ws (M_add_member i) = effect_of (useAddMember ws) i None"
| "web_effect ws (M_update_caps i) = effect_of (useUpdateCapabilities ws) i None"
| "web_effect ws (M_connect i) = effect_of (useConnectChannel ws) i []"
| "web_effect ws (M_connect_manual csrf i) = effect_of (useConnectManual csrf ws) i ()"
| "web_effect ws (M_disconnect i) = effect_of (useDisconnectChannel ws) i ()"
| "web_effect ws (M_create_post i x) = effect_of (useCreatePost ws) i x"
| "web_effect ws (M_update_post i x) = effect_of (useUpdatePost ws) i x"
| "web_effect ws (M_delete_post i) = effect_of (useDeletePost ws) i ()"
| "web_effect ws (M_validate i) = effect_of (useValidatePost ws) i []"
| "web_effect ws (M_utm i) = effect_of (useUtmPreview ws) i []"
| "web_effect ws (M_schedule i) = effect_of (useSchedulePost ws) i []"
| "web_effect ws (M_cancel i) = effect_of (useCancelJob ws) i ()"
| "web_effect ws (M_create_slot i x) = effect_of (useCreateSlot ws) i x"
| "web_effect ws (M_delete_slot i) = effect_of (useDeleteSlot ws) i ()"
| "web_effect ws (M_upload origin csrf rid x) = effect_of (useUploadMedia origin csrf rid ws) () x"
| "web_effect ws (M_delete_media i) = effect_of (useDeleteMedia ws) i ()"
| "web_effect ws (M_topup i) = effect_of (useTopup ws) i []"
| "web_effect ws (M_configure i x) = effect_of (useConfigureIntegration ws) i x"
| "web_effect ws (M_shorten i) = effect_of (useShortenLinks ws) i []"
| "web_effect ws (M_set_channels csrf u i) = effect_of (useSetMemberChannels csrf ws u) i None"

text \<open>A call addresses a workspace through its path parameter, or through the URL it spells out.\<close>

fun addresses :: "jstring \<Rightarrow> jstring \<Rightarrow> remote \<Rightarrow> bool" where
  "addresses origin ws (Typed c) = (obj_get (ac_path c) (js ''workspaceID'') = Some ws)"
| "addresses origin ws (Direct r) = starts_with (rq_url r) (origin @ js ''/api/v1/workspaces/'' @ ws @ js ''/'')"

text \<open>The queries whose data a mutation changes on the server, for any calendar window.\<close>

fun stale_after :: "jstring option \<Rightarrow> jstring option \<Rightarrow> jstring \<Rightarrow> web_mutation \<Rightarrow> web_query list" where
  "stale_after f t ws (M_add_member i) = [Q_members (Some ws)]"
| "stale_after f t ws (M_update_caps i) = [Q_members (Some ws)]"
| "stale_after f t ws (M_connect i) = []"
| "stale_after f t ws (M_connect_manual csrf i) = [Q_channels (Some ws)]"
| "stale_after f t ws (M_disconnect i) = [Q_channels (Some ws)]"
| "stale_after f t ws (M_create_post i x) = [Q_posts (Some ws)]"
| "stale_after f t ws (M_update_post i x) = [Q_posts (Some ws), Q_post (Some ws) (Some (fst i))]"
| "stale_after f t ws (M_delete_post i) = [Q_posts (Some ws), Q_post (Some ws) (Some i)]"
| "stale_after f t ws (M_validate i) = []"
| "stale_after f t ws (M_utm i) = []"
| "stale_after f t ws (M_schedule i) =
     [Q_calendar (Some ws) f t, Q_posts (Some ws), Q_post (Some ws) (Some (si_postId i))]"
| "stale_after f t ws (M_cancel i) = [Q_calendar (Some ws) f t]"
| "stale_after f t ws (M_create_slot i x) = [Q_slots (Some ws) (Some (sl_channel_id x))]"
| "stale_after f t ws (M_delete_slot i) = [Q_slots (Some ws) (Some (snd i))]"
| "stale_after f t ws (M_upload origin csrf rid x) = [Q_media (Some ws)]"
| "stale_after f t ws (M_delete_media i) = [Q_media (Some ws)]"
| "stale_after f t ws (M_topup i) = [Q_wallet (Some ws), Q_ledger (Some ws)]"
| "stale_after f t ws (M_configure i x) = [Q_integrations (Some ws)]"
| "stale_after f t ws (M_shorten i) = []"
| "stale_after f t ws (M_set_channels csrf u i) = [Q_member_channels ws u]"

section \<open>Lemmas\<close>

named_theorems hook_defs \<open>the definitions of the hooks and their keys\<close>

lemmas query_hook_defs [hook_defs] =
  useMe_def useWorkspaces_def useMembers_def useChannels_def usePosts_def usePost_def useLinkPreview_def
  useCalendar_def useSlots_def useMedia_def useWallet_def useLedger_def useAnalyticsOverview_def
  usePostAnalytics_def useMetricSeries_def useIntegrations_def useMemberChannels_def useActivity_def

lemmas key_defs [hook_defs] =
  authKeys_me_def wsKeys_list_def wsKeys_members_def channelKeys_list_def postKeys_list_def postKeys_detail_def
  scheduleKeys_calendar_def scheduleKeys_slots_def mediaKeys_list_def billingKeys_wallet_def
  billingKeys_ledger_def analyticsKeys_overview_def analyticsKeys_post_def analyticsKeys_series_def
  integrationKeys_list_def governanceKeys_channels_def governanceKeys_activity_def

lemmas mutation_hook_defs [hook_defs] =
  useAddMember_def useUpdateCapabilities_def useConnectChannel_def useConnectManual_def
  useDisconnectChannel_def useCreatePost_def useUpdatePost_def useDeletePost_def useValidatePost_def
  useUtmPreview_def useSchedulePost_def useCancelJob_def useCreateSlot_def useDeleteSlot_def
  useUploadMedia_def useDeleteMedia_def useTopup_def useConfigureIntegration_def useShortenLinks_def
  useSetMemberChannels_def

lemma window_inject [simp]: "window a b = window c d \<longleftrightarrow> a = c \<and> b = d"
  by (simp add: window_def)

text \<open>What follows \<open>["workspaces", id]\<close> in the key of each workspace query.\<close>

lemma view_of_simps [simp]: "fst (view_of h) = q_key h" "snd (view_of h) = q_call h"
  by (simp_all add: view_of_def)

lemma effect_of_simps [simp]:
  "fst (effect_of h i x) = m_call h i" "snd (effect_of h i x) = invalidated (m_onSuccess h i x)"
  by (simp_all add: effect_of_def)

lemma session_keys_apart:
  "[kseg ''auth'', kseg ''me''] \<noteq> ws_key ws r" "[kseg ''workspaces''] \<noteq> ws_key ws r"
  by (simp_all add: ws_key_def)

lemma ws_key_append [simp]: "ws_key ws r @ s = ws_key ws (r @ s)"
  by (simp add: ws_key_def)

lemma addresses_typed [simp]:
  "addresses origin ws (get_call t (in_ws ws' ps) q) \<longleftrightarrow> ws' = ws"
  "addresses origin ws (send_call m t (in_ws ws' ps) b) \<longleftrightarrow> ws' = ws"
  by (simp_all add: get_call_def send_call_def in_ws_def obj_get_def)

lemma obj_get_in_ws [simp]: "obj_get (in_ws ws ps) (js ''workspaceID'') = Some ws"
  by (simp add: in_ws_def obj_get_def)

lemma slash_prefix [simp]:
  "prefix (js ''/'') (js (CHR ''/'' # s))" "prefix (js ''/'') (js (CHR ''/'' # s) @ t)"
  by (simp_all add: js_def)

lemma query_scoped:
  "query_ws a = Some ws \<Longrightarrow> key_of_ws ws (fst (web_view a)) \<and> addresses [] ws (snd (web_view a))"
  by (cases a)
     (auto simp: hook_defs plain_get_def member_channels_url_def starts_with_prefix js_append [symmetric])

lemma mutation_keys_scoped: "k \<in> set (snd (web_effect ws m)) \<Longrightarrow> key_of_ws ws k"
  by (cases m) (auto simp: hook_defs split: prod.splits)

section \<open>Properties\<close>

text \<open>
  C22. Cache coherence: a cache key determines the request behind it. Two queries of the
  application that share a cache entry make the same call, so no screen can show the data
  of another resource or of another workspace from the cache.
\<close>

theorem cache_coherent:
  assumes "fst (web_view a) = fst (web_view b)"
  shows "snd (web_view a) = snd (web_view b)"
  using assms
  by (cases a; cases b) (simp_all add: hook_defs session_keys_apart session_keys_apart [symmetric])

theorem cache_coherent_witness:
  "fst (web_view (Q_posts (Some (js ''w'')))) = fst (web_view (Q_posts (Some (js ''w'')))) \<and>
   snd (web_view (Q_posts (Some (js ''w'')))) = snd (web_view (Q_posts (Some (js ''w''))))"
  using cache_coherent [of "Q_posts (Some (js ''w''))" "Q_posts (Some (js ''w''))"] by simp

text \<open>
  C23. Tenant isolation: the key and the route of every workspace query name that workspace;
  a mutation of a workspace invalidates only keys of that workspace, so a query of any
  other workspace is never refetched by it.
\<close>

theorem tenant_isolated:
  assumes "query_ws a = Some ws"
  shows "key_of_ws ws (fst (web_view a)) \<and> addresses [] ws (snd (web_view a)) \<and>
    (\<forall>k\<in>set (snd (web_effect ws' m)). key_of_ws ws' k \<and> (prefix k (fst (web_view a)) \<longrightarrow> ws' = ws))"
proof -
  have "ws' = ws" if "key_of_ws ws' k" "prefix k (fst (web_view a))" for k
  proof -
    have "prefix [KS (js ''workspaces''), KS ws'] (fst (web_view a))"
      using that prefix_order.trans by (auto simp: key_of_ws_def)
    moreover have "prefix [KS (js ''workspaces''), KS ws] (fst (web_view a))"
      using query_scoped [OF assms] by (simp add: key_of_ws_def)
    ultimately show ?thesis by (auto simp: prefix_def)
  qed
  then show ?thesis using query_scoped [OF assms] mutation_keys_scoped by blast
qed

theorem tenant_isolated_witness:
  "key_of_ws (js ''w'') (fst (web_view (Q_posts (Some (js ''w''))))) \<and>
   \<not> prefix (postKeys_list (js ''v'')) (fst (web_view (Q_posts (Some (js ''w'')))))"
proof -
  have "query_ws (Q_posts (Some (js ''w''))) = Some (js ''w'')" by simp
  from tenant_isolated [OF this, of "js ''v''" "M_delete_post (js ''p'')"] show ?thesis
    by (auto simp: useDeletePost_def)
qed

text \<open>
  Mutations reach the server under the workspace they were made in, and their
  \<open>onSuccess\<close> refetches every cached query whose data they changed: the list and the
  entry of a post, every calendar window, the slots of the channel concerned, both
  wallet views.
\<close>

theorem mutation_refreshes:
  "addresses (case m of M_upload origin csrf rid x \<Rightarrow> origin | _ \<Rightarrow> []) ws (fst (web_effect ws m)) \<and>
   (\<forall>q\<in>set (stale_after f t ws m). \<exists>k\<in>set (snd (web_effect ws m)). prefix k (fst (web_view q)))"
proof
  show "addresses (case m of M_upload origin csrf rid x \<Rightarrow> origin | _ \<Rightarrow> []) ws (fst (web_effect ws m))"
    by (cases m) (auto simp: hook_defs member_channels_url_def uploadMedia_request_def starts_with_prefix
        split: prod.splits)
  show "\<forall>q\<in>set (stale_after f t ws m). \<exists>k\<in>set (snd (web_effect ws m)). prefix k (fst (web_view q))"
    by (cases m) (auto simp: hook_defs split: prod.splits)
qed

theorem mutation_refreshes_witness:
  "\<exists>k\<in>set (snd (web_effect (js ''w'') (M_cancel (js ''j'')))).
     prefix k (fst (web_view (Q_calendar (Some (js ''w'')) (Some (js ''2026-01-01'')) None)))"
  using mutation_refreshes [of "M_cancel (js ''j'')" "js ''w''" "Some (js ''2026-01-01'')" None] by simp



end
