(* ===== verification/Config.thy ===== *)
theory Config
  imports Schema
begin

text \<open>
  The static tables of the clients: the platform registries
  (\<^verbatim>\<open>web/src/config/platforms.tsx\<close> and its mobile twin) with the publishing
  constraints the composers read, the capability and role tables of
  \<^verbatim>\<open>web/src/config/capabilities.ts\<close>, and the dock destinations of
  \<^verbatim>\<open>web/src/config/nav.ts\<close>. Glyphs are names; their drawings carry no logic.
\<close>

section \<open>Platforms\<close>

datatype glyph = XGlyph | InstagramGlyph | FacebookGlyph | TelegramGlyph | TikTokGlyph | Radio

record platform_info =
  pi_key :: jstring
  pi_label :: jstring
  pi_icon :: glyph
  pi_hint :: jstring
  pi_charLimit :: "nat option"
  pi_payPerUse :: bool
  pi_requiresMedia :: bool
  pi_caveat :: "jstring option"
  pi_manual :: bool

text \<open>A registry entry without the optional properties.\<close>

definition basic_info :: "jstring \<Rightarrow> jstring \<Rightarrow> glyph \<Rightarrow> jstring \<Rightarrow> platform_info" where
  "basic_info k l g h = \<lparr>pi_key = k, pi_label = l, pi_icon = g, pi_hint = h, pi_charLimit = None,
     pi_payPerUse = False, pi_requiresMedia = False, pi_caveat = None, pi_manual = False\<rparr>"

definition PLATFORMS :: "platform_info list" where
  "PLATFORMS =
     [(basic_info (js ''twitter'') (js ''X (Twitter)'') XGlyph
         (js ''Publish posts and threads to an X account.''))
        \<lparr>pi_charLimit := Some 280, pi_payPerUse := True\<rparr>,
      (basic_info (js ''instagram'') (js ''Instagram'') InstagramGlyph
         (js ''Publish images and Reels to an Instagram Business or Creator account.''))
        \<lparr>pi_charLimit := Some 2200, pi_requiresMedia := True,
         pi_caveat := Some (js ''Needs a Business/Creator account linked to a Facebook Page. No text-only posts.'')\<rparr>,
      (basic_info (js ''facebook'') (js ''Facebook'') FacebookGlyph
         (js ''Publish text, links, photos, and videos to a Facebook Page.''))
        \<lparr>pi_caveat := Some (js ''Posts to a Facebook Page you manage, not a personal profile.'')\<rparr>,
      (basic_info (js ''telegram'') (js ''Telegram'') TelegramGlyph
         (js ''Publish to a Telegram channel or group via your own bot.''))
        \<lparr>pi_manual := True,
         pi_caveat := Some (js ''Create a bot with @BotFather, add it as an admin, then enter its token and chat id.'')\<rparr>,
      (basic_info (js ''tiktok'') (js ''TikTok'') TikTokGlyph
         (js ''Publish videos and photo posts to a TikTok account.''))
        \<lparr>pi_charLimit := Some 2200, pi_requiresMedia := True,
         pi_caveat := Some (js ''No text-only posts. Until the app passes TikTok's audit, API posts stay private to you.'')\<rparr>]"

definition platformInfo :: "jstring \<Rightarrow> platform_info" where
  "platformInfo k = nullish (find (\<lambda>p. pi_key p = k) PLATFORMS) (basic_info k k Radio [])"

definition mobile_PLATFORMS :: "platform_info list" where
  "mobile_PLATFORMS =
     [(basic_info (js ''twitter'') (js ''X (Twitter)'') XGlyph
         (js ''Publish posts and threads to an X account.''))
        \<lparr>pi_charLimit := Some 280, pi_payPerUse := True\<rparr>,
      (basic_info (js ''instagram'') (js ''Instagram'') InstagramGlyph
         (js ''Publish images and Reels to an Instagram Business or Creator account.''))
        \<lparr>pi_charLimit := Some 2200, pi_requiresMedia := True,
         pi_caveat := Some (js ''Needs a Business/Creator account linked to a Facebook Page. No text-only posts.'')\<rparr>,
      (basic_info (js ''facebook'') (js ''Facebook'') FacebookGlyph
         (js ''Publish text, links, photos, and videos to a Facebook Page.''))
        \<lparr>pi_caveat := Some (js ''Posts to a Facebook Page you manage, not a personal profile.'')\<rparr>,
      (basic_info (js ''telegram'') (js ''Telegram'') TelegramGlyph
         (js ''Publish to a Telegram channel or group via your own bot.''))
        \<lparr>pi_manual := True,
         pi_caveat := Some (js ''Create a bot with @BotFather, add it as admin, then enter its token and chat id.'')\<rparr>,
      (basic_info (js ''tiktok'') (js ''TikTok'') TikTokGlyph
         (js ''Publish videos and photo posts to a TikTok account.''))
        \<lparr>pi_charLimit := Some 2200, pi_requiresMedia := True,
         pi_caveat := Some (js ''No text-only posts. Until the app passes TikTok's audit, API posts stay private to you.'')\<rparr>]"

definition mobile_platformInfo :: "jstring \<Rightarrow> platform_info" where
  "mobile_platformInfo k = nullish (find (\<lambda>p. pi_key p = k) mobile_PLATFORMS) (basic_info k k XGlyph [])"

section \<open>Capabilities and roles\<close>

record capability_row =
  cap_value :: capability
  cap_label :: jstring
  cap_description :: jstring

definition CAPABILITIES :: "capability_row list" where
  "CAPABILITIES =
     [\<lparr>cap_value = Cap_read, cap_label = js ''Read'', cap_description = js ''View posts, channels, media, and analytics''\<rparr>,
      \<lparr>cap_value = Cap_create, cap_label = js ''Create'', cap_description = js ''Create draft posts''\<rparr>,
      \<lparr>cap_value = Cap_update, cap_label = js ''Update'', cap_description = js ''Edit posts''\<rparr>,
      \<lparr>cap_value = Cap_delete, cap_label = js ''Delete'', cap_description = js ''Delete posts''\<rparr>,
      \<lparr>cap_value = Cap_upload, cap_label = js ''Upload media'', cap_description = js ''Upload images, GIFs, and video''\<rparr>,
      \<lparr>cap_value = Cap_publish, cap_label = js ''Publish'', cap_description = js ''Schedule and publish posts''\<rparr>,
      \<lparr>cap_value = Manage_channels, cap_label = js ''Manage channels'',
        cap_description = js ''Connect and disconnect social accounts''\<rparr>,
      \<lparr>cap_value = Manage_members, cap_label = js ''Manage members'',
        cap_description = js ''Invite members and change permissions''\<rparr>,
      \<lparr>cap_value = Manage_workspace, cap_label = js ''Manage workspace'',
        cap_description = js ''Workspace-level settings''\<rparr>]"

definition ROLES :: "role list" where
  "ROLES = [Admin, Editor, Viewer]"

fun ROLE_LABELS :: "role \<Rightarrow> jstring" where
  "ROLE_LABELS Owner = js ''Owner''"
| "ROLE_LABELS Admin = js ''Admin''"
| "ROLE_LABELS Editor = js ''Editor''"
| "ROLE_LABELS Viewer = js ''Viewer''"
| "ROLE_LABELS Custom = js ''Custom''"

section \<open>Navigation\<close>

definition dockItems :: "(jstring \<times> jstring) list" where
  "dockItems = [(js ''/'', js ''Home''), (js ''/compose'', js ''Compose''), (js ''/calendar'', js ''Calendar''),
     (js ''/channels'', js ''Channels''), (js ''/media'', js ''Media''), (js ''/analytics'', js ''Analytics'')]"

definition dockManage :: "(jstring \<times> jstring) list" where
  "dockManage = [(js ''/wallet'', js ''Wallet''), (js ''/integrations'', js ''Integrations''), (js ''/settings'', js ''Settings'')]"

section \<open>Lemmas\<close>

lemma basic_info_simps [simp]:
  "pi_key (basic_info k l g h) = k" "pi_label (basic_info k l g h) = l"
  "pi_charLimit (basic_info k l g h) = None" "pi_payPerUse (basic_info k l g h) = False"
  "pi_requiresMedia (basic_info k l g h) = False" "pi_manual (basic_info k l g h) = False"
  by (simp_all add: basic_info_def)

lemma platformInfo_key [simp]: "pi_key (platformInfo k) = k"
  by (auto simp: platformInfo_def nullish_def find_Some_iff split: option.split)

lemma mobile_platformInfo_key [simp]: "pi_key (mobile_platformInfo k) = k"
  by (auto simp: mobile_platformInfo_def nullish_def find_Some_iff split: option.split)

text \<open>Each constraint as the set of platforms that has it.\<close>

lemma platformInfo_requiresMedia:
  "pi_requiresMedia (platformInfo k) \<longleftrightarrow> k \<in> {js ''instagram'', js ''tiktok''}"
  by (auto simp: platformInfo_def PLATFORMS_def)

lemma platformInfo_payPerUse: "pi_payPerUse (platformInfo k) \<longleftrightarrow> k = js ''twitter''"
  by (auto simp: platformInfo_def PLATFORMS_def)

lemma platformInfo_manual: "pi_manual (platformInfo k) \<longleftrightarrow> k = js ''telegram''"
  by (auto simp: platformInfo_def PLATFORMS_def)

lemma platformInfo_charLimit:
  "pi_charLimit (platformInfo k) =
     (if k = js ''twitter'' then Some 280
      else if k \<in> {js ''instagram'', js ''tiktok''} then Some 2200 else None)"
  by (auto simp: platformInfo_def PLATFORMS_def)

section \<open>Properties\<close>

text \<open>
  Both clients know the same platforms: for every key, known or not, the registries
  agree on the label and on every publishing constraint (character cap, credits, required
  media, manual connection), and an unknown key is its own label with no constraint.
\<close>

theorem registries_agree:
  "pi_label (mobile_platformInfo k) = pi_label (platformInfo k) \<and>
   pi_charLimit (mobile_platformInfo k) = pi_charLimit (platformInfo k) \<and>
   pi_payPerUse (mobile_platformInfo k) = pi_payPerUse (platformInfo k) \<and>
   pi_requiresMedia (mobile_platformInfo k) = pi_requiresMedia (platformInfo k) \<and>
   pi_manual (mobile_platformInfo k) = pi_manual (platformInfo k) \<and>
   map pi_key mobile_PLATFORMS = map pi_key PLATFORMS \<and> distinct (map pi_key PLATFORMS) \<and>
   (k \<in> pi_key ` set PLATFORMS \<or> platformInfo k = basic_info k k Radio [])"
  by (auto simp: mobile_platformInfo_def platformInfo_def mobile_PLATFORMS_def PLATFORMS_def)

end
