(* ===== verification/Format.thy ===== *)
theory Format
  imports Prelude Complex_Main
begin

text \<open>
  \<^verbatim>\<open>web/src/lib/format.ts\<close>: handles with one leading at-sign and human-readable
  byte sizes. Dividing a double by 1024 is exact, so the loop of \<open>formatBytes\<close>
  is modelled on rationals without loss; \<open>toFixed(1)\<close> rounds half up, as
  ECMAScript specifies for non-negative values.
\<close>

section \<open>Definitions\<close>

definition atHandle :: "jstring \<Rightarrow> jstring" where
  "atHandle handle = (if starts_with handle (js ''@'') then handle else js ''@'' @ handle)"

text \<open>\<open>value.toFixed(1)\<close> of a non-negative value, as a number of tenths and as text.\<close>

definition tenths :: "rat \<Rightarrow> nat" where
  "tenths x = nat \<lfloor>x * 10 + 1 / 2\<rfloor>"

definition toFixed1 :: "rat \<Rightarrow> jstring" where
  "toFixed1 x = show_nat (tenths x div 10) @ js ''.'' @ show_nat (tenths x mod 10)"

text \<open>The loop \<open>for (const next of units)\<close> with its early \<open>break\<close>.\<close>

fun scale_units :: "rat \<Rightarrow> string \<Rightarrow> string list \<Rightarrow> rat \<times> string" where
  "scale_units v u [] = (v, u)"
| "scale_units v u (next # us) = (if v < 1024 then (v, u) else scale_units (v / 1024) next us)"

definition formatBytes :: "nat \<Rightarrow> jstring" where
  "formatBytes bytes =
     (if bytes < 1024 then show_nat bytes @ js '' B''
      else let (v, u) = scale_units (of_nat bytes) ''B'' [''KiB'', ''MiB'', ''GiB'']
           in toFixed1 v @ js '' '' @ js u)"

section \<open>Lemmas\<close>

lemma tenths_bounds:
  assumes "0 \<le> x"
  shows "\<bar>of_nat (tenths x) - x * 10\<bar> \<le> (1/2 :: rat)"
proof -
  let ?f = "\<lfloor>x * 10 + 1 / 2\<rfloor>"
  have "0 \<le> ?f" using assms by simp
  then have "(of_nat (tenths x) :: rat) = of_int ?f" by (simp add: tenths_def)
  moreover have "of_int ?f \<le> x * 10 + 1 / 2" "x * 10 + 1 / 2 < of_int ?f + 1"
    by linarith+
  ultimately show ?thesis by linarith
qed

lemma scaled_less: "(of_nat n / 1024 ^ k :: rat) < 1024 \<longleftrightarrow> n < 1024 ^ Suc k"
proof -
  have "(of_nat n / 1024 ^ k :: rat) < 1024 \<longleftrightarrow> of_nat n < (of_nat (1024 ^ Suc k) :: rat)"
    by (simp add: divide_less_eq)
  then show ?thesis by (simp only: of_nat_less_iff)
qed

text \<open>The unit the loop stops at, as the number of divisions it made.\<close>

definition unit_index :: "nat \<Rightarrow> nat" where
  "unit_index n = (if n < 1024 ^ 2 then 1 else if n < 1024 ^ 3 then 2 else 3)"

definition unit_name :: "nat \<Rightarrow> string" where
  "unit_name k = [''B'', ''KiB'', ''MiB'', ''GiB''] ! k"

lemma scale_units_eq:
  assumes "1024 \<le> n"
  shows "scale_units (of_nat n) u [''KiB'', ''MiB'', ''GiB''] =
    (of_nat n / 1024 ^ unit_index n, unit_name (unit_index n))"
  using assms scaled_less [of n 0] scaled_less [of n 1] scaled_less [of n 2]
  by (simp add: unit_index_def unit_name_def power2_eq_square power3_eq_cube numeral_2_eq_2)

lemma atHandle_idem: "atHandle (atHandle h) = atHandle h"
  by (simp add: atHandle_def)

section \<open>Properties\<close>

text \<open>
  A size of at least one KiB is shown in the largest of KiB, MiB and GiB that
  does not exceed it, and the tenths shown differ from the exact quotient by at most
  half a tenth.
\<close>

theorem formatBytes_scaled:
  assumes "1024 \<le> n"
  shows "\<exists>k t. k \<in> {1, 2, 3} \<and> 1024 ^ k \<le> n \<and> (k < 3 \<longrightarrow> n < 1024 ^ Suc k) \<and>
    formatBytes n = show_nat (t div 10) @ js ''.'' @ show_nat (t mod 10) @ js '' '' @ js (unit_name k) \<and>
    \<bar>of_nat t - of_nat n / 1024 ^ k * 10\<bar> \<le> (1 / 2 :: rat)"
proof -
  let ?k = "unit_index n" and ?t = "tenths (of_nat n / 1024 ^ unit_index n)"
  have "?k \<in> {1, 2, 3} \<and> 1024 ^ ?k \<le> n \<and> (?k < 3 \<longrightarrow> n < 1024 ^ Suc ?k)"
    using assms by (auto simp: unit_index_def power2_eq_square power3_eq_cube)
  moreover have "formatBytes n = show_nat (?t div 10) @ js ''.'' @ show_nat (?t mod 10) @ js '' '' @ js (unit_name ?k)"
    using assms by (simp add: formatBytes_def scale_units_eq toFixed1_def del: scale_units.simps)
  moreover have "\<bar>of_nat ?t - of_nat n / 1024 ^ ?k * 10\<bar> \<le> (1 / 2 :: rat)"
    by (rule tenths_bounds) simp
  ultimately show ?thesis by blast
qed

theorem formatBytes_scaled_witness:
  "\<exists>k t. k \<in> {1, 2, 3} \<and> 1024 ^ k \<le> (5242880 :: nat) \<and> (k < 3 \<longrightarrow> (5242880 :: nat) < 1024 ^ Suc k) \<and>
    formatBytes 5242880 = show_nat (t div 10) @ js ''.'' @ show_nat (t mod 10) @ js '' '' @ js (unit_name k) \<and>
    \<bar>of_nat t - of_nat 5242880 / 1024 ^ k * 10\<bar> \<le> (1 / 2 :: rat)"
  by (rule formatBytes_scaled) simp

text \<open>
  A handle is shown with its own text after exactly one at-sign that was not there
  before: the result starts with an at-sign, nothing is lost, and a second
  application changes nothing.
\<close>

theorem atHandle_one_at:
  "starts_with (atHandle h) (js ''@'') \<and> atHandle (atHandle h) = atHandle h \<and>
   (atHandle h = h \<or> atHandle h = js ''@'' @ h) \<and>
   (\<not> starts_with h (js ''@'') \<longrightarrow> \<not> starts_with (drop 1 (atHandle h)) (js ''@''))"
  by (auto simp: atHandle_def js_def starts_with_def)

text \<open>Both handle shapes the backend stores, and the empty one.\<close>

theorem atHandle_one_at_witness:
  "starts_with (atHandle (js ''name'')) (js ''@'') \<and> atHandle (js ''@name'') = js ''@name'' \<and>
   \<not> starts_with (drop 1 (atHandle (js ''name''))) (js ''@'')"
proof -
  have "\<not> starts_with (js ''name'') (js ''@'')" by (simp add: js_def starts_with_def)
  with atHandle_one_at [of "js ''name''"] show ?thesis
    by (simp add: atHandle_def starts_with_def js_def)
qed

end
