(* ===== verification/Composer.thy ===== *)
theory Composer
  imports WebData Config Format
begin

text \<open>
  The compose-once editor of the web client: \<^verbatim>\<open>web/src/features/composer/\<close>
  (\<open>composer.tsx\<close>, \<open>channel-picker.tsx\<close>, \<open>variant-editor.tsx\<close>, \<open>media-attach.tsx\<close>,
  \<open>utm-preview.tsx\<close>, \<open>post-preview.tsx\<close>). The state is what the component keeps with
  \<open>useState\<close> plus the pending flags of its mutations; an event is a user action or the
  settling of a call; a step returns the new state and the calls it starts. A handler with
  \<open>await\<close>s is one step per stretch between them. What the component renders is a set of
  functions of the state.
\<close>

section \<open>State\<close>

record composer_state =
  cs_selected :: "jstring list"
  cs_masterBody :: jstring
  cs_overrides :: "jstring obj"
  cs_media :: "media_meta list"

text \<open>The loop \<open>for (const v of variants) if (v.body !== master) overrides[v.channel_id] = v.body\<close>.\<close>

definition overrides_of :: "jstring \<Rightarrow> variant list \<Rightarrow> jstring obj" where
  "overrides_of master vs =
     fold (\<lambda>v. obj_set (va_channel_id v) (va_body v)) (filter (\<lambda>v. va_body v \<noteq> master) vs) []"

definition fromPost :: "post option \<Rightarrow> composer_state" where
  "fromPost post =
     (let variants = nullish (Option.bind post po_variants) [];
          master = (case variants of [] \<Rightarrow> [] | v # _ \<Rightarrow> va_body v)
      in \<lparr>cs_selected = map va_channel_id variants,
          cs_masterBody = master,
          cs_overrides = overrides_of master variants,
          cs_media = (case variants of [] \<Rightarrow> [] | v # _ \<Rightarrow> nullish (va_media v) [])\<rparr>)"

text \<open>Which of the three mutations of a save is pending: the write, or the validation after it.\<close>

datatype save_phase = Not_saving | Writing | Validating

record composer =
  co_state :: composer_state
  co_postId :: "jstring option"
  co_tab :: jstring
  co_error :: "json option"
  co_verdicts :: "variant_validation list option"
  co_phase :: save_phase
  co_shortenError :: "thrown option"
  co_shortening :: "jstring option"   \<comment> \<open>the tab whose text is being shortened\<close>

abbreviation all_tab :: jstring where
  "all_tab \<equiv> js ''all''"

definition composer_init :: "post option \<Rightarrow> composer" where
  "composer_init initial =
     \<lparr>co_state = fromPost initial, co_postId = map_option po_id initial, co_tab = all_tab, co_error = None,
      co_verdicts = None, co_phase = Not_saving, co_shortenError = None, co_shortening = None\<rparr>"

section \<open>Derived values\<close>

definition selectedChannels :: "channel list \<Rightarrow> composer_state \<Rightarrow> channel list" where
  "selectedChannels channels s = List.map_filter (map_get ch_id channels) (cs_selected s)"

definition saving :: "composer \<Rightarrow> bool" where
  "saving c = (co_phase c \<noteq> Not_saving)"

definition mediaRequiredBy :: "channel list \<Rightarrow> composer_state \<Rightarrow> jstring list" where
  "mediaRequiredBy channels s =
     map (\<lambda>c. pi_label (platformInfo (ch_platform c)))
       (filter (\<lambda>c. pi_requiresMedia (platformInfo (ch_platform c))) (selectedChannels channels s))"

definition missingMedia :: "channel list \<Rightarrow> composer_state \<Rightarrow> bool" where
  "missingMedia channels s = (mediaRequiredBy channels s \<noteq> [] \<and> cs_media s = [])"

definition bodyFor :: "composer_state \<Rightarrow> jstring \<Rightarrow> jstring" where
  "bodyFor s channelId = nullish (obj_get (cs_overrides s) channelId) (cs_masterBody s)"

text \<open>The variants \<open>save\<close> sends: one per selected channel, all with the same media.\<close>

definition save_variants :: "composer_state \<Rightarrow> variant_input list" where
  "save_variants s =
     map (\<lambda>ch. \<lparr>vi_channel_id = ch, vi_body = Some (bodyFor s ch),
                 vi_media = (if cs_media s \<noteq> [] then Some (cs_media s) else None),
                 vi_platform_options = None\<rparr>) (cs_selected s)"

definition save_disabled :: "composer \<Rightarrow> bool" where
  "save_disabled c =
     (saving c \<or> cs_selected (co_state c) = [] \<or> trim (cs_masterBody (co_state c)) = [])"

section \<open>Handlers\<close>

datatype composer_cmd =
    Cmd_create "variant_input list"
  | Cmd_update jstring "variant_input list"
  | Cmd_validate jstring
  | Cmd_shorten jstring

definition toggle_selected :: "jstring \<Rightarrow> composer_state \<Rightarrow> composer_state" where
  "toggle_selected ch s = s\<lparr>cs_selected := toggle ch (cs_selected s)\<rparr>"

definition toggleChannel :: "jstring \<Rightarrow> composer \<Rightarrow> composer" where
  "toggleChannel ch c =
     c\<lparr>co_verdicts := None, co_state := toggle_selected ch (co_state c),
       co_tab := (if co_tab c = ch then all_tab else co_tab c)\<rparr>"

text \<open>A chip of the picker is a checkbox that only an active channel enables.\<close>

definition picker_click :: "channel list \<Rightarrow> jstring \<Rightarrow> composer \<Rightarrow> composer" where
  "picker_click channels ch c =
     (if \<exists>x\<in>set channels. ch_id x = ch \<and> ch_status x = Active then toggleChannel ch c else c)"

text \<open>\<open>save\<close> up to its first \<open>await\<close>.\<close>

definition save_start :: "composer \<Rightarrow> composer \<times> composer_cmd list" where
  "save_start c =
     (let c' = c\<lparr>co_error := None, co_verdicts := None, co_phase := Writing\<rparr>;
          variants = save_variants (co_state c)
      in case co_postId c of
           Some p \<Rightarrow> (c', [if truthy p then Cmd_update p variants else Cmd_create variants])
         | None \<Rightarrow> (c', [Cmd_create variants]))"

text \<open>After the write: remember the post and validate it, or show the error.\<close>

definition save_written :: "thrown + post \<Rightarrow> composer \<Rightarrow> composer \<times> composer_cmd list" where
  "save_written r c =
     (case r of
        Inl e \<Rightarrow> (c\<lparr>co_error := Some (thrown_message e), co_phase := Not_saving\<rparr>, [])
      | Inr post \<Rightarrow> (c\<lparr>co_postId := Some (po_id post), co_phase := Validating\<rparr>, [Cmd_validate (po_id post)]))"

definition save_validated :: "thrown + variant_validation list \<Rightarrow> composer \<Rightarrow> composer" where
  "save_validated r c =
     (case r of
        Inl e \<Rightarrow> c\<lparr>co_error := Some (thrown_message e), co_phase := Not_saving\<rparr>
      | Inr vs \<Rightarrow> c\<lparr>co_verdicts := Some vs, co_phase := Not_saving\<rparr>)"

text \<open>The text editor of a tab writes the master text, or the override of the tab's channel.\<close>

definition put_body :: "jstring \<Rightarrow> jstring \<Rightarrow> composer_state \<Rightarrow> composer_state" where
  "put_body tab text s =
     (if tab = all_tab then s\<lparr>cs_masterBody := text\<rparr>
      else s\<lparr>cs_overrides := obj_set tab text (cs_overrides s)\<rparr>)"

definition reset_override :: "jstring \<Rightarrow> composer_state \<Rightarrow> composer_state" where
  "reset_override tab s = s\<lparr>cs_overrides := obj_delete tab (cs_overrides s)\<rparr>"

definition editingBody :: "composer \<Rightarrow> jstring" where
  "editingBody c =
     (if co_tab c = all_tab then cs_masterBody (co_state c) else bodyFor (co_state c) (co_tab c))"

definition shorten_start :: "composer \<Rightarrow> composer \<times> composer_cmd list" where
  "shorten_start c =
     (if firstURL (editingBody c) = None \<or> co_shortening c \<noteq> None then (c, [])
      else (c\<lparr>co_shortenError := None, co_shortening := Some (co_tab c)\<rparr>, [Cmd_shorten (editingBody c)]))"

definition shorten_done :: "thrown + jstring \<Rightarrow> composer \<Rightarrow> composer" where
  "shorten_done r c =
     (case co_shortening c of
        None \<Rightarrow> c
      | Some tab \<Rightarrow>
          (case r of
             Inl e \<Rightarrow> c\<lparr>co_shortenError := Some e, co_shortening := None\<rparr>
           | Inr text \<Rightarrow> c\<lparr>co_state := put_body tab text (co_state c), co_shortening := None\<rparr>))"

section \<open>Attached media\<close>

definition toMeta :: "asset \<Rightarrow> media_meta" where
  "toMeta a = \<lparr>mm_media_id = as_id a, mm_kind = as_kind a, mm_mime = as_mime a, mm_bytes = as_bytes a\<rparr>"

definition pick_media :: "asset \<Rightarrow> media_meta list \<Rightarrow> media_meta list" where
  "pick_media a attached =
     (if \<not> (\<exists>m\<in>set attached. mm_media_id m = as_id a) then attached @ [toMeta a] else attached)"

definition remove_media :: "jstring \<Rightarrow> media_meta list \<Rightarrow> media_meta list" where
  "remove_media m attached = filter (\<lambda>a. mm_media_id a \<noteq> m) attached"

section \<open>The component as a transition function\<close>

datatype composer_event =
    Click_channel jstring
  | Click_tab jstring
  | Type_text jstring
  | Click_reset
  | Pick_media asset
  | Remove_media jstring
  | Click_save
  | Write_settled "thrown + post"
  | Validate_settled "thrown + variant_validation list"
  | Click_shorten
  | Shorten_settled "thrown + jstring"

text \<open>The tab bar is shown with more than one selected channel; the text box of a tab needs its channel.\<close>

definition tabs_shown :: "channel list \<Rightarrow> composer \<Rightarrow> bool" where
  "tabs_shown channels c = (length (selectedChannels channels (co_state c)) > 1)"

definition editor_shown :: "channel list \<Rightarrow> composer \<Rightarrow> bool" where
  "editor_shown channels c = (co_tab c = all_tab \<or> map_get ch_id channels (co_tab c) \<noteq> None)"

definition overridden :: "composer \<Rightarrow> bool" where
  "overridden c = (obj_get (cs_overrides (co_state c)) (co_tab c) \<noteq> None)"

definition on_state :: "(composer_state \<Rightarrow> composer_state) \<Rightarrow> composer \<Rightarrow> composer" where
  "on_state f c = c\<lparr>co_state := f (co_state c)\<rparr>"

fun composer_step :: "channel list \<Rightarrow> composer \<Rightarrow> composer_event \<Rightarrow> composer \<times> composer_cmd list" where
  "composer_step channels c (Click_channel ch) = (picker_click channels ch c, [])"
| "composer_step channels c (Click_tab t) =
     (if tabs_shown channels c \<and> (t = all_tab \<or> t \<in> set (cs_selected (co_state c)))
      then (c\<lparr>co_tab := t\<rparr>, []) else (c, []))"
| "composer_step channels c (Type_text s) =
     (if editor_shown channels c then (on_state (put_body (co_tab c) s) c, []) else (c, []))"
| "composer_step channels c Click_reset =
     (if co_tab c \<noteq> all_tab \<and> editor_shown channels c \<and> overridden c
      then (on_state (reset_override (co_tab c)) c, []) else (c, []))"
| "composer_step channels c (Pick_media a) =
     (on_state (\<lambda>s. s\<lparr>cs_media := pick_media a (cs_media s)\<rparr>) c, [])"
| "composer_step channels c (Remove_media m) =
     (on_state (\<lambda>s. s\<lparr>cs_media := remove_media m (cs_media s)\<rparr>) c, [])"
| "composer_step channels c Click_save = (if save_disabled c then (c, []) else save_start c)"
| "composer_step channels c (Write_settled r) = (if co_phase c = Writing then save_written r c else (c, []))"
| "composer_step channels c (Validate_settled r) =
     (if co_phase c = Validating then (save_validated r c, []) else (c, []))"
| "composer_step channels c Click_shorten = shorten_start c"
| "composer_step channels c (Shorten_settled r) = (shorten_done r c, [])"

fun composer_run :: "channel list \<Rightarrow> composer \<Rightarrow> composer_event list \<Rightarrow> composer \<times> composer_cmd list" where
  "composer_run channels c [] = (c, [])"
| "composer_run channels c (e # es) =
     (case composer_step channels c e of (c1, out1) \<Rightarrow>
       (case composer_run channels c1 es of (c2, out2) \<Rightarrow> (c2, out1 @ out2)))"

section \<open>What is rendered\<close>

definition MAX_SAFE_INTEGER :: nat where
  "MAX_SAFE_INTEGER = 9007199254740991"

text \<open>The limit handed to the text box of the current tab.\<close>

definition editor_limit :: "channel list \<Rightarrow> composer \<Rightarrow> nat option" where
  "editor_limit channels c =
     (if co_tab c = all_tab
      then (case map (\<lambda>ch. nullish (pi_charLimit (platformInfo (ch_platform ch))) MAX_SAFE_INTEGER)
                   (selectedChannels channels (co_state c)) of
              [] \<Rightarrow> None
            | l # ls \<Rightarrow> Some (fold min ls l))
      else Option.bind (map_get ch_id channels (co_tab c)) (\<lambda>ch. pi_charLimit (platformInfo (ch_platform ch))))"

text \<open>The counter of \<open>VariantEditor\<close>: what is left of the limit, and its text.\<close>

definition remaining :: "nat option \<Rightarrow> jstring \<Rightarrow> int option" where
  "remaining limit text = map_option (\<lambda>l. int l - int (length text)) limit"

definition over_limit :: "nat option \<Rightarrow> jstring \<Rightarrow> bool" where
  "over_limit limit text = (case remaining limit text of None \<Rightarrow> False | Some r \<Rightarrow> r < 0)"

definition counter_text :: "nat option \<Rightarrow> jstring \<Rightarrow> jstring option" where
  "counter_text limit text =
     (case (limit, remaining limit text) of
        (Some l, Some r) \<Rightarrow>
          Some (if over_limit limit text then show_int (- r) @ js '' over the '' @ show_nat l @ js '' limit''
                else show_int r @ js '' left'')
      | _ \<Rightarrow> None)"

text \<open>The tab bar: each tab with its label and whether its channel has a text of its own.\<close>

definition tab_items :: "channel list \<Rightarrow> composer \<Rightarrow> (jstring \<times> jstring \<times> bool) list" where
  "tab_items channels c =
     (if \<not> tabs_shown channels c then []
      else map (\<lambda>t. case (if t = all_tab then None else map_get ch_id channels t) of
                      None \<Rightarrow> (t, js ''All channels'', False)
                    | Some ch \<Rightarrow> (t, atHandle (ch_handle ch), obj_get (cs_overrides (co_state c)) t \<noteq> None))
             (all_tab # cs_selected (co_state c)))"

text \<open>The credits notice: the cost shown, the tier it names, and the plain cost added in brackets.\<close>

datatype cost_tier = Link_posts | Media_posts | Plain_posts

definition cost_notice :: "wallet option \<Rightarrow> channel list \<Rightarrow> composer_state
    \<Rightarrow> (int option \<times> cost_tier \<times> int option) option" where
  "cost_notice wallet channels s =
     (case wallet of
        None \<Rightarrow> None
      | Some w \<Rightarrow>
          if \<not> (\<exists>c\<in>set (selectedChannels channels s). pi_payPerUse (platformInfo (ch_platform c))) then None
          else
            (let costs = wl_publish_costs w;
                 plain = obj_get costs (js ''twitter'');
                 hasLink = firstURL (cs_masterBody s) \<noteq> None;
                 hasMedia = cs_media s \<noteq> [];
                 or_plain = (\<lambda>x. case x of None \<Rightarrow> plain | Some v \<Rightarrow> Some v)
             in Some (if hasLink then or_plain (obj_get costs (js ''twitter_url''))
                      else if hasMedia then or_plain (obj_get costs (js ''twitter_media''))
                      else plain,
                      if hasLink then Link_posts else if hasMedia then Media_posts else Plain_posts,
                      if hasLink \<and> plain \<noteq> Some 0 then plain else None)))"

definition all_valid :: "variant_validation list \<Rightarrow> bool" where
  "all_valid vs = list_all vv_valid vs"

definition verdict_row :: "channel list \<Rightarrow> variant_validation \<Rightarrow> bool \<times> jstring" where
  "verdict_row channels v =
     (vv_valid v,
      (case map_get ch_id channels (vv_channel_id v) of
         Some ch \<Rightarrow> atHandle (ch_handle ch) | None \<Rightarrow> vv_channel_id v) @
      (if \<not> vv_valid v \<and> truthy_opt (vv_message v) then js '' - '' @ nullish (vv_message v) [] else []))"

definition save_label :: "composer \<Rightarrow> jstring" where
  "save_label c =
     (if saving c then js ''Saving'' @ [0x2026] else if truthy_opt (co_postId c) then js ''Update draft'' else js ''Save draft'')"

text \<open>The preview beside the form: its channel, the text it shows, and the link card of an X post without media.\<close>

definition previewChannel :: "channel list \<Rightarrow> composer \<Rightarrow> channel option" where
  "previewChannel channels c =
     (if co_tab c \<noteq> all_tab then map_get ch_id channels (co_tab c)
      else (case selectedChannels channels (co_state c) of [] \<Rightarrow> None | ch # _ \<Rightarrow> Some ch))"

definition preview_body :: "channel list \<Rightarrow> composer \<Rightarrow> jstring" where
  "preview_body channels c =
     (case previewChannel channels c of
        Some ch \<Rightarrow> bodyFor (co_state c) (ch_id ch) | None \<Rightarrow> cs_masterBody (co_state c))"

definition preview_link :: "media_meta list \<Rightarrow> jstring \<Rightarrow> jstring option" where
  "preview_link media body = (if media = [] then firstURL body else None)"

definition preview_media :: "media_meta list \<Rightarrow> media_meta list" where
  "preview_media media = take 4 media"

text \<open>The parameters \<open>UtmPreview\<close> sends, and when its button is off.\<close>

definition utm_params :: "jstring \<Rightarrow> jstring \<Rightarrow> jstring obj" where
  "utm_params source campaign =
     (let u = (if truthy source then obj_set (js ''utm_source'') source [] else [])
      in if truthy campaign then obj_set (js ''utm_campaign'') campaign u else u)"

definition utm_disabled :: "bool \<Rightarrow> jstring \<Rightarrow> bool" where
  "utm_disabled pending text = (pending \<or> trim text = [])"

section \<open>Lemmas\<close>

lemma composer_step_simps [simp]:
  "cs_selected (put_body t x s) = cs_selected s" "cs_media (put_body t x s) = cs_media s"
  "cs_selected (reset_override t s) = cs_selected s" "cs_media (reset_override t s) = cs_media s"
  "cs_masterBody (reset_override t s) = cs_masterBody s"
  "co_postId (on_state f c) = co_postId c" "co_phase (on_state f c) = co_phase c"
  "co_postId (toggleChannel ch c) = co_postId c" "co_phase (toggleChannel ch c) = co_phase c"
  "co_state (on_state f c) = f (co_state c)" "co_tab (on_state f c) = co_tab c"
  by (simp_all add: put_body_def reset_override_def on_state_def toggleChannel_def)

text \<open>The three ways a text is changed, on the texts of all channels.\<close>

lemma bodyFor_put:
  "bodyFor (put_body t x s) ch =
     (if t = all_tab then nullish (obj_get (cs_overrides s) ch) x
      else if ch = t then x else bodyFor s ch)"
  by (simp add: bodyFor_def put_body_def)

lemma bodyFor_reset: "bodyFor (reset_override t s) ch = (if ch = t then cs_masterBody s else bodyFor s ch)"
  by (simp add: bodyFor_def reset_override_def)

interpretation channel_picker: selection toggle_selected cs_selected
  by unfold_locales (simp add: toggle_selected_def)

lemma overrides_of_get:
  assumes "distinct (map va_channel_id vs)" and "v \<in> set vs"
  shows "obj_get (overrides_of m vs) (va_channel_id v) = (if va_body v = m then None else Some (va_body v))"
proof (cases "va_body v = m")
  case True
  have "find (\<lambda>x. va_channel_id x = va_channel_id v) (rev (filter (\<lambda>v. va_body v \<noteq> m) vs)) = None"
    using assms True by (auto simp: find_None_iff distinct_map dest: inj_onD)
  then show ?thesis using True
    unfolding overrides_of_def object.get_fold_put by simp
next
  case False
  have "obj_get (overrides_of m vs) (va_channel_id v) = Some (va_body v)"
    unfolding overrides_of_def
    by (rule object.get_fold_put_filter) (use assms False in \<open>auto simp: distinct_map dest: inj_onD\<close>)
  with False show ?thesis by simp
qed

lemma bodyFor_fromPost:
  assumes "po_variants p = Some vs" and "distinct (map va_channel_id vs)" and "v \<in> set vs"
  shows "bodyFor (fromPost (Some p)) (va_channel_id v) = va_body v"
  using overrides_of_get [OF assms(2,3)] assms(1)
  by (auto simp: bodyFor_def fromPost_def Let_def)

lemma pick_media_distinct:
  "distinct (map mm_media_id ms) \<Longrightarrow> distinct (map mm_media_id (pick_media a ms))"
  by (auto simp: pick_media_def toMeta_def)

lemma remove_media_distinct:
  "distinct (map mm_media_id ms) \<Longrightarrow> distinct (map mm_media_id (remove_media m ms))"
  by (auto simp: remove_media_def distinct_map intro: inj_on_subset)

text \<open>The invariant of the editor: no channel twice, the open tab is a selected channel, no attachment twice.\<close>

definition composer_inv :: "composer \<Rightarrow> bool" where
  "composer_inv c =
     (distinct (cs_selected (co_state c)) \<and> obj_ok (cs_overrides (co_state c)) \<and>
      distinct (map mm_media_id (cs_media (co_state c))) \<and>
      (co_tab c = all_tab \<or> co_tab c \<in> set (cs_selected (co_state c))))"

lemma put_body_ok: "obj_ok (cs_overrides s) \<Longrightarrow> obj_ok (cs_overrides (put_body t x s))"
  by (simp add: put_body_def obj_set_ok)

lemma toggleChannel_inv: "composer_inv c \<Longrightarrow> composer_inv (toggleChannel ch c)"
  by (auto simp: composer_inv_def toggleChannel_def toggle_selected_def distinct_toggle set_toggle)

lemma composer_step_inv: "composer_inv c \<Longrightarrow> composer_inv (fst (composer_step channels c e))"
proof (cases e)
  case (Click_channel ch)
  assume "composer_inv c"
  with Click_channel show ?thesis by (simp add: picker_click_def toggleChannel_inv)
next
  case Click_save
  assume "composer_inv c"
  with Click_save show ?thesis by (simp add: save_start_def composer_inv_def Let_def split: option.split)
qed (auto simp: composer_inv_def on_state_def put_body_ok reset_override_def obj_delete_ok pick_media_distinct
    remove_media_distinct save_written_def save_validated_def shorten_start_def shorten_done_def
    split: sum.split option.split)

lemma composer_run_inv: "composer_inv c \<Longrightarrow> composer_inv (fst (composer_run channels c es))"
proof (induction es arbitrary: c)
  case (Cons e es)
  then show ?case using composer_step_inv [OF Cons.prems, of channels e]
    by (simp add: case_prod_beta)
qed simp

lemma fromPost_inv:
  assumes "\<forall>vs. Option.bind p po_variants = Some vs \<longrightarrow> distinct (map va_channel_id vs) \<and>
    (\<forall>v\<in>set vs. \<forall>ms. va_media v = Some ms \<longrightarrow> distinct (map mm_media_id ms))"
  shows "composer_inv (composer_init p)"
proof -
  have "obj_ok (overrides_of m vs)" for m vs
    unfolding overrides_of_def by (rule object.ok_fold_put) (simp add: obj_ok_def)
  moreover have "distinct (map va_channel_id (nullish (Option.bind p po_variants) []))"
    using assms by (cases "Option.bind p po_variants") auto
  moreover have "distinct (map mm_media_id (case nullish (Option.bind p po_variants) [] of
      [] \<Rightarrow> [] | v # _ \<Rightarrow> nullish (va_media v) []))"
  proof (cases "nullish (Option.bind p po_variants) []")
    case (Cons v vs)
    with assms show ?thesis
      by (cases "Option.bind p po_variants"; cases "va_media v") auto
  qed simp
  ultimately show ?thesis by (simp add: composer_inv_def composer_init_def fromPost_def Let_def)
qed

text \<open>How many posts a list of commands creates, and how many writes a list of events reports failed.\<close>

definition creates :: "composer_cmd list \<Rightarrow> nat" where
  "creates out = length (filter (\<lambda>x. case x of Cmd_create vs \<Rightarrow> True | _ \<Rightarrow> False) out)"

definition failures :: "composer_event list \<Rightarrow> nat" where
  "failures es = length (filter (\<lambda>e. case e of Write_settled (Inl x) \<Rightarrow> True | _ \<Rightarrow> False) es)"

definition may_create :: "composer \<Rightarrow> nat" where
  "may_create c = (if truthy_opt (co_postId c) \<or> co_phase c = Writing then 0 else 1)"

definition good_ids :: "composer_event \<Rightarrow> bool" where
  "good_ids e = (case e of Write_settled (Inr p) \<Rightarrow> truthy (po_id p) | _ \<Rightarrow> True)"

lemma creates_simps [simp]:
  "creates [] = 0" "creates (xs @ ys) = creates xs + creates ys"
  by (simp_all add: creates_def)

lemma step_creates:
  assumes "good_ids e"
  shows "creates (snd (composer_step channels c e)) + may_create (fst (composer_step channels c e)) \<le>
    may_create c + failures [e]"
proof (cases e)
  case (Write_settled r)
  with assms show ?thesis
    by (cases r) (auto simp: save_written_def may_create_def creates_def failures_def good_ids_def)
qed (auto simp: may_create_def creates_def picker_click_def save_start_def save_disabled_def saving_def
      save_validated_def shorten_start_def shorten_done_def Let_def on_state_def
      split: option.split sum.split)

lemma run_creates:
  assumes "\<forall>e\<in>set es. good_ids e"
  shows "creates (snd (composer_run channels c es)) \<le> may_create c + failures es"
  using assms
proof (induction es arbitrary: c)
  case (Cons e es)
  let ?c1 = "fst (composer_step channels c e)"
  have "creates (snd (composer_run channels ?c1 es)) \<le> may_create ?c1 + failures es"
    using Cons by simp
  moreover have "failures (e # es) = failures [e] + failures es"
    by (simp add: failures_def)
  ultimately show ?case using step_creates [of e channels c] Cons.prems
    by (simp add: case_prod_beta)
qed simp

text \<open>What a save sends right after a draft was opened.\<close>

lemma save_of_opened:
  assumes "po_variants p = Some vs" and "distinct (map va_channel_id vs)" and "truthy (po_id p)"
    and "vs \<noteq> []" and "trim (va_body (hd vs)) \<noteq> []"
  shows "composer_step channels (composer_init (Some p)) Click_save =
      ((composer_init (Some p))\<lparr>co_phase := Writing\<rparr>, [Cmd_update (po_id p) (save_variants (fromPost (Some p)))])"
    and "map vi_channel_id (save_variants (fromPost (Some p))) = map va_channel_id vs"
    and "map vi_body (save_variants (fromPost (Some p))) = map (\<lambda>v. Some (va_body v)) vs"
    and "\<forall>w\<in>set (save_variants (fromPost (Some p))). nullish (vi_media w) [] = nullish (va_media (hd vs)) []"
proof -
  let ?s = "fromPost (Some p)"
  have s: "cs_selected ?s = map va_channel_id vs" "cs_masterBody ?s = va_body (hd vs)"
      "cs_media ?s = nullish (va_media (hd vs)) []"
    using assms(1,4) by (cases vs; simp add: fromPost_def Let_def)+
  have "\<not> save_disabled (composer_init (Some p))"
    using assms(4,5) s by (simp add: save_disabled_def composer_init_def saving_def)
  then show "composer_step channels (composer_init (Some p)) Click_save =
      ((composer_init (Some p))\<lparr>co_phase := Writing\<rparr>, [Cmd_update (po_id p) (save_variants ?s)])"
    using assms(3) by (simp add: save_start_def composer_init_def Let_def)
  show "map vi_channel_id (save_variants ?s) = map va_channel_id vs" by (simp add: save_variants_def s)
  show "map vi_body (save_variants ?s) = map (\<lambda>v. Some (va_body v)) vs"
    using bodyFor_fromPost [OF assms(1,2)] by (simp add: save_variants_def s)
  show "\<forall>w\<in>set (save_variants ?s). nullish (vi_media w) [] = nullish (va_media (hd vs)) []"
    by (auto simp: save_variants_def s)
qed

section \<open>Properties\<close>

text \<open>
  C4. Editing a draft and saving it unchanged keeps it: for a post whose variants go to
  different channels, the update sends one variant per channel of the draft, in order, each
  with its own text, and with the media of the first variant.
\<close>

theorem composer_roundtrip:
  assumes "po_variants p = Some vs" and "distinct (map va_channel_id vs)" and "truthy (po_id p)"
    and "vs \<noteq> []" and "trim (va_body (hd vs)) \<noteq> []"
  shows "\<exists>ws. snd (composer_run channels (composer_init (Some p)) [Click_save]) = [Cmd_update (po_id p) ws] \<and>
    map vi_channel_id ws = map va_channel_id vs \<and> map vi_body ws = map (\<lambda>v. Some (va_body v)) vs \<and>
    (\<forall>w\<in>set ws. nullish (vi_media w) [] = nullish (va_media (hd vs)) [])"
  using save_of_opened [OF assms] by (intro exI [of _ "save_variants (fromPost (Some p))"]) simp

definition sample_variant :: "string \<Rightarrow> string \<Rightarrow> variant" where
  "sample_variant ch text = \<lparr>va_id = js ''v'', va_channel_id = js ch, va_body = js text, va_media = None,
     va_platform_options = None\<rparr>"

definition sample_draft :: post where
  "sample_draft = \<lparr>po_id = js ''p1'', po_workspace_id = js ''w'', po_author_user_id = None, po_status = js ''draft'',
     po_created_at = [], po_variants = Some [sample_variant ''c1'' ''hello'', sample_variant ''c2'' ''hi'']\<rparr>"

theorem composer_roundtrip_witness:
  "\<exists>ws. snd (composer_run [] (composer_init (Some sample_draft)) [Click_save]) = [Cmd_update (js ''p1'') ws] \<and>
    map vi_body ws = [Some (js ''hello''), Some (js ''hi'')]"
proof -
  let ?vs = "[sample_variant ''c1'' ''hello'', sample_variant ''c2'' ''hi'']"
  have "trim (js ''hello'') \<noteq> []" by (simp add: trim_eq_Nil js_def is_space_def)
  then show ?thesis
    using composer_roundtrip [of sample_draft ?vs "[]"] by (auto simp: sample_draft_def sample_variant_def)
qed



text \<open>
  Text edits reach exactly the channels they are meant for: typing in the shared tab
  changes the text of every channel without a text of its own and of no other; typing in a
  channel's tab changes that channel alone; a reset returns the channel to the shared text.
\<close>

theorem composer_edits_isolated:
  assumes "editor_shown channels c"
  shows "bodyFor (co_state (fst (composer_step channels c (Type_text x)))) ch =
      (if co_tab c = all_tab
       then (case obj_get (cs_overrides (co_state c)) ch of None \<Rightarrow> x | Some own \<Rightarrow> own)
       else if ch = co_tab c then x else bodyFor (co_state c) ch) \<and>
    (co_tab c \<noteq> all_tab \<longrightarrow>
      bodyFor (co_state (fst (composer_step channels c Click_reset))) ch =
        (if ch = co_tab c then cs_masterBody (co_state c) else bodyFor (co_state c) ch))"
proof (intro conjI impI)
  show "bodyFor (co_state (fst (composer_step channels c (Type_text x)))) ch =
      (if co_tab c = all_tab
       then (case obj_get (cs_overrides (co_state c)) ch of None \<Rightarrow> x | Some own \<Rightarrow> own)
       else if ch = co_tab c then x else bodyFor (co_state c) ch)"
    using assms by (simp add: bodyFor_put nullish_def)
  have "bodyFor (co_state c) (co_tab c) = cs_masterBody (co_state c)" if "\<not> overridden c"
    using that by (simp add: overridden_def bodyFor_def)
  then show "bodyFor (co_state (fst (composer_step channels c Click_reset))) ch =
        (if ch = co_tab c then cs_masterBody (co_state c) else bodyFor (co_state c) ch)"
    if "co_tab c \<noteq> all_tab"
    using assms that by (simp add: bodyFor_reset)
qed

theorem composer_edits_isolated_witness:
  "bodyFor (co_state (fst (composer_step [] (composer_init (Some sample_draft)) (Type_text (js ''new''))))) (js ''c2'')
     = js ''hi''"
proof -
  have "editor_shown [] (composer_init (Some sample_draft))" by (simp add: editor_shown_def composer_init_def)
  from composer_edits_isolated [OF this, of "js ''new''" "js ''c2''"] show ?thesis
    by (simp add: composer_init_def fromPost_def sample_draft_def sample_variant_def Let_def overrides_of_def
        obj_get_def del: composer_step.simps)
qed



lemma fold_min_ge: "(n::nat) \<le> fold min ls l \<longleftrightarrow> n \<le> l \<and> (\<forall>x\<in>set ls. n \<le> x)"
  by (induction ls arbitrary: l) auto

lemma fits_limit: "\<not> over_limit (Some l) text \<longleftrightarrow> length text \<le> l"
  by (auto simp: over_limit_def remaining_def)

text \<open>
  The counter of the shared text warns exactly when some selected platform would reject
  the text: a text of any length JavaScript can count is within the limit shown if and only
  if it is within the limit of every selected channel that has one.
\<close>

theorem editor_limit_correct:
  assumes "co_tab c = all_tab" and "length text \<le> MAX_SAFE_INTEGER"
  shows "\<not> over_limit (editor_limit channels c) text \<longleftrightarrow>
    (\<forall>ch\<in>set (selectedChannels channels (co_state c)).
       \<forall>l. pi_charLimit (platformInfo (ch_platform ch)) = Some l \<longrightarrow> length text \<le> l)"
proof -
  let ?lim = "\<lambda>ch. nullish (pi_charLimit (platformInfo (ch_platform ch))) MAX_SAFE_INTEGER"
  let ?sel = "selectedChannels channels (co_state c)"
  have lim: "length text \<le> ?lim ch \<longleftrightarrow>
      (\<forall>l. pi_charLimit (platformInfo (ch_platform ch)) = Some l \<longrightarrow> length text \<le> l)" for ch
    using assms(2) by (cases "pi_charLimit (platformInfo (ch_platform ch))") simp_all
  show ?thesis
  proof (cases ?sel)
    case Nil
    then show ?thesis using assms(1) by (simp add: editor_limit_def over_limit_def remaining_def)
  next
    case (Cons x xs)
    then have "editor_limit channels c = Some (fold min (map ?lim xs) (?lim x))"
      using assms(1) by (simp add: editor_limit_def)
    then have "\<not> over_limit (editor_limit channels c) text \<longleftrightarrow> (\<forall>ch\<in>set ?sel. length text \<le> ?lim ch)"
      by (simp add: fits_limit fold_min_ge Cons)
    then show ?thesis by (simp add: lim)
  qed
qed

definition sample_channel :: "string \<Rightarrow> string \<Rightarrow> channel" where
  "sample_channel i platform = \<lparr>ch_id = js i, ch_platform = js platform, ch_platform_account_id = [], ch_handle = js ''h'',
     ch_display_name = [], ch_status = Active, ch_connected_by = None, ch_created_at = []\<rparr>"

definition composing :: "string list \<Rightarrow> jstring \<Rightarrow> composer" where
  "composing sel text = (composer_init None)\<lparr>co_state := \<lparr>cs_selected = map js sel, cs_masterBody = text,
     cs_overrides = [], cs_media = []\<rparr>\<rparr>"

theorem editor_limit_correct_witness:
  "over_limit (editor_limit [sample_channel ''c1'' ''twitter''] (composing [''c1''] [])) (replicate 281 0)"
proof -
  let ?c = "composing [''c1''] []" and ?chs = "[sample_channel ''c1'' ''twitter'']"
  have "co_tab ?c = all_tab" "length (replicate 281 (0 :: jchar)) \<le> MAX_SAFE_INTEGER"
    by (simp_all add: composing_def composer_init_def MAX_SAFE_INTEGER_def)
  moreover have "sample_channel ''c1'' ''twitter'' \<in> set (selectedChannels ?chs (co_state ?c))"
    by (simp add: selectedChannels_def composing_def map_filter_simps map_get_def sample_channel_def)
  moreover have "pi_charLimit (platformInfo (ch_platform (sample_channel ''c1'' ''twitter''))) = Some 280"
    by (simp add: sample_channel_def platformInfo_charLimit)
  ultimately show ?thesis using editor_limit_correct [of ?c "replicate 281 0" ?chs] by fastforce
qed

text \<open>
  The save button does not wait for required media: with a selected channel whose
  platform rejects text-only posts and nothing attached, \<open>missingMedia\<close> holds and a click
  still sends the post, without media.
\<close>

theorem save_ignores_missing_media:
  assumes "ch \<in> set (selectedChannels channels s)" and "pi_requiresMedia (platformInfo (ch_platform ch))"
    and "cs_media s = []" and "trim (cs_masterBody s) \<noteq> []"
    and "c = (composer_init None)\<lparr>co_state := s\<rparr>"
  shows "missingMedia channels s \<and> snd (composer_step channels c Click_save) = [Cmd_create (save_variants s)]"
proof -
  have "cs_selected s \<noteq> []" using assms(1) by (auto simp: selectedChannels_def map_filter_simps)
  then have "\<not> save_disabled c"
    using assms(4,5) by (simp add: save_disabled_def saving_def composer_init_def)
  then have "snd (composer_step channels c Click_save) = [Cmd_create (save_variants s)]"
    using assms(5) by (simp add: save_start_def composer_init_def Let_def)
  moreover have "missingMedia channels s"
    using assms(1-3) by (auto simp: missingMedia_def mediaRequiredBy_def filter_empty_conv)
  ultimately show ?thesis by simp
qed

theorem save_ignores_missing_media_witness:
  "missingMedia [sample_channel ''c1'' ''instagram''] (co_state (composing [''c1''] (js ''hi''))) \<and>
   snd (composer_step [sample_channel ''c1'' ''instagram''] (composing [''c1''] (js ''hi'')) Click_save) =
     [Cmd_create (save_variants (co_state (composing [''c1''] (js ''hi''))))]"
proof -
  let ?s = "co_state (composing [''c1''] (js ''hi''))" and ?ch = "sample_channel ''c1'' ''instagram''"
  have "?ch \<in> set (selectedChannels [?ch] ?s)"
    by (simp add: selectedChannels_def composing_def map_filter_simps map_get_def sample_channel_def)
  moreover have "pi_requiresMedia (platformInfo (ch_platform ?ch))"
    by (simp add: sample_channel_def platformInfo_requiresMedia)
  moreover have "trim (cs_masterBody ?s) \<noteq> []"
    by (simp add: composing_def trim_eq_Nil js_def is_space_def)
  moreover have "composing [''c1''] (js ''hi'') = (composer_init None)\<lparr>co_state := ?s\<rparr>" "cs_media ?s = []"
    by (simp_all add: composing_def)
  ultimately show ?thesis by (intro save_ignores_missing_media)
qed

definition stranded :: "channel list \<Rightarrow> composer \<Rightarrow> bool" where
  "stranded channels c =
     (co_tab c \<noteq> all_tab \<and> \<not> tabs_shown channels c \<and> trim (cs_masterBody (co_state c)) = [] \<and>
      co_shortening c \<noteq> Some all_tab)"

definition picks_channel :: "composer_event \<Rightarrow> bool" where
  "picks_channel e = (case e of Click_channel ch \<Rightarrow> True | _ \<Rightarrow> False)"

lemma tabs_shown_cong: "cs_selected s = cs_selected (co_state c) \<Longrightarrow> co_state c' = s \<Longrightarrow>
    tabs_shown channels c' = tabs_shown channels c"
  by (simp add: tabs_shown_def selectedChannels_def)

lemma stranded_step:
  assumes "stranded channels c" and "\<not> picks_channel e"
  shows "stranded channels (fst (composer_step channels c e)) \<and> snd (composer_step channels c e) \<in>
    {out. \<forall>x\<in>set out. \<exists>t p. x = Cmd_shorten t \<or> x = Cmd_validate p}"
proof (cases e)
  case (Click_channel ch)
  with assms(2) show ?thesis by (simp add: picks_channel_def)
next
  case Click_save
  with assms(1) show ?thesis by (simp add: stranded_def save_disabled_def)
qed (use assms(1) in \<open>auto simp: stranded_def tabs_shown_def selectedChannels_def on_state_def put_body_def
      reset_override_def save_written_def save_validated_def shorten_start_def shorten_done_def
      split: sum.split option.split\<close>)

lemma stranded_run:
  assumes "stranded channels c" and "\<forall>e\<in>set es. \<not> picks_channel e"
  shows "stranded channels (fst (composer_run channels c es))"
  using assms
proof (induction es arbitrary: c)
  case (Cons e es)
  then show ?case using stranded_step [OF Cons.prems(1), of e] by (simp add: case_prod_beta)
qed simp

text \<open>
  The open tab can outlive the tab bar: when the channel selection shrinks to one while
  that channel's tab is open and the shared text is still blank, no typing, resetting, tab
  click or shortening ever enables the save button again; only picking another channel does.
\<close>

theorem composer_stranded:
  assumes "stranded channels c" and "\<forall>e\<in>set es. \<not> picks_channel e"
  shows "save_disabled (fst (composer_run channels c es))"
  using stranded_run [OF assms] by (simp add: stranded_def save_disabled_def)

theorem composer_stranded_witness:
  "save_disabled (fst (composer_run [sample_channel ''a'' ''twitter'', sample_channel ''b'' ''twitter'']
     (fst (composer_run [sample_channel ''a'' ''twitter'', sample_channel ''b'' ''twitter''] (composer_init None)
        [Click_channel (js ''a''), Click_channel (js ''b''), Click_tab (js ''a''), Type_text (js ''hi''),
         Click_channel (js ''b'')]))
     [Type_text (js ''more''), Click_tab all_tab, Click_save]))"
proof -
  let ?chs = "[sample_channel ''a'' ''twitter'', sample_channel ''b'' ''twitter'']"
  let ?es = "[Click_channel (js ''a''), Click_channel (js ''b''), Click_tab (js ''a''), Type_text (js ''hi''),
         Click_channel (js ''b'')]"
  have "stranded ?chs (fst (composer_run ?chs (composer_init None) ?es))"
    by (simp add: stranded_def composer_init_def fromPost_def Let_def overrides_of_def picker_click_def
        toggleChannel_def toggle_selected_def toggle_def sample_channel_def tabs_shown_def selectedChannels_def
        map_filter_simps map_get_def editor_shown_def on_state_def put_body_def trim_def)
  then show ?thesis by (rule composer_stranded) (simp add: picks_channel_def)
qed

text \<open>
  The credits notice: it is shown exactly when the wallet has loaded and an X channel is
  selected; with a full price list the amount is the link price when the shared text has a
  link, else the media price when something is attached, else the plain price.
\<close>

theorem cost_notice_correct:
  "(cost_notice w channels s \<noteq> None \<longleftrightarrow>
      w \<noteq> None \<and> (\<exists>c\<in>set (selectedChannels channels s). ch_platform c = js ''twitter'')) \<and>
   (w = Some wal \<and> obj_get (wl_publish_costs wal) (js ''twitter'') = Some plain \<and>
    obj_get (wl_publish_costs wal) (js ''twitter_url'') = Some url \<and>
    obj_get (wl_publish_costs wal) (js ''twitter_media'') = Some media \<and> cost_notice w channels s = Some n \<longrightarrow>
    fst n = Some (if firstURL (cs_masterBody s) \<noteq> None then url else if cs_media s \<noteq> [] then media else plain))"
  by (auto simp: cost_notice_def Let_def platformInfo_payPerUse split: option.splits if_splits)

theorem cost_notice_correct_witness:
  "cost_notice (Some \<lparr>wl_workspace_id = [], wl_balance = 9, wl_publish_costs =
       [(js ''twitter'', 2), (js ''twitter_url'', 5), (js ''twitter_media'', 3)], wl_updated_at = []\<rparr>)
     [sample_channel ''c1'' ''twitter''] (co_state (composing [''c1''] [])) = Some (Some 2, Plain_posts, None)"
proof -
  let ?w = "\<lparr>wl_workspace_id = [], wl_balance = 9, wl_publish_costs =
       [(js ''twitter'', 2), (js ''twitter_url'', 5), (js ''twitter_media'', 3)], wl_updated_at = []\<rparr> :: wallet"
  have n: "cost_notice (Some ?w) [sample_channel ''c1'' ''twitter''] (co_state (composing [''c1''] [])) =
      Some (Some 2, Plain_posts, None)"
    by (simp add: cost_notice_def composing_def selectedChannels_def map_filter_simps map_get_def sample_channel_def
        platformInfo_payPerUse obj_get_def Let_def)
  from cost_notice_correct [of "Some ?w" "[sample_channel ''c1'' ''twitter'']" "co_state (composing [''c1''] [])" ?w 2 5 3
      "(Some 2, Plain_posts, None)"] n
  show ?thesis by blast
qed

end
