(* ===== verification/ComposeHost.thy ===== *)
theory ComposeHost
  imports Composer
begin

text \<open>
  The page around the web editor, \<^verbatim>\<open>web/src/features/composer/compose-screen.tsx\<close>: which post is
  being edited, the query that loads it, and when the editor of \<open>Composer\<close> is mounted,
  kept or replaced. React keeps a component while the element at its place has the same key
  and replaces it otherwise; the calls of a replaced editor still settle. The caches of the
  query library are part of the state, and every change they can make is an event.
\<close>

section \<open>State\<close>

text \<open>A query as its client sees it: without data and under way, without data and failed, or with data.\<close>

datatype 'a query_state = Q_pending | Q_error | Q_data 'a

fun query_data :: "'a query_state \<Rightarrow> 'a option" where
  "query_data (Q_data x) = Some x"
| "query_data Q_pending = None"
| "query_data Q_error = None"

text \<open>A mounted editor: the key it was mounted under and the workspace it was last rendered with.\<close>

record editor =
  ed_key :: jstring
  ed_ws :: jstring
  ed_composer :: composer

record compose_host =
  ho_active :: "jstring option"
  ho_editingId :: "jstring option"
  ho_channels :: "jstring \<Rightarrow> channel list query_state"
  ho_details :: "jstring \<Rightarrow> jstring \<Rightarrow> post query_state"
  ho_editor :: "editor option"
  ho_gone :: "editor list"   \<comment> \<open>replaced editors, whose calls may still be under way\<close>

definition host_init :: compose_host where
  "host_init = \<lparr>ho_active = None, ho_editingId = None, ho_channels = (\<lambda>_. Q_pending), ho_details = (\<lambda>_ _. Q_pending),
     ho_editor = None, ho_gone = []\<rparr>"

section \<open>Rendering\<close>

abbreviation new_key :: jstring where
  "new_key \<equiv> js ''new''"

definition composer_key :: "compose_host \<Rightarrow> jstring" where
  "composer_key h = nullish (ho_editingId h) new_key"

text \<open>The detail query of the page; without an id it is not enabled and stays pending.\<close>

definition detail_of :: "compose_host \<Rightarrow> post query_state" where
  "detail_of h =
     (case (ho_active h, ho_editingId h) of
        (Some ws, Some i) \<Rightarrow> if q_enabled (usePost (Some ws) (Some i)) then ho_details h ws i else Q_pending
      | _ \<Rightarrow> Q_pending)"

definition composer_initial :: "compose_host \<Rightarrow> post option" where
  "composer_initial h = (if truthy_opt (ho_editingId h) then query_data (detail_of h) else None)"

datatype host_part = Host_loading | Host_no_channels | Host_draft_loading | Host_composer jstring "channel list"

definition host_view :: "compose_host \<Rightarrow> host_part" where
  "host_view h =
     (case ho_active h of
        None \<Rightarrow> Host_loading
      | Some ws \<Rightarrow>
          (case ho_channels h ws of
             Q_pending \<Rightarrow> Host_loading
           | Q_error \<Rightarrow> Host_no_channels
           | Q_data [] \<Rightarrow> Host_no_channels
           | Q_data cs \<Rightarrow>
               if truthy_opt (ho_editingId h) \<and> detail_of h = Q_pending then Host_draft_loading
               else Host_composer ws cs))"

definition banner_shown :: "compose_host \<Rightarrow> bool" where
  "banner_shown h = truthy_opt (ho_editingId h)"

text \<open>After a render: the editor under the right key is kept with its new props, any other is replaced.\<close>

definition unmount :: "compose_host \<Rightarrow> compose_host" where
  "unmount h = (case ho_editor h of None \<Rightarrow> h | Some ed \<Rightarrow> h\<lparr>ho_editor := None, ho_gone := ed # ho_gone h\<rparr>)"

definition mount :: "jstring \<Rightarrow> compose_host \<Rightarrow> compose_host" where
  "mount ws h = (unmount h)\<lparr>ho_editor := Some \<lparr>ed_key = composer_key h, ed_ws = ws,
     ed_composer = composer_init (composer_initial h)\<rparr>\<rparr>"

definition host_render :: "compose_host \<Rightarrow> compose_host" where
  "host_render h =
     (case host_view h of
        Host_composer ws cs \<Rightarrow>
          (case ho_editor h of
             Some ed \<Rightarrow> if ed_key ed = composer_key h then h\<lparr>ho_editor := Some (ed\<lparr>ed_ws := ws\<rparr>)\<rparr> else mount ws h
           | None \<Rightarrow> mount ws h)
      | _ \<Rightarrow> unmount h)"

section \<open>Events\<close>

datatype host_event =
    Ho_workspace jstring                       \<comment> \<open>the active workspace changes\<close>
  | Ho_channels jstring "channel list query_state"
  | Ho_detail jstring jstring "post query_state"
  | Ho_edit jstring                            \<comment> \<open>Edit in the list of posts\<close>
  | Ho_new                                     \<comment> \<open>New post, in the banner\<close>
  | Ho_composer composer_event
  | Ho_gone nat composer_event                 \<comment> \<open>a call of a replaced editor settles\<close>

text \<open>Once a query has data it keeps data: a failed or running refetch does not remove it.\<close>

definition q_update :: "'a query_state \<Rightarrow> 'a query_state \<Rightarrow> 'a query_state" where
  "q_update old new = (case (old, new) of (Q_data x, Q_data y) \<Rightarrow> Q_data y | (Q_data x, _) \<Rightarrow> Q_data x | _ \<Rightarrow> new)"

fun is_settling :: "composer_event \<Rightarrow> bool" where
  "is_settling (Write_settled r) = True"
| "is_settling (Validate_settled r) = True"
| "is_settling (Shorten_settled r) = True"
| "is_settling e = False"

text \<open>What a step sends: the key of the editor and the workspace, with each command.\<close>

type_synonym host_out = "(jstring \<times> jstring \<times> composer_cmd) list"

definition tagged :: "editor \<Rightarrow> composer_cmd list \<Rightarrow> host_out" where
  "tagged ed cmds = map (\<lambda>c. (ed_key ed, ed_ws ed, c)) cmds"

text \<open>An observer that turns to a query that failed without data runs it again.\<close>

definition retry_failed :: "compose_host \<Rightarrow> compose_host" where
  "retry_failed h =
     (case (ho_active h, ho_editingId h) of
        (Some ws, Some i) \<Rightarrow>
          if ho_details h ws i = Q_error then h\<lparr>ho_details := (ho_details h)(ws := (ho_details h ws)(i := Q_pending))\<rparr> else h
      | _ \<Rightarrow> h)"

definition start_editing :: "jstring \<Rightarrow> compose_host \<Rightarrow> compose_host" where
  "start_editing i h =
     (if ho_editingId h = Some i then h else retry_failed (h\<lparr>ho_editingId := Some i\<rparr>))"

fun host_act :: "compose_host \<Rightarrow> host_event \<Rightarrow> compose_host \<times> host_out" where
  "host_act h (Ho_workspace ws) =
     (if ho_active h = Some ws then (h, []) else (retry_failed (h\<lparr>ho_active := Some ws\<rparr>), []))"
| "host_act h (Ho_channels ws q) = (h\<lparr>ho_channels := (ho_channels h)(ws := q_update (ho_channels h ws) q)\<rparr>, [])"
| "host_act h (Ho_detail ws i q) =
     (h\<lparr>ho_details := (ho_details h)(ws := (ho_details h ws)(i := q_update (ho_details h ws i) q))\<rparr>, [])"
| "host_act h (Ho_edit i) =
     (case host_view h of
        Host_composer ws cs \<Rightarrow> (start_editing i h, [])
      | Host_draft_loading \<Rightarrow> (start_editing i h, [])
      | _ \<Rightarrow> (h, []))"
| "host_act h Ho_new = (if banner_shown h then (h\<lparr>ho_editingId := None\<rparr>, []) else (h, []))"
| "host_act h (Ho_composer e) =
     (case (host_view h, ho_editor h) of
        (Host_composer ws cs, Some ed) \<Rightarrow>
          (case composer_step cs (ed_composer ed) e of (c, out) \<Rightarrow>
            (h\<lparr>ho_editor := Some (ed\<lparr>ed_composer := c\<rparr>)\<rparr>, tagged ed out))
      | _ \<Rightarrow> (h, []))"
| "host_act h (Ho_gone n e) =
     (if is_settling e \<and> n < length (ho_gone h)
      then let ed = ho_gone h ! n in
           case composer_step [] (ed_composer ed) e of (c, out) \<Rightarrow>
             (h\<lparr>ho_gone := (ho_gone h)[n := ed\<lparr>ed_composer := c\<rparr>]\<rparr>, tagged ed out)
      else (h, []))"

definition host_step :: "compose_host \<Rightarrow> host_event \<Rightarrow> compose_host \<times> host_out" where
  "host_step h e = (case host_act h e of (h', out) \<Rightarrow> (host_render h', out))"

fun host_run :: "compose_host \<Rightarrow> host_event list \<Rightarrow> compose_host \<times> host_out" where
  "host_run h [] = (h, [])"
| "host_run h (e # es) =
     (case host_step h e of (h1, out1) \<Rightarrow> (case host_run h1 es of (h2, out2) \<Rightarrow> (h2, out1 @ out2)))"

section \<open>Invariant\<close>

text \<open>
  What the server is relied on for: a detail is the post asked for, ids are neither empty nor
  the word the page uses as the key of a new post, and the answer to an update is the post
  that was updated. A load that fails is excluded here and studied below.
\<close>

definition answers_update :: "editor \<Rightarrow> composer_event \<Rightarrow> bool" where
  "answers_update ed e =
     (case e of
        Write_settled (Inr p) \<Rightarrow> (case co_postId (ed_composer ed) of Some i \<Rightarrow> po_id p = i | None \<Rightarrow> True)
      | _ \<Rightarrow> True)"

definition host_honest :: "compose_host \<Rightarrow> host_event \<Rightarrow> bool" where
  "host_honest h e =
     (case e of
        Ho_detail ws i q \<Rightarrow> q \<noteq> Q_error \<and> (case q of Q_data p \<Rightarrow> po_id p = i | _ \<Rightarrow> True)
      | Ho_edit i \<Rightarrow> truthy i \<and> i \<noteq> new_key
      | Ho_composer ce \<Rightarrow> (case ho_editor h of None \<Rightarrow> True | Some ed \<Rightarrow> answers_update ed ce)
      | Ho_gone n ce \<Rightarrow> (n < length (ho_gone h) \<longrightarrow> answers_update (ho_gone h ! n) ce)
      | _ \<Rightarrow> True)"

fun honest_run :: "compose_host \<Rightarrow> host_event list \<Rightarrow> bool" where
  "honest_run h [] = True"
| "honest_run h (e # es) = (host_honest h e \<and> honest_run (fst (host_step h e)) es)"

definition editors :: "compose_host \<Rightarrow> editor set" where
  "editors h = set (ho_gone h) \<union> set_option (ho_editor h)"

definition editor_ok :: "editor \<Rightarrow> bool" where
  "editor_ok ed = (ed_key ed = new_key \<or> truthy (ed_key ed) \<and> co_postId (ed_composer ed) = Some (ed_key ed))"

definition caches_ok :: "compose_host \<Rightarrow> bool" where
  "caches_ok h = ((\<forall>ws i. ho_details h ws i \<noteq> Q_error \<and> (\<forall>p. ho_details h ws i = Q_data p \<longrightarrow> po_id p = i)) \<and>
     (\<forall>i. ho_editingId h = Some i \<longrightarrow> truthy i \<and> i \<noteq> new_key))"

definition host_inv :: "compose_host \<Rightarrow> bool" where
  "host_inv h = (caches_ok h \<and> (\<forall>ed\<in>editors h. editor_ok ed))"

definition on_post :: "jstring \<times> jstring \<times> composer_cmd \<Rightarrow> bool" where
  "on_post = (\<lambda>(k, ws, cmd). k = new_key \<or>
     (case cmd of Cmd_create vs \<Rightarrow> False | Cmd_update p vs \<Rightarrow> p = k | Cmd_validate p \<Rightarrow> p = k | Cmd_shorten t \<Rightarrow> True))"

lemma composer_step_postId:
  "co_postId (fst (composer_step channels c e)) =
     (case e of Write_settled (Inr p) \<Rightarrow> if co_phase c = Writing then Some (po_id p) else co_postId c | _ \<Rightarrow> co_postId c)"
  by (cases e) (auto simp: picker_click_def toggleChannel_def on_state_def save_start_def save_written_def
      save_validated_def shorten_start_def shorten_done_def Let_def split: option.split sum.split)

lemma editor_step_ok:
  assumes "editor_ok ed" and "answers_update ed e"
  shows "editor_ok (ed\<lparr>ed_composer := fst (composer_step channels (ed_composer ed) e)\<rparr>)"
  using assms by (auto simp: editor_ok_def answers_update_def composer_step_postId split: composer_event.splits sum.splits)

lemma editor_step_out:
  assumes "editor_ok ed" and "answers_update ed e"
  shows "\<forall>x\<in>set (tagged ed (snd (composer_step channels (ed_composer ed) e))). on_post x"
  using assms
  by (cases e) (auto simp: tagged_def on_post_def editor_ok_def answers_update_def save_start_def save_written_def
      shorten_start_def Let_def split: sum.splits)

lemma editors_simps [simp]:
  "editors (unmount h) = editors h"
  "editors (h\<lparr>ho_active := a\<rparr>) = editors h" "editors (h\<lparr>ho_editingId := x\<rparr>) = editors h"
  "editors (h\<lparr>ho_channels := q\<rparr>) = editors h" "editors (h\<lparr>ho_details := d\<rparr>) = editors h"
  by (auto simp: editors_def unmount_def split: option.split)

lemma unmount_keeps [simp]: "caches_ok (unmount h) = caches_ok h" "ho_editor (unmount h) = None" "editors (unmount h) = editors h"
  by (auto simp: caches_ok_def unmount_def editors_def split: option.split)

lemma mounted_ok:
  assumes "caches_ok h" and "host_view h = Host_composer ws cs"
  shows "editor_ok \<lparr>ed_key = composer_key h, ed_ws = ws, ed_composer = composer_init (composer_initial h)\<rparr>"
proof (cases "ho_editingId h")
  case (Some i)
  with assms(1) have i: "truthy i" "i \<noteq> new_key" by (auto simp: caches_ok_def)
  have "detail_of h \<noteq> Q_pending" using assms(2) Some i by (auto simp: host_view_def split: option.splits query_state.splits list.splits if_splits)
  then obtain ws' where "detail_of h = ho_details h ws' i" "detail_of h \<noteq> Q_pending"
    using Some by (auto simp: detail_of_def split: option.splits if_splits)
  then obtain p where "detail_of h = Q_data p" "po_id p = i"
    using assms(1) by (cases "ho_details h ws' i") (simp_all add: caches_ok_def)
  then show ?thesis using Some i by (simp add: editor_ok_def composer_key_def composer_init_def composer_initial_def)
qed (simp add: editor_ok_def composer_key_def)

lemma render_inv:
  assumes "host_inv h"
  shows "host_inv (host_render h)"
proof -
  have mount: "host_inv (mount ws h)" if "host_view h = Host_composer ws cs" for ws cs
  proof -
    have "editors (mount ws h) \<subseteq> insert \<lparr>ed_key = composer_key h, ed_ws = ws, ed_composer = composer_init (composer_initial h)\<rparr> (editors h)"
      by (auto simp: mount_def editors_def unmount_def split: option.splits)
    moreover have "caches_ok (mount ws h)" using assms by (simp add: host_inv_def caches_ok_def mount_def unmount_def split: option.split)
    ultimately show ?thesis using mounted_ok [OF _ that] assms by (auto simp: host_inv_def)
  qed
  have keep: "host_inv (h\<lparr>ho_editor := Some (ed\<lparr>ed_ws := ws\<rparr>)\<rparr>)" if "ho_editor h = Some ed" for ed ws
    using assms that by (auto simp: host_inv_def caches_ok_def editors_def editor_ok_def)
  show ?thesis using mount keep assms
    by (auto simp: host_render_def host_inv_def split: host_part.split option.split)
qed

lemma retry_inv: "caches_ok h \<Longrightarrow> retry_failed h = h"
  by (auto simp: retry_failed_def caches_ok_def split: option.split)

lemma act_inv:
  assumes inv: "host_inv h" and honest: "host_honest h e"
  shows "host_inv (fst (host_act h e)) \<and> (\<forall>x\<in>set (snd (host_act h e)). on_post x)"
proof (cases e)
  case (Ho_workspace ws)
  have "caches_ok (h\<lparr>ho_active := Some ws\<rparr>)" using inv by (simp add: host_inv_def caches_ok_def)
  then show ?thesis using Ho_workspace inv by (auto simp: host_inv_def retry_inv)
next
  case (Ho_channels ws q)
  then show ?thesis using inv by (auto simp: host_inv_def caches_ok_def)
next
  case (Ho_detail ws i q)
  then show ?thesis using inv honest
    by (auto simp: host_inv_def caches_ok_def host_honest_def q_update_def split: query_state.splits)
next
  case (Ho_edit i)
  have "caches_ok (h\<lparr>ho_editingId := Some i\<rparr>)" using inv honest Ho_edit by (auto simp: host_inv_def caches_ok_def host_honest_def)
  then have "host_inv (start_editing i h)" using inv by (auto simp: start_editing_def host_inv_def retry_inv)
  then show ?thesis using Ho_edit inv by (auto split: host_part.split)
next
  case Ho_new
  then show ?thesis using inv by (auto simp: host_inv_def caches_ok_def)
next
  case (Ho_composer ce)
  show ?thesis
  proof (cases "ho_editor h")
    case (Some ed)
    then have ed: "editor_ok ed" "answers_update ed ce"
      using inv honest Ho_composer by (auto simp: host_inv_def editors_def host_honest_def)
    have "host_inv (h\<lparr>ho_editor := Some (ed\<lparr>ed_composer := fst (composer_step cs (ed_composer ed) ce)\<rparr>)\<rparr>)" for cs
      using inv editor_step_ok [OF ed] by (auto simp: host_inv_def editors_def caches_ok_def)
    then show ?thesis using Ho_composer Some inv editor_step_out [OF ed]
      by (auto simp: case_prod_beta split: host_part.split)
  qed (use Ho_composer inv in \<open>auto split: host_part.split\<close>)
next
  case (Ho_gone n ce)
  show ?thesis
  proof (cases "is_settling ce \<and> n < length (ho_gone h)")
    case True
    let ?ed = "ho_gone h ! n"
    have ed: "editor_ok ?ed" "answers_update ?ed ce"
      using inv honest Ho_gone True by (auto simp: host_inv_def editors_def host_honest_def)
    have "host_inv (h\<lparr>ho_gone := (ho_gone h)[n := ?ed\<lparr>ed_composer := fst (composer_step [] (ed_composer ?ed) ce)\<rparr>]\<rparr>)"
      using inv editor_step_ok [OF ed] set_update_subset_insert [of "ho_gone h" n]
      by (fastforce simp: host_inv_def editors_def caches_ok_def)
    then show ?thesis using Ho_gone True editor_step_out [OF ed] by (simp add: case_prod_beta Let_def)
  qed (use Ho_gone inv in auto)
qed

lemma run_inv:
  assumes "host_inv h" and "honest_run h es"
  shows "host_inv (fst (host_run h es)) \<and> (\<forall>x\<in>set (snd (host_run h es)). on_post x)"
  using assms
proof (induction es arbitrary: h)
  case (Cons e es)
  have "host_inv (fst (host_step h e))" and "\<forall>x\<in>set (snd (host_step h e)). on_post x"
    using act_inv [of h e] Cons.prems render_inv by (auto simp: host_step_def case_prod_beta)
  with Cons show ?case by (auto simp: case_prod_beta)
qed simp

text \<open>Opening a draft on a loaded page: the editor that is mounted holds the draft.\<close>

lemma open_draft_run:
  assumes "truthy ws" and "truthy i" and "i \<noteq> new_key"
  shows "\<exists>h. host_run host_init ([Ho_workspace ws, Ho_channels ws (Q_data (c # cs)), Ho_edit i, Ho_detail ws i (Q_data p)] @ es) =
      host_run h es \<and> host_view h = Host_composer ws (c # cs) \<and>
      ho_editor h = Some \<lparr>ed_key = i, ed_ws = ws, ed_composer = composer_init (Some p)\<rparr>"
proof -
  let ?new = "\<lparr>ed_key = new_key, ed_ws = ws, ed_composer = composer_init None\<rparr>"
  define h1 where "h1 = host_init\<lparr>ho_active := Some ws\<rparr>"
  define h2 where "h2 = h1\<lparr>ho_channels := (ho_channels h1)(ws := Q_data (c # cs)), ho_editor := Some ?new\<rparr>"
  define h3 where "h3 = h2\<lparr>ho_editingId := Some i, ho_editor := None, ho_gone := [?new]\<rparr>"
  define h4 where "h4 = h3\<lparr>ho_details := (ho_details h3)(ws := (ho_details h3 ws)(i := Q_data p)),
    ho_editor := Some \<lparr>ed_key = i, ed_ws = ws, ed_composer = composer_init (Some p)\<rparr>\<rparr>"
  have 1: "host_step host_init (Ho_workspace ws) = (h1, [])"
    by (simp add: host_step_def h1_def host_init_def host_render_def host_view_def unmount_def retry_failed_def)
  have 2: "host_step h1 (Ho_channels ws (Q_data (c # cs))) = (h2, [])"
    by (simp add: host_step_def h2_def h1_def host_init_def host_render_def host_view_def mount_def unmount_def
        composer_key_def composer_initial_def q_update_def)
  have 3: "host_step h2 (Ho_edit i) = (h3, [])"
    using assms by (simp add: host_step_def h3_def h2_def h1_def host_init_def host_render_def host_view_def unmount_def
        start_editing_def retry_failed_def detail_of_def usePost_def)
  have 4: "host_step h3 (Ho_detail ws i (Q_data p)) = (h4, [])"
    using assms by (simp add: host_step_def h4_def h3_def h2_def h1_def host_init_def host_render_def host_view_def mount_def
        unmount_def detail_of_def usePost_def composer_key_def composer_initial_def q_update_def)
  have "host_view h4 = Host_composer ws (c # cs)"
    using assms by (simp add: h4_def h3_def h2_def h1_def host_init_def host_view_def detail_of_def usePost_def)
  with 1 2 3 4 show ?thesis by (intro exI [of _ h4]) (simp add: h4_def)
qed

text \<open>The editor on the page is the one of the post the page says it edits, in the active workspace.\<close>

definition shown_ok :: "compose_host \<Rightarrow> bool" where
  "shown_ok h = (\<forall>ed. ho_editor h = Some ed \<longrightarrow> ed_key ed = composer_key h \<and> ho_active h = Some (ed_ws ed))"

lemma unmount_page [simp]:
  "composer_key (unmount h) = composer_key h" "ho_active (unmount h) = ho_active h" "ho_editingId (unmount h) = ho_editingId h"
  by (simp_all add: unmount_def composer_key_def split: option.split)

lemma render_shown: "shown_ok (host_render h)"
proof (cases "host_view h")
  case (Host_composer ws cs)
  then have "ho_active h = Some ws"
    by (auto simp: host_view_def split: option.splits query_state.splits list.splits if_splits)
  with Host_composer show ?thesis
    by (auto simp: host_render_def shown_ok_def mount_def composer_key_def split: option.split)
qed (simp_all add: host_render_def shown_ok_def)

lemma run_shown: "shown_ok h \<Longrightarrow> shown_ok (fst (host_run h es))"
proof (induction es arbitrary: h)
  case (Cons e es)
  have "shown_ok (fst (host_step h e))" by (simp add: host_step_def case_prod_beta render_shown)
  with Cons.IH show ?case by (simp add: case_prod_beta)
qed simp

section \<open>Properties\<close>

text \<open>
  C17. The page edits the post it says it edits: through any interleaving of opening posts,
  starting new ones, switching workspaces, cache updates, typing, saving and late answers to
  editors already replaced, the editor on the page is that of the post named by the page, in
  the active workspace, and targets that post; and everything an editor opened on a post sends
  is an update or a validation of that very post (or a link shortening). It never creates a
  post and never writes another one, as long as no load of a post fails.
\<close>

theorem editor_stays_on_post:
  assumes "honest_run host_init es"
  shows "(\<forall>(key, ws, cmd)\<in>set (snd (host_run host_init es)). key \<noteq> new_key \<longrightarrow>
      (case cmd of Cmd_create vs \<Rightarrow> False | Cmd_update p vs \<Rightarrow> p = key | Cmd_validate p \<Rightarrow> p = key | Cmd_shorten t \<Rightarrow> True)) \<and>
    (let h = fst (host_run host_init es) in \<forall>ed. ho_editor h = Some ed \<longrightarrow>
      ed_key ed = composer_key h \<and> ho_active h = Some (ed_ws ed) \<and>
      (banner_shown h \<longrightarrow> co_postId (ed_composer ed) = ho_editingId h))"
proof -
  let ?h = "fst (host_run host_init es)"
  have "host_inv host_init" by (simp add: host_inv_def caches_ok_def host_init_def editors_def)
  from run_inv [OF this assms] have inv: "host_inv ?h" and out: "\<forall>x\<in>set (snd (host_run host_init es)). on_post x" by simp_all
  have shown: "shown_ok ?h" by (rule run_shown) (simp add: shown_ok_def host_init_def)
  have "co_postId (ed_composer ed) = ho_editingId ?h" if ed: "ho_editor ?h = Some ed" and banner: "banner_shown ?h" for ed
  proof -
    obtain i where i: "ho_editingId ?h = Some i" using banner by (cases "ho_editingId ?h") (simp_all add: banner_shown_def)
    then have "ed_key ed = i" using shown ed by (simp add: shown_ok_def composer_key_def)
    moreover have "i \<noteq> new_key" "editor_ok ed" using inv i ed by (auto simp: host_inv_def caches_ok_def editors_def)
    ultimately show ?thesis using i by (simp add: editor_ok_def)
  qed
  with shown out show ?thesis by (auto simp: on_post_def shown_ok_def Let_def)
qed

definition sample_session :: "host_event list" where
  "sample_session =
     [Ho_workspace (js ''w1''), Ho_channels (js ''w1'') (Q_data [sample_channel ''c1'' ''twitter'']),
      Ho_edit (js ''p1''), Ho_detail (js ''w1'') (js ''p1'') (Q_data sample_draft), Ho_composer Click_save,
      Ho_new, Ho_gone 0 (Write_settled (Inr sample_draft))]"

theorem editor_stays_on_post_witness:
  "honest_run host_init sample_session \<and>
   map (\<lambda>(k, ws, cmd). (k, ws)) (snd (host_run host_init sample_session)) =
     [(js ''p1'', js ''w1''), (js ''p1'', js ''w1'')] \<and>
   list_all on_post (snd (host_run host_init sample_session))"
proof (intro conjI)
  show honest: "honest_run host_init sample_session" by code_simp
  show "map (\<lambda>(k, ws, cmd). (k, ws)) (snd (host_run host_init sample_session)) =
     [(js ''p1'', js ''w1''), (js ''p1'', js ''w1'')]" by code_simp
  show "list_all on_post (snd (host_run host_init sample_session))"
    using editor_stays_on_post [OF honest] by (auto simp: list_all_iff on_post_def)
qed

text \<open>
  A load that fails opens an empty editor under the banner of the draft: whatever is then
  typed and picked there, the first save creates a new post instead of updating the draft.
\<close>

theorem failed_load_creates:
  assumes "host_view h = Host_composer ws cs" and "ho_active h = Some ws" and "ho_editingId h = Some i" and "truthy i"
    and "ho_details h ws i = Q_error" and "ho_editor h = None"
    and "\<forall>e\<in>set es. \<not> is_settling e" and "Click_save \<notin> set es"
    and "\<not> save_disabled (fst (composer_run cs (composer_init None) es))"
  shows "banner_shown h \<and> map_option ed_composer (ho_editor (host_render h)) = Some (composer_init None) \<and>
    (\<exists>vs. snd (composer_step cs (fst (composer_run cs (composer_init None) es)) Click_save) = [Cmd_create vs])"
proof -
  have ws: "truthy ws \<or> detail_of h = Q_pending" using assms(2,3) by (simp add: detail_of_def usePost_def)
  have "detail_of h \<noteq> Q_pending" using assms(1,3,4)
    by (auto simp: host_view_def split: option.splits query_state.splits list.splits if_splits)
  with ws have "truthy ws" by blast
  then have "detail_of h = Q_error" using assms(2-5) by (simp add: detail_of_def usePost_def)
  then have "map_option ed_composer (ho_editor (host_render h)) = Some (composer_init None)"
    using assms(1,6) by (simp add: host_render_def mount_def composer_initial_def)
  moreover have "co_postId (fst (composer_run cs c es)) = co_postId c" for c
    using assms(7)
  proof (induction es arbitrary: c)
    case (Cons e es)
    then have "co_postId (fst (composer_step cs c e)) = co_postId c"
      unfolding composer_step_postId by (cases e) auto
    with Cons show ?case by (simp add: case_prod_beta)
  qed simp
  then have "co_postId (fst (composer_run cs (composer_init None) es)) = None" by (simp add: composer_init_def)
  ultimately show ?thesis using assms by (simp add: banner_shown_def save_start_def Let_def)
qed

definition sample_failed :: compose_host where
  "sample_failed = host_init\<lparr>ho_active := Some (js ''w1''), ho_editingId := Some (js ''p1''),
     ho_channels := (\<lambda>_. Q_data [sample_channel ''c1'' ''twitter'']), ho_details := (\<lambda>_ _. Q_error)\<rparr>"

theorem failed_load_creates_witness:
  "banner_shown sample_failed \<and>
   (\<exists>vs. snd (composer_step [sample_channel ''c1'' ''twitter'']
      (fst (composer_run [sample_channel ''c1'' ''twitter''] (composer_init None) [Click_channel (js ''c1''), Type_text (js ''hi'')])) Click_save)
    = [Cmd_create vs])"
proof -
  let ?cs = "[sample_channel ''c1'' ''twitter'']"
  let ?es = "[Click_channel (js ''c1''), Type_text (js ''hi'')]"
  have view: "host_view sample_failed = Host_composer (js ''w1'') ?cs" by code_simp
  have "\<not> save_disabled (fst (composer_run ?cs (composer_init None) ?es))" by code_simp
  then show ?thesis
    using failed_load_creates [OF view, of "js ''p1''" ?es] by (simp add: sample_failed_def host_init_def)
qed

text \<open>
  Switching the workspace does not replace the editor of a new post when the channels of
  the other workspace are already loaded: the text and the selected channels of the first
  workspace stay, and a save sends those channels to the second one.
\<close>

theorem workspace_switch_keeps_selection:
  assumes "ho_editor h = Some ed" and "ed_key ed = new_key" and "ho_editingId h = None"
    and "ho_channels h ws2 = Q_data (c # cs)" and "ho_active h \<noteq> Some ws2"
    and "\<not> save_disabled (ed_composer ed)" and "co_postId (ed_composer ed) = None"
  shows "snd (host_run h [Ho_workspace ws2, Ho_composer Click_save]) =
    [(new_key, ws2, Cmd_create (save_variants (co_state (ed_composer ed))))]"
proof -
  let ?h = "h\<lparr>ho_active := Some ws2\<rparr>"
  have same: "retry_failed ?h = ?h" using assms(3) by (simp add: retry_failed_def)
  have view: "host_view ?h = Host_composer ws2 (c # cs)" using assms by (simp add: host_view_def)
  have "host_render ?h = ?h\<lparr>ho_editor := Some (ed\<lparr>ed_ws := ws2\<rparr>)\<rparr>"
    using view assms by (simp add: host_render_def composer_key_def)
  moreover have "host_view (?h\<lparr>ho_editor := Some (ed\<lparr>ed_ws := ws2\<rparr>)\<rparr>) = Host_composer ws2 (c # cs)"
    using assms by (simp add: host_view_def)
  ultimately show ?thesis using assms same
    by (simp add: host_step_def case_prod_beta tagged_def save_start_def Let_def)
qed

theorem workspace_switch_keeps_selection_witness:
  "map (\<lambda>(k, ws, cmd). (k, ws, case cmd of Cmd_create vs \<Rightarrow> map vi_channel_id vs | _ \<Rightarrow> []))
     (snd (host_run (fst (host_run host_init
        [Ho_workspace (js ''w1''), Ho_channels (js ''w1'') (Q_data [sample_channel ''c1'' ''twitter'']),
         Ho_channels (js ''w2'') (Q_data [sample_channel ''c2'' ''twitter'']),
         Ho_composer (Click_channel (js ''c1'')), Ho_composer (Type_text (js ''hi''))]))
      [Ho_workspace (js ''w2''), Ho_composer Click_save])) = [(new_key, js ''w2'', [js ''c1''])]"
proof -
  let ?h = "fst (host_run host_init
        [Ho_workspace (js ''w1''), Ho_channels (js ''w1'') (Q_data [sample_channel ''c1'' ''twitter'']),
         Ho_channels (js ''w2'') (Q_data [sample_channel ''c2'' ''twitter'']),
         Ho_composer (Click_channel (js ''c1'')), Ho_composer (Type_text (js ''hi''))])"
  let ?ed = "the (ho_editor ?h)"
  have 1: "ho_editor ?h = Some ?ed" by code_simp
  have 2: "ed_key ?ed = new_key" by code_simp
  have 3: "ho_editingId ?h = None" by code_simp
  have 4: "ho_channels ?h (js ''w2'') = Q_data [sample_channel ''c2'' ''twitter'']" by code_simp
  have 5: "ho_active ?h \<noteq> Some (js ''w2'')" by code_simp
  have 6: "\<not> save_disabled (ed_composer ?ed)" by code_simp
  have 7: "co_postId (ed_composer ?ed) = None" by code_simp
  have 8: "map vi_channel_id (save_variants (co_state (ed_composer ?ed))) = [js ''c1'']" by code_simp
  show ?thesis unfolding workspace_switch_keeps_selection [OF 1 2 3 4 5 6 7] using 8 by simp
qed

end
