(* ===== verification/Confirm.thy ===== *)
theory Confirm
  imports WebData Config Format
begin

text \<open>
  The confirmation dialog (\<^verbatim>\<open>web/src/ui/primitives/confirm-dialog.tsx\<close>) and the four rows
  that guard a destructive call with it: a connected channel
  (\<^verbatim>\<open>features/channels/channel-card.tsx\<close>), a scheduled job
  (\<^verbatim>\<open>features/schedule/job-item.tsx\<close>), a draft (\<^verbatim>\<open>features/composer/drafts-list.tsx\<close>) and
  an asset (\<^verbatim>\<open>features/media/asset-tile.tsx\<close>). Each keeps whether the dialog is open, the
  error it shows and whether its mutation is pending. The contract they share is the
  locale \<open>confirmed_action\<close>, interpreted once per row.
\<close>

section \<open>The dialog\<close>

record confirm_state =
  cf_open :: bool
  cf_error :: "json option"
  cf_pending :: bool

definition confirm_init :: confirm_state where
  "confirm_init = \<lparr>cf_open = False, cf_error = None, cf_pending = False\<rparr>"

text \<open>
  \<open>Open_change\<close> is the dialog library's callback (the trigger, the close button, Escape, a
  click outside); only the Cancel and confirm buttons are disabled while the call is pending.
\<close>

datatype confirm_event = Open_change bool | Confirm_click | Settled_with "thrown + unit"

text \<open>The confirm button exists in the open dialog and is disabled while \<open>pending\<close>.\<close>

definition confirm_enabled :: "confirm_state \<Rightarrow> bool" where
  "confirm_enabled s = (cf_open s \<and> \<not> cf_pending s)"

definition onOpenChange :: "bool \<Rightarrow> confirm_state \<Rightarrow> confirm_state" where
  "onOpenChange next s = s\<lparr>cf_open := next, cf_error := (if next then cf_error s else None)\<rparr>"

text \<open>The shared handler: clear the error, run the mutation, close on success, show the message on failure.\<close>

fun run_confirm :: "remote \<Rightarrow> confirm_state \<Rightarrow> confirm_event \<Rightarrow> confirm_state \<times> remote list" where
  "run_confirm call s (Open_change next) = (onOpenChange next s, [])"
| "run_confirm call s Confirm_click =
     (if confirm_enabled s then (s\<lparr>cf_error := None, cf_pending := True\<rparr>, [call]) else (s, []))"
| "run_confirm call s (Settled_with r) =
     (if \<not> cf_pending s then (s, [])
      else case r of
             Inr u \<Rightarrow> (s\<lparr>cf_open := False, cf_pending := False\<rparr>, [])
           | Inl e \<Rightarrow> (s\<lparr>cf_error := Some (thrown_message e), cf_pending := False\<rparr>, []))"

section \<open>The rows\<close>

definition onDisconnect :: "jstring \<Rightarrow> channel \<Rightarrow> confirm_state \<Rightarrow> confirm_event \<Rightarrow> confirm_state \<times> remote list" where
  "onDisconnect ws ch = run_confirm (m_call (useDisconnectChannel ws) (ch_id ch))"

definition onDeleteAsset :: "jstring \<Rightarrow> asset \<Rightarrow> confirm_state \<Rightarrow> confirm_event \<Rightarrow> confirm_state \<times> remote list" where
  "onDeleteAsset ws a = run_confirm (m_call (useDeleteMedia ws) (as_id a))"

definition onDeleteDraft :: "jstring \<Rightarrow> post \<Rightarrow> confirm_state \<Rightarrow> confirm_event \<Rightarrow> confirm_state \<times> remote list" where
  "onDeleteDraft ws p = run_confirm (m_call (useDeletePost ws) (po_id p))"

text \<open>The job row has a dialog only while the job is still scheduled.\<close>

definition onCancelJob :: "jstring \<Rightarrow> job \<Rightarrow> confirm_state \<Rightarrow> confirm_event \<Rightarrow> confirm_state \<times> remote list" where
  "onCancelJob ws j s e =
     (if jb_status j = Scheduled \<or> (\<exists>r. e = Settled_with r)
      then run_confirm (m_call (useCancelJob ws) (jb_id j)) s e else (s, []))"

text \<open>What the rows show.\<close>

datatype tone = Neutral | Accent | Success | Warning | Danger

fun JOB_TONE :: "job_status \<Rightarrow> tone" where
  "JOB_TONE Scheduled = Accent"
| "JOB_TONE Publishing = Warning"
| "JOB_TONE Published = Success"
| "JOB_TONE Failed = Danger"
| "JOB_TONE Canceled = Neutral"

fun channel_STATUS :: "channel_status \<Rightarrow> jstring \<times> tone" where
  "channel_STATUS Active = (js ''Active'', Success)"
| "channel_STATUS Expired = (js ''Expired'', Warning)"
| "channel_STATUS Revoked = (js ''Revoked'', Danger)"

fun channel_STATUS_HINT :: "channel_status \<Rightarrow> jstring" where
  "channel_STATUS_HINT Active = js ''This account is connected and ready to publish.''"
| "channel_STATUS_HINT Expired = js ''Access expired - reconnect the account to keep publishing.''"
| "channel_STATUS_HINT Revoked = js ''Access was revoked on the platform - reconnect to use it again.''"

definition job_line :: "channel option \<Rightarrow> job \<Rightarrow> jstring" where
  "job_line ch j =
     (case ch of Some c \<Rightarrow> atHandle (ch_handle c) | None \<Rightarrow> take 8 (jb_channel_id j)) @
     (if jb_status j = Failed \<and> truthy_opt (jb_last_error j) then js '' - '' @ nullish (jb_last_error j) [] else [])"

text \<open>A draft row: excerpt, number of channels when the list carried the variants, publish button, pill.\<close>

definition draft_excerpt :: "post \<Rightarrow> jstring" where
  "draft_excerpt p = (case po_variants p of Some (v # vs) \<Rightarrow> va_body v | _ \<Rightarrow> [])"

definition draft_channel_count :: "post \<Rightarrow> nat option" where
  "draft_channel_count p = map_option length (po_variants p)"

definition draft_publishable :: "post \<Rightarrow> bool" where
  "draft_publishable p = (po_status p = js ''draft'')"

datatype drafts_view = Drafts_loading | Drafts_error | Drafts_empty | Drafts_rows "post list"

definition drafts_list :: "bool \<Rightarrow> bool \<Rightarrow> post list option \<Rightarrow> drafts_view" where
  "drafts_list isPending isError posts =
     (if isPending then Drafts_loading else if isError then Drafts_error
      else case posts of None \<Rightarrow> Drafts_empty | Some [] \<Rightarrow> Drafts_empty | Some ps \<Rightarrow> Drafts_rows ps)"

section \<open>The contract\<close>

fun runs :: "('s \<Rightarrow> 'e \<Rightarrow> 's \<times> 'c list) \<Rightarrow> 's \<Rightarrow> 'e list \<Rightarrow> 's \<times> 'c list" where
  "runs step s [] = (s, [])"
| "runs step s (e # es) =
     (case step s e of (s1, out1) \<Rightarrow> (case runs step s1 es of (s2, out2) \<Rightarrow> (s2, out1 @ out2)))"

definition settlements :: "confirm_event list \<Rightarrow> nat" where
  "settlements es = length (filter (\<lambda>e. \<exists>r. e = Settled_with r) es)"

definition confirmations :: "confirm_event list \<Rightarrow> nat" where
  "confirmations es = length (filter (\<lambda>e. e = Confirm_click) es)"

locale confirmed_action =
  fixes step :: "confirm_state \<Rightarrow> confirm_event \<Rightarrow> confirm_state \<times> remote list"
    and action :: remote
    and allowed :: bool
  assumes step_calls: "snd (step s e) = (if e = Confirm_click \<and> confirm_enabled s \<and> allowed then [action] else [])"
    and step_pending: "cf_pending (fst (step s e)) =
      (if snd (step s e) \<noteq> [] then True else cf_pending s \<and> \<not> (\<exists>r. e = Settled_with r))"
begin

lemma runs_calls: "set (snd (runs step s es)) \<subseteq> {action}"
proof (induction es arbitrary: s)
  case (Cons e es)
  then show ?case using step_calls [of s e] by (auto simp: case_prod_beta split: if_splits)
qed simp

text \<open>Never more than one call in flight: each further call needs the previous one to have settled.\<close>

lemma runs_in_flight:
  "length (snd (runs step s es)) + (if cf_pending s then 1 else 0) \<le> 1 + settlements es"
proof (induction es arbitrary: s)
  case (Cons e es)
  let ?s1 = "fst (step s e)"
  have "settlements (e # es) = (if \<exists>r. e = Settled_with r then 1 else 0) + settlements es"
    by (auto simp: settlements_def)
  then show ?case
    using Cons.IH [of ?s1] step_calls [of s e] step_pending [of s e]
    by (auto simp: case_prod_beta confirm_enabled_def split: if_splits)
qed (simp add: settlements_def)

lemma runs_confirmed: "length (snd (runs step s es)) \<le> (if allowed then confirmations es else 0)"
proof (induction es arbitrary: s)
  case (Cons e es)
  have "confirmations (e # es) = (if e = Confirm_click then 1 else 0) + confirmations es"
    by (simp add: confirmations_def)
  then show ?case using Cons.IH [of "fst (step s e)"] step_calls [of s e]
    by (auto simp: case_prod_beta split: if_splits)
qed (simp add: confirmations_def)

end

lemma run_confirm_laws:
  "snd (run_confirm call s e) = (if e = Confirm_click \<and> confirm_enabled s then [call] else [])"
  "cf_pending (fst (run_confirm call s e)) =
     (if snd (run_confirm call s e) \<noteq> [] then True else cf_pending s \<and> \<not> (\<exists>r. e = Settled_with r))"
  by (cases e; auto simp: onOpenChange_def confirm_enabled_def split: sum.split)+

interpretation disconnect: confirmed_action "onDisconnect ws ch" "m_call (useDisconnectChannel ws) (ch_id ch)" True
  for ws ch
  by unfold_locales (simp_all only: onDisconnect_def run_confirm_laws simp_thms)

interpretation delete_asset: confirmed_action "onDeleteAsset ws a" "m_call (useDeleteMedia ws) (as_id a)" True
  for ws a
  by unfold_locales (simp_all only: onDeleteAsset_def run_confirm_laws simp_thms)

interpretation delete_draft: confirmed_action "onDeleteDraft ws p" "m_call (useDeletePost ws) (po_id p)" True
  for ws p
  by unfold_locales (simp_all only: onDeleteDraft_def run_confirm_laws simp_thms)

interpretation cancel_job: confirmed_action "onCancelJob ws j" "m_call (useCancelJob ws) (jb_id j)"
    "jb_status j = Scheduled"
  for ws j
proof unfold_locales
  fix s e
  show "snd (onCancelJob ws j s e) =
      (if e = Confirm_click \<and> confirm_enabled s \<and> jb_status j = Scheduled then [m_call (useCancelJob ws) (jb_id j)] else [])"
    by (auto simp: onCancelJob_def run_confirm_laws)
  show "cf_pending (fst (onCancelJob ws j s e)) =
      (if snd (onCancelJob ws j s e) \<noteq> [] then True else cf_pending s \<and> \<not> (\<exists>r. e = Settled_with r))"
    unfolding onCancelJob_def by (auto simp: run_confirm_laws)
qed

section \<open>Properties\<close>

text \<open>
  C37. Destructive calls need a confirmation each: over any sequence of clicks and answers,
  each of the four rows sends no call other than its own action on its own item, at most one
  per confirming click, never two in flight at once; and a job that is no longer scheduled is
  never canceled.
\<close>

theorem destructive_calls_confirmed:
  "set (snd (runs (onDisconnect ws ch) confirm_init es)) \<subseteq> {m_call (useDisconnectChannel ws) (ch_id ch)} \<and>
   length (snd (runs (onDisconnect ws ch) confirm_init es)) \<le> min (confirmations es) (1 + settlements es) \<and>
   set (snd (runs (onDeleteAsset ws a) confirm_init es)) \<subseteq> {m_call (useDeleteMedia ws) (as_id a)} \<and>
   length (snd (runs (onDeleteAsset ws a) confirm_init es)) \<le> min (confirmations es) (1 + settlements es) \<and>
   set (snd (runs (onDeleteDraft ws p) confirm_init es)) \<subseteq> {m_call (useDeletePost ws) (po_id p)} \<and>
   length (snd (runs (onDeleteDraft ws p) confirm_init es)) \<le> min (confirmations es) (1 + settlements es) \<and>
   set (snd (runs (onCancelJob ws j) confirm_init es)) \<subseteq> {m_call (useCancelJob ws) (jb_id j)} \<and>
   length (snd (runs (onCancelJob ws j) confirm_init es)) \<le>
     (if jb_status j = Scheduled then min (confirmations es) (1 + settlements es) else 0)"
proof (intro conjI)
  note bounds = disconnect.runs_in_flight [of ws ch confirm_init es] delete_asset.runs_in_flight [of ws a confirm_init es]
    delete_draft.runs_in_flight [of ws p confirm_init es] cancel_job.runs_in_flight [of ws j confirm_init es]
    disconnect.runs_confirmed [of ws ch confirm_init es] delete_asset.runs_confirmed [of ws a confirm_init es]
    delete_draft.runs_confirmed [of ws p confirm_init es] cancel_job.runs_confirmed [of ws j confirm_init es]
  show "length (snd (runs (onDisconnect ws ch) confirm_init es)) \<le> min (confirmations es) (1 + settlements es)"
    "length (snd (runs (onDeleteAsset ws a) confirm_init es)) \<le> min (confirmations es) (1 + settlements es)"
    "length (snd (runs (onDeleteDraft ws p) confirm_init es)) \<le> min (confirmations es) (1 + settlements es)"
    "length (snd (runs (onCancelJob ws j) confirm_init es)) \<le>
      (if jb_status j = Scheduled then min (confirmations es) (1 + settlements es) else 0)"
    using bounds by (simp_all add: confirm_init_def split: if_splits)
qed (rule disconnect.runs_calls delete_asset.runs_calls delete_draft.runs_calls cancel_job.runs_calls)+

end
