(* ===== verification/Schedule.thy ===== *)
theory Schedule
  imports Confirm "HOL-Library.Multiset"
begin

text \<open>
  Scheduling screens of the web client: \<^verbatim>\<open>features/schedule/schedule-dialog.tsx\<close> (publish now,
  into the next open slots, or at a time), \<^verbatim>\<open>slots-manager.tsx\<close> (weekly posting slots) and
  \<^verbatim>\<open>calendar-screen.tsx\<close> (month and week views). The clock and the local time zone are
  parameters, and so is the date library: a Date is an abstract value with the operations the
  screen calls.
\<close>

section \<open>The publish dialog\<close>

datatype schedule_mode = Mode_now | Mode_slots | Mode_time

record schedule_dialog =
  sd_open :: bool
  sd_mode :: schedule_mode
  sd_when :: jstring
  sd_error :: "thrown option"
  sd_scheduled :: "nat option"
  sd_pending :: bool

text \<open>
  The host's dates: the ISO text of a time in milliseconds, and the time a
  local date-time text denotes in the user's zone (\<open>None\<close> is an invalid date, whose
  \<open>toISOString\<close> throws).
\<close>

record clock =
  ck_iso :: "int \<Rightarrow> jstring"
  ck_local :: "jstring \<Rightarrow> int option"

definition schedule_init :: schedule_dialog where
  "schedule_init = \<lparr>sd_open = False, sd_mode = Mode_now, sd_when = [], sd_error = None, sd_scheduled = None,
     sd_pending = False\<rparr>"

definition schedule_reset :: "schedule_dialog \<Rightarrow> schedule_dialog" where
  "schedule_reset s = s\<lparr>sd_mode := Mode_now, sd_when := [], sd_error := None, sd_scheduled := None\<rparr>"

text \<open>The input of the mutation for the chosen mode; an invalid time throws before the call.\<close>

definition schedule_request :: "clock \<Rightarrow> int \<Rightarrow> jstring \<Rightarrow> schedule_dialog \<Rightarrow> thrown + schedule_input" where
  "schedule_request ck now postId s =
     (case sd_mode s of
        Mode_slots \<Rightarrow> Inr \<lparr>si_postId = postId, si_runAt = None, si_toSlots = Some True\<rparr>
      | Mode_now \<Rightarrow> Inr \<lparr>si_postId = postId, si_runAt = Some (ck_iso ck (now + 3000)), si_toSlots = None\<rparr>
      | Mode_time \<Rightarrow>
          (case ck_local ck (sd_when s) of
             None \<Rightarrow> Inl (JsError (js ''Invalid time value''))
           | Some t \<Rightarrow> Inr \<lparr>si_postId = postId, si_runAt = Some (ck_iso ck t), si_toSlots = None\<rparr>))"

definition submit_disabled :: "schedule_dialog \<Rightarrow> bool" where
  "submit_disabled s = (sd_pending s \<or> (sd_mode s = Mode_time \<and> sd_when s = []))"

text \<open>The form is on screen while the dialog is open and no result is shown.\<close>

definition form_shown :: "schedule_dialog \<Rightarrow> bool" where
  "form_shown s = (sd_open s \<and> sd_scheduled s = None)"

datatype schedule_event =
    Sd_open_change bool
  | Sd_pick schedule_mode
  | Sd_type jstring
  | Sd_submit int   \<comment> \<open>the time of the click\<close>
  | Sd_settled "thrown + job list"

fun schedule_step :: "clock \<Rightarrow> jstring \<Rightarrow> schedule_dialog \<Rightarrow> schedule_event
    \<Rightarrow> schedule_dialog \<times> schedule_input list" where
  "schedule_step ck postId s (Sd_open_change next) =
     (if next then s\<lparr>sd_open := True\<rparr> else schedule_reset (s\<lparr>sd_open := False\<rparr>), [])"
| "schedule_step ck postId s (Sd_pick m) = (if form_shown s then s\<lparr>sd_mode := m\<rparr> else s, [])"
| "schedule_step ck postId s (Sd_type x) =
     (if form_shown s \<and> sd_mode s = Mode_time then s\<lparr>sd_when := x\<rparr> else s, [])"
| "schedule_step ck postId s (Sd_submit now) =
     (if \<not> form_shown s \<or> submit_disabled s then (s, [])
      else case schedule_request ck now postId s of
             Inl e \<Rightarrow> (s\<lparr>sd_error := Some e\<rparr>, [])
           | Inr i \<Rightarrow> (s\<lparr>sd_error := None, sd_pending := True\<rparr>, [i]))"
| "schedule_step ck postId s (Sd_settled r) =
     (if \<not> sd_pending s then (s, [])
      else case r of
             Inl e \<Rightarrow> (s\<lparr>sd_error := Some e, sd_pending := False\<rparr>, [])
           | Inr jobs \<Rightarrow> (s\<lparr>sd_scheduled := Some (length jobs), sd_pending := False\<rparr>, []))"

text \<open>The wallet link appears under the error of a publish the wallet cannot pay for.\<close>

definition wallet_link :: "schedule_dialog \<Rightarrow> bool" where
  "wallet_link s = (case sd_error s of None \<Rightarrow> False
     | Some e \<Rightarrow> thrown_code e = Some (JStr (js ''insufficient_credits'')))"

definition submit_label :: "schedule_dialog \<Rightarrow> jstring" where
  "submit_label s = (if sd_pending s then js ''Working'' @ [0x2026]
     else if sd_mode s = Mode_now then js ''Publish now'' else js ''Schedule'')"

definition scheduled_text :: "nat \<Rightarrow> jstring" where
  "scheduled_text n = show_nat n @ js '' job'' @ (if n = 1 then [] else js ''s'') @
     js '' created. Track them on the calendar.''"

section \<open>Posting slots\<close>

definition DAYS :: "jstring list" where
  "DAYS = map js [''Sunday'', ''Monday'', ''Tuesday'', ''Wednesday'', ''Thursday'', ''Friday'', ''Saturday'']"

record slots_manager =
  sm_channelId :: jstring
  sm_day :: nat
  sm_time :: jstring
  sm_timezone :: jstring
  sm_error :: "json option"
  sm_creating :: bool
  sm_removing :: bool

definition slots_init :: "jstring \<Rightarrow> channel list \<Rightarrow> slots_manager" where
  "slots_init zone channels = \<lparr>sm_channelId = (case channels of [] \<Rightarrow> [] | c # _ \<Rightarrow> ch_id c), sm_day = 1,
     sm_time = js ''09:00'', sm_timezone = zone, sm_error = None, sm_creating = False, sm_removing = False\<rparr>"

definition add_disabled :: "slots_manager \<Rightarrow> bool" where
  "add_disabled s = (sm_creating s \<or> sm_channelId s = [] \<or> sm_time s = [])"

definition slot_request_of :: "slots_manager \<Rightarrow> slot_request" where
  "slot_request_of s = \<lparr>sr_channel_id = sm_channelId s, sr_day_of_week = sm_day s, sr_time_of_day = sm_time s,
     sr_timezone = sm_timezone s\<rparr>"

datatype slots_event =
    Sm_channel jstring
  | Sm_day nat
  | Sm_time jstring
  | Sm_zone jstring
  | Sm_add
  | Sm_added "thrown + slot"
  | Sm_delete slot
  | Sm_deleted "thrown + unit"

text \<open>The day and channel boxes offer exactly their options; a delete click names the slot of its row.\<close>

fun slots_step :: "jstring \<Rightarrow> channel list \<Rightarrow> slots_manager \<Rightarrow> slots_event \<Rightarrow> slots_manager \<times> remote list" where
  "slots_step ws channels s (Sm_channel c) =
     (if c \<in> ch_id ` set channels then s\<lparr>sm_channelId := c\<rparr> else s, [])"
| "slots_step ws channels s (Sm_day d) = (if d < length DAYS then s\<lparr>sm_day := d\<rparr> else s, [])"
| "slots_step ws channels s (Sm_time t) = (s\<lparr>sm_time := t\<rparr>, [])"
| "slots_step ws channels s (Sm_zone z) = (s\<lparr>sm_timezone := z\<rparr>, [])"
| "slots_step ws channels s Sm_add =
     (if add_disabled s then (s, [])
      else (s\<lparr>sm_error := None, sm_creating := True\<rparr>, [m_call (useCreateSlot ws) (slot_request_of s)]))"
| "slots_step ws channels s (Sm_added r) =
     (if \<not> sm_creating s then (s, [])
      else case r of
             Inl e \<Rightarrow> (s\<lparr>sm_error := Some (thrown_message e), sm_creating := False\<rparr>, [])
           | Inr _ \<Rightarrow> (s\<lparr>sm_creating := False\<rparr>, []))"
| "slots_step ws channels s (Sm_delete sl) =
     (if sm_removing s then (s, [])
      else (s\<lparr>sm_removing := True\<rparr>, [m_call (useDeleteSlot ws) (sl_id sl, sl_channel_id sl)]))"
| "slots_step ws channels s (Sm_deleted r) = (s\<lparr>sm_removing := False\<rparr>, [])"

section \<open>The calendar\<close>

datatype calendar_view = Month | Week

text \<open>What the screen uses of the date library, on an abstract date; \<open>dt_day\<close> numbers the local days.\<close>

record 'd dates =
  dt_startOfMonth :: "'d \<Rightarrow> 'd"
  dt_endOfMonth :: "'d \<Rightarrow> 'd"
  dt_startOfWeek :: "'d \<Rightarrow> 'd"
  dt_endOfWeek :: "'d \<Rightarrow> 'd"
  dt_addDays :: "'d \<Rightarrow> int \<Rightarrow> 'd"
  dt_addWeeks :: "'d \<Rightarrow> int \<Rightarrow> 'd"
  dt_addMonths :: "'d \<Rightarrow> int \<Rightarrow> 'd"
  dt_day :: "'d \<Rightarrow> int"
  dt_of_day :: "int \<Rightarrow> 'd"
  dt_parse :: "jstring \<Rightarrow> 'd"
  dt_iso :: "'d \<Rightarrow> jstring"

record 'd calendar =
  ca_view :: calendar_view
  ca_cursor :: 'd
  ca_selectedDay :: "'d option"

definition rangeStart :: "'d dates \<Rightarrow> 'd calendar \<Rightarrow> 'd" where
  "rangeStart dt s = (case ca_view s of Month \<Rightarrow> dt_startOfWeek dt (dt_startOfMonth dt (ca_cursor s))
     | Week \<Rightarrow> dt_startOfWeek dt (ca_cursor s))"

definition rangeEnd :: "'d dates \<Rightarrow> 'd calendar \<Rightarrow> 'd" where
  "rangeEnd dt s = (case ca_view s of Month \<Rightarrow> dt_endOfWeek dt (dt_endOfMonth dt (ca_cursor s))
     | Week \<Rightarrow> dt_endOfWeek dt (ca_cursor s))"

text \<open>The query of the screen: its window ends a day after the last day shown.\<close>

definition calendar_query :: "'d dates \<Rightarrow> jstring option \<Rightarrow> 'd calendar
    \<Rightarrow> (job list option api_result, job list) query_hook" where
  "calendar_query dt ws s =
     useCalendar ws (Some (dt_iso dt (rangeStart dt s))) (Some (dt_iso dt (dt_addDays dt (rangeEnd dt s) 1)))"

definition calendar_days :: "'d dates \<Rightarrow> 'd calendar \<Rightarrow> 'd list" where
  "calendar_days dt s = map (dt_of_day dt) [dt_day dt (rangeStart dt s)..dt_day dt (rangeEnd dt s)]"

definition isSameDay :: "'d dates \<Rightarrow> 'd \<Rightarrow> 'd \<Rightarrow> bool" where
  "isSameDay dt a b = (dt_day dt a = dt_day dt b)"

definition jobsOn :: "'d dates \<Rightarrow> job list \<Rightarrow> 'd \<Rightarrow> job list" where
  "jobsOn dt jobs day = filter (\<lambda>j. isSameDay dt (dt_parse dt (jb_run_at j)) day) jobs"

text \<open>A month cell lists two jobs and counts the rest; the week view lists the days that have any.\<close>

definition month_cell :: "'d dates \<Rightarrow> job list \<Rightarrow> 'd \<Rightarrow> job list \<times> nat" where
  "month_cell dt jobs day = (take 2 (jobsOn dt jobs day), length (jobsOn dt jobs day) - 2)"

definition week_rows :: "'d dates \<Rightarrow> job list \<Rightarrow> 'd calendar \<Rightarrow> ('d \<times> job list) list" where
  "week_rows dt jobs s =
     filter (\<lambda>r. snd r \<noteq> []) (map (\<lambda>d. (d, jobsOn dt jobs d)) (calendar_days dt s))"

definition calendar_step :: "'d dates \<Rightarrow> int \<Rightarrow> 'd calendar \<Rightarrow> 'd calendar" where
  "calendar_step dt dir s = s\<lparr>ca_selectedDay := None,
     ca_cursor := (case ca_view s of Month \<Rightarrow> dt_addMonths dt (ca_cursor s) dir | Week \<Rightarrow> dt_addWeeks dt (ca_cursor s) dir)\<rparr>"

definition calendar_pick_view :: "calendar_view \<Rightarrow> 'd calendar \<Rightarrow> 'd calendar" where
  "calendar_pick_view v s = s\<lparr>ca_view := v, ca_selectedDay := None\<rparr>"

definition calendar_pick_day :: "'d dates \<Rightarrow> 'd \<Rightarrow> 'd calendar \<Rightarrow> 'd calendar" where
  "calendar_pick_day dt day s =
     s\<lparr>ca_selectedDay := (case ca_selectedDay s of
        Some d \<Rightarrow> if isSameDay dt day d then None else Some day | None \<Rightarrow> Some day)\<rparr>"

section \<open>Lemmas\<close>

text \<open>What an input of the scheduling mutation may look like.\<close>

definition exclusive :: "jstring \<Rightarrow> schedule_input \<Rightarrow> bool" where
  "exclusive postId i = (si_postId i = postId \<and> (si_runAt i = None \<longleftrightarrow> si_toSlots i = Some True) \<and>
     (si_runAt i \<noteq> None \<longleftrightarrow> si_toSlots i = None))"

lemma schedule_request_exclusive: "schedule_request ck now p s = Inr i \<Longrightarrow> exclusive p i"
  by (auto simp: schedule_request_def exclusive_def split: schedule_mode.splits option.splits)

lemma schedule_step_out: "i \<in> set (snd (schedule_step ck p s e)) \<Longrightarrow> exclusive p i"
  by (cases e) (auto split: if_splits sum.splits dest: schedule_request_exclusive)

lemma schedule_run_out: "i \<in> set (snd (runs (schedule_step ck p) s es)) \<Longrightarrow> exclusive p i"
proof (induction es arbitrary: s)
  case (Cons e es)
  then show ?case using schedule_step_out [of i ck p s e] by (auto simp: case_prod_beta)
qed simp

definition sd_settlements :: "schedule_event list \<Rightarrow> nat" where
  "sd_settlements es = length (filter (\<lambda>e. \<exists>r. e = Sd_settled r) es)"

lemma schedule_step_flight:
  "length (snd (schedule_step ck p s e)) + (if sd_pending s then 1 else 0) \<le>
     (if sd_pending (fst (schedule_step ck p s e)) then 1 else 0) + sd_settlements [e]"
  by (cases e) (auto simp: schedule_reset_def submit_disabled_def sd_settlements_def split: sum.split)

lemma schedule_run_flight:
  "length (snd (runs (schedule_step ck p) s es)) + (if sd_pending s then 1 else 0) \<le> 1 + sd_settlements es"
proof (induction es arbitrary: s)
  case (Cons e es)
  have "sd_settlements (e # es) = sd_settlements [e] + sd_settlements es"
    by (simp add: sd_settlements_def)
  then show ?case
    using Cons.IH [of "fst (schedule_step ck p s e)"] schedule_step_flight [of ck p s e]
    by (simp add: case_prod_beta)
qed (simp add: sd_settlements_def)

definition slots_inv :: "channel list \<Rightarrow> slots_manager \<Rightarrow> bool" where
  "slots_inv channels s = (sm_day s < 7 \<and> (sm_channelId s = [] \<or> sm_channelId s \<in> ch_id ` set channels))"

lemma DAYS_length [simp]: "length DAYS = 7"
  by (simp add: DAYS_def)

lemma slots_step_inv: "slots_inv channels s \<Longrightarrow> slots_inv channels (fst (slots_step ws channels s e))"
  by (cases e) (auto simp: slots_inv_def split: sum.split)

lemma slots_runs_inv: "slots_inv channels s \<Longrightarrow> slots_inv channels (fst (runs (slots_step ws channels) s es))"
proof (induction es arbitrary: s)
  case (Cons e es)
  then show ?case using slots_step_inv by (simp add: case_prod_beta)
qed simp

text \<open>Splitting a list by a numbering loses nothing and repeats nothing.\<close>

lemma mset_by_day:
  "distinct ds \<Longrightarrow> mset (concat (map (\<lambda>d. filter (\<lambda>x. f x = d) xs) ds)) = mset (filter (\<lambda>x. f x \<in> set ds) xs)"
proof (induction ds)
  case (Cons d ds)
  have "mset (filter (\<lambda>x. f x \<in> set (d # ds)) xs) =
      mset (filter (\<lambda>x. f x = d) xs) + mset (filter (\<lambda>x. f x \<in> set ds) xs)"
    using Cons.prems by (induction xs) auto
  with Cons show ?case by simp
qed simp

lemma concat_nonempty: "concat (map snd (filter (\<lambda>r. snd r \<noteq> []) rs)) = concat (map snd rs)"
  by (induction rs) auto

section \<open>Properties\<close>

text \<open>
  C38. What the publish dialog sends: over any run, every scheduling request is for the
  dialog's own post and asks for exactly one of a time and the next open slots, and a second
  request is only sent after the first has settled.
\<close>

theorem schedule_exclusive:
  "(\<forall>i\<in>set (snd (runs (schedule_step ck p) schedule_init es)). exclusive p i) \<and>
   length (snd (runs (schedule_step ck p) schedule_init es)) \<le> 1 + sd_settlements es"
  using schedule_run_out [of _ ck p schedule_init es] schedule_run_flight [of ck p schedule_init es]
  by (simp add: schedule_init_def)

definition utc_clock :: clock where
  "utc_clock = \<lparr>ck_iso = show_int, ck_local = (\<lambda>s. if s = [] then None else Some (int (length s)))\<rparr>"

theorem schedule_exclusive_witness:
  "snd (runs (schedule_step utc_clock (js ''p'')) schedule_init [Sd_open_change True, Sd_pick Mode_slots, Sd_submit 5]) =
     [\<lparr>si_postId = js ''p'', si_runAt = None, si_toSlots = Some True\<rparr>] \<and>
   exclusive (js ''p'') \<lparr>si_postId = js ''p'', si_runAt = None, si_toSlots = Some True\<rparr>"
proof -
  have "snd (runs (schedule_step utc_clock (js ''p'')) schedule_init [Sd_open_change True, Sd_pick Mode_slots, Sd_submit 5]) =
     [\<lparr>si_postId = js ''p'', si_runAt = None, si_toSlots = Some True\<rparr>]"
    by (simp add: schedule_init_def form_shown_def submit_disabled_def schedule_request_def)
  with schedule_exclusive [of utc_clock "js ''p''" "[Sd_open_change True, Sd_pick Mode_slots, Sd_submit 5]"]
  show ?thesis by simp
qed

text \<open>
  Closing the publish dialog while its request is pending loses the reset: the answer
  arrives after it, and the next time the dialog opens it shows the old result instead of the
  form.
\<close>

theorem schedule_stale_result:
  assumes "sd_pending s" and "sd_open s"
  shows "sd_scheduled (fst (runs (schedule_step ck p) s [Sd_open_change False, Sd_settled (Inr jobs), Sd_open_change True]))
      = Some (length jobs) \<and>
    \<not> form_shown (fst (runs (schedule_step ck p) s [Sd_open_change False, Sd_settled (Inr jobs), Sd_open_change True]))"
  using assms by (simp add: schedule_reset_def form_shown_def)

theorem schedule_stale_result_witness:
  "\<not> form_shown (fst (runs (schedule_step utc_clock (js ''p''))
     (fst (runs (schedule_step utc_clock (js ''p'')) schedule_init [Sd_open_change True, Sd_submit 5]))
     [Sd_open_change False, Sd_settled (Inr []), Sd_open_change True]))"
  by (rule schedule_stale_result [THEN conjunct2])
     (simp_all add: schedule_init_def form_shown_def submit_disabled_def schedule_request_def)

text \<open>
  The week view shows every job of its days exactly once: the rows together hold, as a
  multiset, the fetched jobs that fall on a day of the range; a month cell accounts for all
  jobs of its day.
\<close>

theorem week_view_complete:
  assumes "\<forall>n. dt_day dt (dt_of_day dt n) = n"
  shows "mset (concat (map snd (week_rows dt jobs s))) =
      mset (filter (\<lambda>j. dt_day dt (rangeStart dt s) \<le> dt_day dt (dt_parse dt (jb_run_at j)) \<and>
        dt_day dt (dt_parse dt (jb_run_at j)) \<le> dt_day dt (rangeEnd dt s)) jobs) \<and>
    length (fst (month_cell dt jobs d)) + snd (month_cell dt jobs d) = length (jobsOn dt jobs d)"
proof -
  let ?f = "\<lambda>j. dt_day dt (dt_parse dt (jb_run_at j))"
  let ?ds = "[dt_day dt (rangeStart dt s)..dt_day dt (rangeEnd dt s)]"
  have "concat (map snd (week_rows dt jobs s)) = concat (map (\<lambda>d. filter (\<lambda>j. ?f j = d) jobs) ?ds)"
    using assms by (simp add: week_rows_def concat_nonempty calendar_days_def jobsOn_def isSameDay_def comp_def)
  moreover have "mset (concat (map (\<lambda>d. filter (\<lambda>j. ?f j = d) jobs) ?ds)) = mset (filter (\<lambda>j. ?f j \<in> set ?ds) jobs)"
    by (rule mset_by_day) simp
  moreover have "length (take 2 xs) + (length xs - 2) = length xs" for xs :: "job list" by simp
  ultimately show ?thesis by (simp add: month_cell_def)
qed

text \<open>Dates as the number of their day.\<close>

definition day_numbers :: "int dates" where
  "day_numbers = \<lparr>dt_startOfMonth = (\<lambda>d. d), dt_endOfMonth = (\<lambda>d. d + 29), dt_startOfWeek = (\<lambda>d. d - d mod 7),
     dt_endOfWeek = (\<lambda>d. d - d mod 7 + 6), dt_addDays = (+), dt_addWeeks = (\<lambda>d n. d + 7 * n),
     dt_addMonths = (\<lambda>d n. d + 30 * n), dt_day = (\<lambda>d. d), dt_of_day = (\<lambda>d. d),
     dt_parse = (\<lambda>s. int (length s)), dt_iso = show_int\<rparr>"

definition sample_job :: "string \<Rightarrow> job" where
  "sample_job when = \<lparr>jb_id = js ''j'', jb_post_id = [], jb_channel_id = [], jb_run_at = js when, jb_status = Scheduled,
     jb_attempts = 0, jb_last_error = None, jb_created_at = []\<rparr>"

theorem week_view_complete_witness:
  "mset (concat (map snd (week_rows day_numbers [sample_job ''xx'', sample_job ''xxxxxxxxx'']
     \<lparr>ca_view = Week, ca_cursor = 3, ca_selectedDay = None\<rparr>))) = {#sample_job ''xx''#}"
proof -
  have "\<forall>n. dt_day day_numbers (dt_of_day day_numbers n) = n" by (simp add: day_numbers_def)
  from week_view_complete [OF this, THEN conjunct1, of "[sample_job ''xx'', sample_job ''xxxxxxxxx'']"
      "\<lparr>ca_view = Week, ca_cursor = 3, ca_selectedDay = None\<rparr>"]
  show ?thesis by (simp add: day_numbers_def rangeStart_def rangeEnd_def sample_job_def)
qed

text \<open>
  The slots manager only asks for slots that exist: in any run from its initial state,
  a slot it asks to create is on a day from Sunday to Saturday, on a channel of the workspace,
  at a time that was given.
\<close>

theorem slots_requests_valid:
  assumes "s = fst (runs (slots_step ws channels) (slots_init zone channels) es)"
  shows "snd (slots_step ws channels s Sm_add) = [] \<or>
    (snd (slots_step ws channels s Sm_add) = [m_call (useCreateSlot ws) (slot_request_of s)] \<and>
     sr_day_of_week (slot_request_of s) < 7 \<and> sr_channel_id (slot_request_of s) \<in> ch_id ` set channels \<and>
     truthy (sr_time_of_day (slot_request_of s)))"
proof -
  have "slots_inv channels (slots_init zone channels)"
    by (cases channels) (auto simp: slots_inv_def slots_init_def)
  then have "slots_inv channels s" using assms slots_runs_inv by simp
  then show ?thesis by (auto simp: slots_inv_def add_disabled_def slot_request_of_def)
qed

definition slot_channel :: channel where
  "slot_channel = \<lparr>ch_id = js ''c'', ch_platform = js ''twitter'', ch_platform_account_id = [], ch_handle = js ''h'',
     ch_display_name = [], ch_status = Active, ch_connected_by = None, ch_created_at = []\<rparr>"

theorem slots_requests_valid_witness:
  "\<exists>s. snd (slots_step (js ''w'') [slot_channel] s Sm_add) = [m_call (useCreateSlot (js ''w'')) (slot_request_of s)] \<and>
     sr_day_of_week (slot_request_of s) = 3 \<and> sr_day_of_week (slot_request_of s) < 7"
proof -
  let ?s = "fst (runs (slots_step (js ''w'') [slot_channel]) (slots_init (js ''UTC'') [slot_channel]) [Sm_day 3])"
  have "snd (slots_step (js ''w'') [slot_channel] ?s Sm_add) \<noteq> []" "sm_day ?s = 3"
    by (simp_all add: add_disabled_def slots_init_def slot_channel_def)
  then show ?thesis
    using slots_requests_valid [OF refl, of "js ''w''" "[slot_channel]" "js ''UTC''" "[Sm_day 3]"]
    by (intro exI [of _ ?s]) (simp only: slot_request_of_def slot_request.simps simp_thms)
qed

end
