(* ===== verification/MobileData.thy ===== *)
theory MobileData
  imports WebDataProps MobileClient
begin

text \<open>
  The data hooks of the mobile client (\<^verbatim>\<open>mobile/src/data/*.ts\<close>), with the prefix \<open>mob\<close>.
  They are the twins of the web hooks on the bearer client: signing in and out also change
  the session store, so those two are functions on it; the direct calls go through the
  same refresh-once exchange as \<open>authedFetch\<close>.
\<close>

section \<open>Auth\<close>

definition mob_useMe :: "(user api_result, user option) query_hook" where
  "mob_useMe = \<lparr>q_key = authKeys_me, q_enabled = True, q_call = get_call ''/api/v1/auth/me'' [] [],
     q_decode = (\<lambda>r. if ar_status r = 401 then Inr None else when_data mobile_normalizeError id r),
     q_retry = Some False, q_staleTime = Some 60000\<rparr>"

definition mob_login_call :: "credentials \<Rightarrow> remote" where
  "mob_login_call body = send_call ''POST'' ''/api/v1/auth/login'' [] (Some (credentials_json body))"

text \<open>
  \<open>useLogin\<close> after its response: the token pair is stored before the user is returned; a
  success without a token object is a type error of the host.
\<close>

definition mob_login :: "'k secure_store \<Rightarrow> token api_result \<Rightarrow> 'k session
    \<Rightarrow> (thrown + user option) \<times> 'k session \<times> user option cache_op list" where
  "mob_login ss r s =
     (case when_data mobile_normalizeError id r of
        Inl e \<Rightarrow> (Inl e, s, [])
      | Inr None \<Rightarrow> (Inl (JsError (js ''Cannot read properties of undefined'')), s, [])
      | Inr (Some t) \<Rightarrow>
          (Inr (tk_user t), saveSession ss (tk_access_token t) (tk_refresh_token t) s,
           [SetData authKeys_me (tk_user t)]))"

definition mob_useSignup :: "(credentials, user api_result, user option, unit) mutation_hook" where
  "mob_useSignup = \<lparr>m_call = (\<lambda>body. send_call ''POST'' ''/api/v1/auth/signup'' [] (Some (credentials_json body))),
     m_decode = when_data mobile_normalizeError id, m_onSuccess = (\<lambda>_ _. [])\<rparr>"

definition mob_useResendVerification :: "jstring \<Rightarrow> (jstring, response, unit, unit) mutation_hook" where
  "mob_useResendVerification origin = \<lparr>m_call = (\<lambda>email. Direct
       \<lparr>rq_method = js ''POST'', rq_url = origin @ js ''/api/v1/auth/verify-email/resend'',
        rq_headers = [(js ''Content-Type'', js ''application/json'')],
        rq_body = Some (JObj [(js ''email'', JStr email)])\<rparr>),
     m_decode = direct_void mobile_normalizeError, m_onSuccess = (\<lambda>_ _. [])\<rparr>"

text \<open>\<open>useLogout\<close> after its call: any response clears the session, a rejected call leaves it.\<close>

definition mob_logout :: "'k secure_store \<Rightarrow> thrown + response \<Rightarrow> 'k session
    \<Rightarrow> (thrown + unit) \<times> 'k session \<times> user option cache_op list" where
  "mob_logout ss r s =
     (case r of
        Inl e \<Rightarrow> (Inl e, s, [])
      | Inr _ \<Rightarrow> (Inr (), clearSession ss s, [SetData authKeys_me None, RemoveAll]))"

definition mob_useRequestReset :: "(jstring, unit api_result, unit, unit) mutation_hook" where
  "mob_useRequestReset = \<lparr>m_call = (\<lambda>email. send_call ''POST'' ''/api/v1/auth/password-reset/request'' []
       (Some (JObj [(js ''email'', JStr email)]))),
     m_decode = when_ok mobile_normalizeError, m_onSuccess = (\<lambda>_ _. [])\<rparr>"

definition mob_useConfirmReset :: "(jstring \<times> jstring, unit api_result, unit, unit) mutation_hook" where
  "mob_useConfirmReset = \<lparr>m_call = (\<lambda>(tok, pw). send_call ''POST'' ''/api/v1/auth/password-reset/confirm'' []
       (Some (JObj [(js ''token'', JStr tok), (js ''new_password'', JStr pw)]))),
     m_decode = when_ok mobile_normalizeError, m_onSuccess = (\<lambda>_ _. [])\<rparr>"

section \<open>Workspaces and members\<close>

definition mob_useWorkspaces :: "(workspace list api_result, workspace list) query_hook" where
  "mob_useWorkspaces = \<lparr>q_key = wsKeys_list, q_enabled = True, q_call = get_call ''/api/v1/workspaces/'' [] [],
     q_decode = when_data mobile_normalizeError (\<lambda>d. nullish d []), q_retry = None, q_staleTime = None\<rparr>"

definition memberKeys_list :: "jstring \<Rightarrow> key" where
  "memberKeys_list ws = ws_key ws [kseg ''members'']"

definition mob_useMembers :: "jstring option \<Rightarrow> (member list api_result, member list) query_hook" where
  "mob_useMembers ws = \<lparr>q_key = memberKeys_list (nullish ws []), q_enabled = truthy_opt ws,
     q_call = get_call ''/api/v1/workspaces/{workspaceID}/members'' (in_ws (nullish ws []) []) [],
     q_decode = when_data mobile_normalizeError (\<lambda>d. nullish d []), q_retry = None, q_staleTime = None\<rparr>"

definition mob_useAddMember :: "jstring \<Rightarrow> (jstring \<times> role, member api_result, member, unit) mutation_hook" where
  "mob_useAddMember ws = \<lparr>m_call = (\<lambda>(email, role). send_call ''POST'' ''/api/v1/workspaces/{workspaceID}/members''
       (in_ws ws []) (Some (JObj [(js ''email'', JStr email), (js ''role'', JStr (role_name role))]))),
     m_decode = when_inner mobile_normalizeError id,
     m_onSuccess = (\<lambda>_ _. [Invalidate (memberKeys_list ws)])\<rparr>"

section \<open>Channels\<close>

definition OAUTH_REDIRECT :: jstring where
  "OAUTH_REDIRECT = js ''postal://oauth-callback''"

definition mob_useChannels :: "jstring option \<Rightarrow> (channel list api_result, channel list) query_hook" where
  "mob_useChannels ws = \<lparr>q_key = channelKeys_list (nullish ws []), q_enabled = truthy_opt ws,
     q_call = get_call ''/api/v1/workspaces/{workspaceID}/channels/'' (in_ws (nullish ws []) []) [],
     q_decode = when_data mobile_normalizeError (\<lambda>d. nullish d []), q_retry = None, q_staleTime = None\<rparr>"

definition mob_useConnectChannel :: "jstring \<Rightarrow> (jstring, jstring option api_result, jstring, unit) mutation_hook" where
  "mob_useConnectChannel ws = \<lparr>m_call = (\<lambda>platform. send_call ''POST''
       ''/api/v1/workspaces/{workspaceID}/channels/connect'' (in_ws ws [])
       (Some (JObj [(js ''platform'', JStr platform), (js ''redirect_uri'', JStr OAUTH_REDIRECT)]))),
     m_decode = when_field mobile_normalizeError, m_onSuccess = (\<lambda>_ _. [])\<rparr>"

definition mob_useCompleteOAuth :: "(jstring \<times> jstring, channel api_result, channel, unit) mutation_hook" where
  "mob_useCompleteOAuth = \<lparr>m_call = (\<lambda>(state, code). get_call ''/api/v1/channels/oauth/callback'' []
       [(js ''state'', Some state), (js ''code'', Some code)]),
     m_decode = when_inner mobile_normalizeError id,
     m_onSuccess = (\<lambda>_ _. [Invalidate [kseg ''workspaces'']])\<rparr>"

text \<open>The request is sent with the bearer token added, and once more after a refresh.\<close>

definition mob_useConnectManual :: "jstring \<Rightarrow> jstring
    \<Rightarrow> (jstring \<times> jstring obj, response, unit, unit) mutation_hook" where
  "mob_useConnectManual origin ws = \<lparr>m_call = (\<lambda>(platform, creds). Direct
       \<lparr>rq_method = js ''POST'',
        rq_url = origin @ js ''/api/v1/workspaces/'' @ ws @ js ''/channels/connect-manual'',
        rq_headers = [(js ''Content-Type'', js ''application/json'')],
        rq_body = Some (JObj [(js ''platform'', JStr platform),
                              (js ''credentials'', JObj (map (\<lambda>(k, v). (k, JStr v)) creds))])\<rparr>),
     m_decode = direct_void mobile_normalizeError,
     m_onSuccess = (\<lambda>_ _. [Invalidate (channelKeys_list ws)])\<rparr>"

definition mob_useDisconnectChannel :: "jstring \<Rightarrow> (jstring, unit api_result, unit, unit) mutation_hook" where
  "mob_useDisconnectChannel ws = \<lparr>m_call = (\<lambda>channelId. send_call ''DELETE''
       ''/api/v1/workspaces/{workspaceID}/channels/{channelID}''
       (in_ws ws [path_id ''channelID'' channelId]) None),
     m_decode = when_data mobile_normalizeError (\<lambda>_. ()),
     m_onSuccess = (\<lambda>_ _. [Invalidate (channelKeys_list ws)])\<rparr>"

section \<open>Posts\<close>

definition mob_usePosts :: "jstring option \<Rightarrow> (post list api_result, post list) query_hook" where
  "mob_usePosts ws = \<lparr>q_key = postKeys_list (nullish ws []), q_enabled = truthy_opt ws,
     q_call = get_call ''/api/v1/workspaces/{workspaceID}/posts/'' (in_ws (nullish ws []) []) [],
     q_decode = when_data mobile_normalizeError (\<lambda>d. nullish d []), q_retry = None, q_staleTime = None\<rparr>"

definition mob_usePost :: "jstring option \<Rightarrow> jstring option \<Rightarrow> (post api_result, post) query_hook" where
  "mob_usePost ws p = \<lparr>q_key = postKeys_detail (nullish ws []) (nullish p []),
     q_enabled = (truthy_opt ws \<and> truthy_opt p),
     q_call = get_call ''/api/v1/workspaces/{workspaceID}/posts/{postID}''
       (in_ws (nullish ws []) [path_id ''postID'' (nullish p [])]) [],
     q_decode = when_inner mobile_normalizeError id, q_retry = None, q_staleTime = None\<rparr>"

definition mob_useCreatePost :: "jstring \<Rightarrow> (variant_input list, post api_result, post, post) mutation_hook" where
  "mob_useCreatePost ws = \<lparr>m_call = (\<lambda>vs. send_call ''POST'' ''/api/v1/workspaces/{workspaceID}/posts/''
       (in_ws ws []) (Some (variants_json vs))),
     m_decode = when_inner mobile_normalizeError id,
     m_onSuccess = (\<lambda>_ _. [Invalidate (postKeys_list ws)])\<rparr>"

definition mob_useUpdatePost :: "jstring \<Rightarrow> (jstring \<times> variant_input list, post api_result, post, post) mutation_hook" where
  "mob_useUpdatePost ws = \<lparr>m_call = (\<lambda>(postId, vs). send_call ''PUT'' ''/api/v1/workspaces/{workspaceID}/posts/{postID}''
       (in_ws ws [path_id ''postID'' postId]) (Some (variants_json vs))),
     m_decode = when_inner mobile_normalizeError id,
     m_onSuccess = (\<lambda>_ post. [Invalidate (postKeys_list ws), SetData (postKeys_detail ws (po_id post)) post])\<rparr>"

definition mob_useDeletePost :: "jstring \<Rightarrow> (jstring, unit api_result, unit, post) mutation_hook" where
  "mob_useDeletePost ws = \<lparr>m_call = (\<lambda>postId. send_call ''DELETE'' ''/api/v1/workspaces/{workspaceID}/posts/{postID}''
       (in_ws ws [path_id ''postID'' postId]) None),
     m_decode = when_data mobile_normalizeError (\<lambda>_. ()),
     m_onSuccess = (\<lambda>_ _. [Invalidate (postKeys_list ws)])\<rparr>"

definition mob_useValidatePost :: "jstring \<Rightarrow> (jstring, variant_validation list option api_result,
    variant_validation list, unit) mutation_hook" where
  "mob_useValidatePost ws = \<lparr>m_call = (\<lambda>postId. send_call ''POST''
       ''/api/v1/workspaces/{workspaceID}/posts/{postID}/validate''
       (in_ws ws [path_id ''postID'' postId]) None),
     m_decode = when_inner mobile_normalizeError (\<lambda>d. nullish d []), m_onSuccess = (\<lambda>_ _. [])\<rparr>"

section \<open>Scheduling\<close>

definition mob_scheduleKeys_calendar :: "jstring \<Rightarrow> key" where
  "mob_scheduleKeys_calendar ws = ws_key ws [kseg ''calendar'']"

definition mob_useSchedulePost :: "jstring \<Rightarrow> (schedule_input, job list option api_result, job list, unit) mutation_hook" where
  "mob_useSchedulePost ws = \<lparr>m_call = (\<lambda>i. send_call ''POST'' ''/api/v1/workspaces/{workspaceID}/schedule'' (in_ws ws [])
       (Some (jobj [(js ''post_id'', Some (JStr (si_postId i))),
                    (js ''run_at'', map_option JStr (si_runAt i)),
                    (js ''to_slots'', map_option JBool (si_toSlots i))]))),
     m_decode = when_inner mobile_normalizeError (\<lambda>d. nullish d []),
     m_onSuccess = (\<lambda>_ _. [Invalidate (ws_key ws [kseg ''calendar'']), Invalidate (ws_key ws [kseg ''posts''])])\<rparr>"

definition mob_useCalendar :: "jstring option \<Rightarrow> jstring option \<Rightarrow> jstring option
    \<Rightarrow> (job list option api_result, job list) query_hook" where
  "mob_useCalendar ws from to = \<lparr>q_key = mob_scheduleKeys_calendar (nullish ws []) @ [KO (window from to)],
     q_enabled = truthy_opt ws,
     q_call = get_call ''/api/v1/workspaces/{workspaceID}/calendar'' (in_ws (nullish ws []) []) (window from to),
     q_decode = when_inner mobile_normalizeError (\<lambda>d. nullish d []), q_retry = None, q_staleTime = None\<rparr>"

definition mob_useCancelJob :: "jstring \<Rightarrow> (jstring, unit api_result, unit, unit) mutation_hook" where
  "mob_useCancelJob ws = \<lparr>m_call = (\<lambda>jobId. send_call ''DELETE''
       ''/api/v1/workspaces/{workspaceID}/scheduled-jobs/{jobID}'' (in_ws ws [path_id ''jobID'' jobId]) None),
     m_decode = when_data mobile_normalizeError (\<lambda>_. ()),
     m_onSuccess = (\<lambda>_ _. [Invalidate (ws_key ws [kseg ''calendar''])])\<rparr>"

section \<open>Media\<close>

definition mob_useMedia :: "jstring option \<Rightarrow> (asset list api_result, asset list) query_hook" where
  "mob_useMedia ws = \<lparr>q_key = mediaKeys_list (nullish ws []), q_enabled = truthy_opt ws,
     q_call = get_call ''/api/v1/workspaces/{workspaceID}/media/'' (in_ws (nullish ws []) []) [],
     q_decode = when_data mobile_normalizeError (\<lambda>d. nullish d []), q_retry = None, q_staleTime = None\<rparr>"

definition mediaSource :: "jstring \<Rightarrow> 'k session \<Rightarrow> jstring \<Rightarrow> jstring \<Rightarrow> request" where
  "mediaSource origin s ws mediaId = with_bearer (getAccessToken s)
     (plain_get (origin @ js ''/api/v1/workspaces/'' @ ws @ js ''/media/'' @ mediaId @ js ''/download''))"

text \<open>
  The upload runs the same exchange as \<open>authedFetch\<close> on its own request (the multipart body is
  the picked file); \<open>asset\<close> is \<open>body?.data\<close> of the final response.
\<close>

definition mob_upload_request :: "jstring \<Rightarrow> jstring \<Rightarrow> request" where
  "mob_upload_request origin ws =
     \<lparr>rq_method = js ''POST'', rq_url = origin @ js ''/api/v1/workspaces/'' @ ws @ js ''/media/'',
      rq_headers = [], rq_body = None\<rparr>"

definition mob_upload_settle :: "response \<Rightarrow> asset option \<Rightarrow> thrown + asset" where
  "mob_upload_settle res asset =
     (case asset of
        Some a \<Rightarrow> if rs_status res = 201 then Inr a else Inl (Normalized (mobile_normalizeError (rs_status res) (rs_json res)))
      | None \<Rightarrow> Inl (Normalized (mobile_normalizeError (rs_status res) (rs_json res))))"

definition mob_useDeleteMedia :: "jstring \<Rightarrow> (jstring, unit api_result, unit, unit) mutation_hook" where
  "mob_useDeleteMedia ws = \<lparr>m_call = (\<lambda>mediaId. send_call ''DELETE'' ''/api/v1/workspaces/{workspaceID}/media/{mediaID}''
       (in_ws ws [path_id ''mediaID'' mediaId]) None),
     m_decode = when_data mobile_normalizeError (\<lambda>_. ()),
     m_onSuccess = (\<lambda>_ _. [Invalidate (mediaKeys_list ws)])\<rparr>"

section \<open>Billing and analytics\<close>

definition mob_useWallet :: "jstring option \<Rightarrow> (wallet api_result, wallet) query_hook" where
  "mob_useWallet ws = \<lparr>q_key = billingKeys_wallet (nullish ws []), q_enabled = truthy_opt ws,
     q_call = get_call ''/api/v1/workspaces/{workspaceID}/billing/wallet'' (in_ws (nullish ws []) []) [],
     q_decode = when_inner mobile_normalizeError id, q_retry = None, q_staleTime = None\<rparr>"

definition mob_useLedger :: "jstring option \<Rightarrow> (ledger_entry list api_result, ledger_entry list) query_hook" where
  "mob_useLedger ws = \<lparr>q_key = billingKeys_ledger (nullish ws []), q_enabled = truthy_opt ws,
     q_call = get_call ''/api/v1/workspaces/{workspaceID}/billing/ledger'' (in_ws (nullish ws []) []) [],
     q_decode = when_data mobile_normalizeError (\<lambda>d. nullish d []), q_retry = None, q_staleTime = None\<rparr>"

definition mob_useAnalyticsOverview :: "jstring option \<Rightarrow> (post_metrics list option api_result, post_metrics list) query_hook" where
  "mob_useAnalyticsOverview ws = \<lparr>q_key = analyticsKeys_overview (nullish ws []), q_enabled = truthy_opt ws,
     q_call = get_call ''/api/v1/workspaces/{workspaceID}/analytics/'' (in_ws (nullish ws []) []) [],
     q_decode = when_inner mobile_normalizeError (\<lambda>d. nullish d []), q_retry = None, q_staleTime = None\<rparr>"

definition mob_usePostAnalytics :: "jstring option \<Rightarrow> jstring option
    \<Rightarrow> (channel_metrics list option api_result, channel_metrics list) query_hook" where
  "mob_usePostAnalytics ws p = \<lparr>q_key = analyticsKeys_post (nullish ws []) (nullish p []),
     q_enabled = (truthy_opt ws \<and> truthy_opt p),
     q_call = get_call ''/api/v1/workspaces/{workspaceID}/analytics/posts/{postID}''
       (in_ws (nullish ws []) [path_id ''postID'' (nullish p [])]) [],
     q_decode = when_inner mobile_normalizeError (\<lambda>d. nullish d []), q_retry = None, q_staleTime = None\<rparr>"

section \<open>Governance\<close>

definition mob_useMemberChannels :: "jstring \<Rightarrow> jstring \<Rightarrow> jstring \<Rightarrow> (response, json option) query_hook" where
  "mob_useMemberChannels origin ws user = \<lparr>q_key = governanceKeys_channels ws user, q_enabled = (truthy ws \<and> truthy user),
     q_call = Direct (plain_get (origin @ member_channels_url ws user)),
     q_decode = direct_json mobile_normalizeError, q_retry = None, q_staleTime = None\<rparr>"

definition mob_useSetMemberChannels :: "jstring \<Rightarrow> jstring \<Rightarrow> jstring
    \<Rightarrow> (bool \<times> jstring list, response, json option, unit) mutation_hook" where
  "mob_useSetMemberChannels origin ws user = \<lparr>m_call = (\<lambda>(restricted, ids). Direct
       \<lparr>rq_method = js ''PUT'', rq_url = origin @ member_channels_url ws user,
        rq_headers = [(js ''Content-Type'', js ''application/json'')],
        rq_body = Some (JObj [(js ''restricted'', JBool restricted),
                              (js ''channel_ids'', JArr (map JStr ids))])\<rparr>),
     m_decode = direct_json mobile_normalizeError,
     m_onSuccess = (\<lambda>_ _. [Invalidate (governanceKeys_channels ws user)])\<rparr>"

definition mob_useActivity :: "jstring \<Rightarrow> jstring option \<Rightarrow> (response, json option) query_hook" where
  "mob_useActivity origin ws = \<lparr>q_key = governanceKeys_activity (nullish ws []), q_enabled = truthy_opt ws,
     q_call = Direct (plain_get (origin @ js ''/api/v1/workspaces/'' @ nullish ws [] @ js ''/activity'')),
     q_decode = direct_json mobile_normalizeError, q_retry = None, q_staleTime = None\<rparr>"

section \<open>Properties\<close>

lemmas mob_query_defs =
  mob_useMe_def mob_useWorkspaces_def mob_useMembers_def mob_useChannels_def mob_usePosts_def mob_usePost_def
  mob_useCalendar_def mob_useMedia_def mob_useWallet_def mob_useLedger_def mob_useAnalyticsOverview_def
  mob_usePostAnalytics_def mob_useMemberChannels_def mob_useActivity_def

lemmas mob_mutation_defs =
  mob_useCompleteOAuth_def mob_useDisconnectChannel_def mob_useCreatePost_def mob_useUpdatePost_def
  mob_useDeletePost_def mob_useValidatePost_def mob_useSchedulePost_def mob_useCancelJob_def
  mob_useDeleteMedia_def




end
