(* ===== verification/Doubles.thy ===== *)
theory Doubles
  imports Complex_Main "HOL-Library.Log_Nat" Prelude
begin

text \<open>
  The arithmetic of ECMAScript numbers the sources use for money: a double is a rational,
  and every operation rounds its exact result to 53 significant bits, to nearest, ties to
  even. Overflow and the subnormal range are out of reach of the amounts involved and are
  not modelled. \<open>Math.round\<close>, \<open>toFixed(2)\<close> and \<open>parseFloat\<close> complete the picture.
\<close>

section \<open>Rounding\<close>

definition pow2 :: "int \<Rightarrow> rat" where
  "pow2 i = (if 0 \<le> i then 2 ^ nat i else 1 / 2 ^ nat (- i))"

text \<open>The largest power of two not above a positive number.\<close>

definition exponent :: "rat \<Rightarrow> int" where
  "exponent x = (if 1 \<le> x then int (floorlog 2 (nat \<lfloor>x\<rfloor>)) - 1 else - int (ceillog2 (nat \<lceil>1 / x\<rceil>)))"

definition nearest_even :: "rat \<Rightarrow> int" where
  "nearest_even y = (let f = \<lfloor>y\<rfloor>; d = y - of_int f in if d < 1/2 \<or> (d = 1/2 \<and> even f) then f else f + 1)"

definition round_pos :: "rat \<Rightarrow> rat" where
  "round_pos x = (let u = pow2 (exponent x - 52) in of_int (nearest_even (x / u)) * u)"

definition double :: "rat \<Rightarrow> rat" where
  "double x = (if x = 0 then 0 else if 0 < x then round_pos x else - round_pos (- x))"

text \<open>\<open>Math.round\<close>: the nearest integer, ties towards positive infinity.\<close>

definition js_round :: "rat \<Rightarrow> int" where
  "js_round x = \<lfloor>x + 1/2\<rfloor>"

section \<open>Parsing and printing\<close>

definition is_digit :: "jchar \<Rightarrow> bool" where
  "is_digit c = (48 \<le> c \<and> c \<le> 57)"

definition digits_value :: "jstring \<Rightarrow> nat" where
  "digits_value ds = foldl (\<lambda>n c. 10 * n + (unat c - 48)) 0 ds"

text \<open>An optional sign, its factor and the rest.\<close>

definition take_sign :: "jstring \<Rightarrow> rat \<times> jstring" where
  "take_sign s = (case s of c # cs \<Rightarrow> if c = 45 then (-1, cs) else if c = 43 then (1, cs) else (1, s) | [] \<Rightarrow> (1, s))"

text \<open>An exponent part, when it is complete.\<close>

definition take_exponent :: "jstring \<Rightarrow> int" where
  "take_exponent s =
     (case s of
        c # cs \<Rightarrow>
          if c = 101 \<or> c = 69
          then let (sg, r) = take_sign cs; ds = takeWhile is_digit r
               in if sg = 1 then int (digits_value ds) else - int (digits_value ds)
          else 0
      | [] \<Rightarrow> 0)"

definition pow10 :: "int \<Rightarrow> rat" where
  "pow10 i = (if 0 \<le> i then 10 ^ nat i else 1 / 10 ^ nat (- i))"

text \<open>\<open>parseFloat(s)\<close> of a decimal literal, exact before rounding; \<open>None\<close> is \<open>NaN\<close>.\<close>

definition parse_decimal :: "jstring \<Rightarrow> rat option" where
  "parse_decimal s =
     (let (sg, r) = take_sign (dropWhile is_space s);
          ip = takeWhile is_digit r; r1 = drop (length ip) r;
          fp = (case r1 of c # cs \<Rightarrow> if c = 46 then takeWhile is_digit cs else [] | [] \<Rightarrow> []);
          r2 = (case r1 of c # cs \<Rightarrow> if c = 46 then drop (length fp) cs else r1 | [] \<Rightarrow> [])
      in if ip = [] \<and> fp = [] then None
         else Some (sg * of_nat (digits_value (ip @ fp)) * pow10 (take_exponent r2 - int (length fp))))"

definition parseFloat :: "jstring \<Rightarrow> rat option" where
  "parseFloat s = map_option double (parse_decimal s)"

text \<open>\<open>x.toFixed(2)\<close> of a number, as its hundredths and as text.\<close>

definition hundredths :: "rat \<Rightarrow> nat" where
  "hundredths x = nat \<lfloor>\<bar>x\<bar> * 100 + 1/2\<rfloor>"

definition toFixed2 :: "rat \<Rightarrow> jstring" where
  "toFixed2 x = (if x < 0 then js ''-'' else []) @ show_nat (hundredths x div 100) @ js ''.'' @
     show_nat (hundredths x mod 100 div 10) @ show_nat (hundredths x mod 10)"

section \<open>Lemmas\<close>

lemma pow2_pos [simp]: "0 < pow2 i"
  by (simp add: pow2_def)

lemma pow2_split: "pow2 (e - 52) = pow2 e / 2 ^ 52"
proof (cases "0 \<le> e - 52")
  case True
  then have "nat e = nat (e - 52) + 52" by simp
  with True show ?thesis by (simp add: pow2_def power_add)
next
  case False
  show ?thesis
  proof (cases "0 \<le> e")
    case True
    then have "(2::rat) ^ 52 = 2 ^ nat (52 - e) * 2 ^ nat e"
      using False by (simp add: power_add [symmetric] nat_add_distrib [symmetric])
    with True False show ?thesis by (simp add: pow2_def field_simps)
  next
    case neg: False
    then have "nat (52 - e) = nat (- e) + 52" by simp
    then have "(2::rat) ^ nat (52 - e) = 2 ^ nat (- e) * 2 ^ 52" by (simp only: power_add)
    with neg False show ?thesis by (simp add: pow2_def field_simps)
  qed
qed

lemma exponent_le:
  assumes "0 < x"
  shows "pow2 (exponent x) \<le> x"
proof (cases "1 \<le> x")
  case True
  let ?n = "nat \<lfloor>x\<rfloor>"
  have "0 < ?n" using True by simp
  then have "2 ^ (floorlog 2 ?n - 1) \<le> ?n" "0 < floorlog 2 ?n"
    using floorlog_bounds [of ?n 2] by (auto simp: floorlog_def)
  then have "(2::rat) ^ (floorlog 2 ?n - 1) \<le> of_nat ?n"
    by (metis of_nat_le_iff of_nat_numeral of_nat_power)
  also have "\<dots> \<le> x" using True by (simp add: of_nat_nat)
  finally show ?thesis using True \<open>0 < floorlog 2 ?n\<close>
    by (simp add: exponent_def pow2_def nat_diff_distrib')
next
  case False
  let ?n = "nat \<lceil>1 / x\<rceil>"
  have "1 / x \<le> of_nat ?n" by linarith
  also have "\<dots> \<le> 2 ^ ceillog2 ?n"
    using le_two_power_ceillog2 [of ?n] by (metis of_nat_le_iff of_nat_numeral of_nat_power)
  finally have "1 / 2 ^ ceillog2 ?n \<le> x" using assms by (simp add: field_simps)
  with False show ?thesis
    by (cases "ceillog2 ?n = 0") (simp_all add: exponent_def pow2_def)
qed

lemma nearest_even_error: "\<bar>of_int (nearest_even y) - y\<bar> \<le> 1 / 2"
proof (cases "y - of_int \<lfloor>y\<rfloor> < 1/2 \<or> (y - of_int \<lfloor>y\<rfloor> = 1/2 \<and> even \<lfloor>y\<rfloor>)")
  case True
  then have "nearest_even y = \<lfloor>y\<rfloor>" "y - of_int \<lfloor>y\<rfloor> \<le> 1/2" by (auto simp: nearest_even_def Let_def)
  moreover have "of_int \<lfloor>y\<rfloor> \<le> y" by simp
  ultimately show ?thesis by simp
next
  case False
  then have "nearest_even y = \<lfloor>y\<rfloor> + 1" by (simp add: nearest_even_def Let_def)
  moreover have "1/2 \<le> y - of_int \<lfloor>y\<rfloor>" using False by linarith
  moreover have "y < of_int \<lfloor>y\<rfloor> + 1" by linarith
  ultimately show ?thesis by simp
qed

lemma round_pos_error:
  assumes "0 < x"
  shows "\<bar>round_pos x - x\<bar> \<le> x / 2 ^ 53"
proof -
  let ?u = "pow2 (exponent x - 52)"
  have u: "?u = pow2 (exponent x) / 2 ^ 52" "0 < ?u" by (simp_all add: pow2_split)
  have "round_pos x - x = (of_int (nearest_even (x / ?u)) - x / ?u) * ?u"
    using less_imp_neq [OF u(2)] by (simp add: round_pos_def Let_def left_diff_distrib)
  then have "\<bar>round_pos x - x\<bar> = \<bar>of_int (nearest_even (x / ?u)) - x / ?u\<bar> * ?u"
    by (simp only: abs_mult abs_of_pos [OF u(2)])
  also have "\<dots> \<le> 1 / 2 * ?u" by (rule mult_right_mono [OF nearest_even_error less_imp_le [OF u(2)]])
  also have "\<dots> \<le> x / 2 ^ 53" using exponent_le [OF assms] u(1) by (simp add: field_simps)
  finally show ?thesis .
qed

lemma double_error: "\<bar>double x - x\<bar> \<le> \<bar>x\<bar> / 2 ^ 53"
proof (cases "0 < x")
  case False
  then show ?thesis using round_pos_error [of "- x"] by (auto simp: double_def)
qed (use round_pos_error in \<open>simp add: double_def\<close>)

lemma nearest_even_int [simp]: "nearest_even (of_int n) = n"
  by (simp add: nearest_even_def Let_def)

text \<open>Integers of up to 53 bits are doubles.\<close>

lemma double_nat:
  assumes "n < 2 ^ 53"
  shows "double (of_nat n) = of_nat n"
proof (cases "n = 0")
  case False
  let ?e = "exponent (of_nat n)"
  have "1 \<le> (of_nat n :: rat)" using False by simp
  then have e: "?e = int (floorlog 2 n) - 1" by (simp add: exponent_def)
  have "floorlog 2 n \<le> 53" using assms floorlog_leI [of n 2 53] by simp
  then have "?e - 52 \<le> 0" by (simp add: e)
  then have u: "pow2 (?e - 52) = 1 / 2 ^ nat (52 - ?e)" by (simp add: pow2_def)
  have "of_nat n / pow2 (?e - 52) = of_int (int n * 2 ^ nat (52 - ?e))" by (simp add: u)
  then have "nearest_even (of_nat n / pow2 (?e - 52)) = int n * 2 ^ nat (52 - ?e)"
    by (simp only: nearest_even_int)
  then show ?thesis using False by (simp add: double_def round_pos_def Let_def u)
qed (simp add: double_def)

lemma js_round_close: "\<bar>y - of_int n\<bar> < 1 / 2 \<Longrightarrow> js_round y = n"
  unfolding js_round_def by linarith

lemma js_round_ge: "of_int n - 1 / 2 \<le> y \<Longrightarrow> n \<le> js_round y"
  unfolding js_round_def by linarith

end
