(* ===== verification/Wallet.thy ===== *)
theory Wallet
  imports Doubles WebData
begin

text \<open>
  The wallet screen of the web client (\<^verbatim>\<open>features/wallet/wallet-screen.tsx\<close>): the two
  currencies, the conversion of an entered amount into credits in double arithmetic, the
  top-up form and the history rows, with the read-only wallet of the mobile app
  (\<^verbatim>\<open>mobile/src/app/(tabs)/more/wallet.tsx\<close>).
\<close>

section \<open>Currencies\<close>

definition CREDITS_PER_USD :: rat where
  "CREDITS_PER_USD = 100"

definition NGN_PER_USD :: rat where
  "NGN_PER_USD = 1500"

definition NGN_PER_CREDIT :: rat where
  "NGN_PER_CREDIT = double (NGN_PER_USD / CREDITS_PER_USD)"

record currency =
  cu_code :: jstring
  cu_symbol :: jstring
  cu_min :: nat
  cu_step :: nat
  cu_presets :: "nat list"
  cu_toCredits :: "rat \<Rightarrow> int"

definition USD :: currency where
  "USD = \<lparr>cu_code = js ''USD'', cu_symbol = js ''$'', cu_min = 1, cu_step = 1, cu_presets = [5, 10, 25, 50],
     cu_toCredits = (\<lambda>a. js_round (double (a * CREDITS_PER_USD)))\<rparr>"

definition NGN :: currency where
  "NGN = \<lparr>cu_code = js ''NGN'', cu_symbol = [0x20A6], cu_min = 1500, cu_step = 500,
     cu_presets = [1500, 5000, 10000, 25000],
     cu_toCredits = (\<lambda>a. js_round (double (a / NGN_PER_CREDIT)))\<rparr>"

fun CURRENCY :: "topup_provider \<Rightarrow> currency" where
  "CURRENCY Stripe = USD"
| "CURRENCY Paystack = NGN"
| "CURRENCY Dev = USD"

definition PROVIDERS :: "(topup_provider \<times> jstring \<times> jstring) list" where
  "PROVIDERS = [(Stripe, js ''Card (Stripe)'', js ''Cards worldwide, charged in USD.''),
     (Paystack, js ''Paystack'', js ''Cards and bank across Africa, charged in NGN.'')]"

definition creditsToUSD :: "int \<Rightarrow> jstring" where
  "creditsToUSD credits = js ''$'' @ toFixed2 (double (of_int credits / CREDITS_PER_USD))"

section \<open>The top-up form\<close>

record wallet_form =
  wf_provider :: topup_provider
  wf_amount :: jstring
  wf_error :: "json option"
  wf_pending :: bool

definition wallet_init :: wallet_form where
  "wallet_init = \<lparr>wf_provider = Stripe, wf_amount = js ''5'', wf_error = None, wf_pending = False\<rparr>"

text \<open>\<open>Number.parseFloat(amount) || 0\<close>.\<close>

definition numericAmount :: "wallet_form \<Rightarrow> rat" where
  "numericAmount f = nullish (parseFloat (wf_amount f)) 0"

definition credits :: "wallet_form \<Rightarrow> int" where
  "credits f = cu_toCredits (CURRENCY (wf_provider f)) (numericAmount f)"

definition belowMin :: "wallet_form \<Rightarrow> bool" where
  "belowMin f = (numericAmount f < of_nat (cu_min (CURRENCY (wf_provider f))))"

definition switchProvider :: "topup_provider \<Rightarrow> wallet_form \<Rightarrow> wallet_form" where
  "switchProvider next f = f\<lparr>wf_provider := next, wf_amount := show_nat (cu_min (CURRENCY next)), wf_error := None\<rparr>"

definition startTopup :: "topup_provider \<Rightarrow> wallet_form \<Rightarrow> wallet_form \<times> (topup_provider \<times> int) list" where
  "startTopup chosen f =
     (let c = CURRENCY chosen in
      if numericAmount f < of_nat (cu_min c)
      then (f\<lparr>wf_error := Some (JStr (js ''Minimum top-up is '' @ cu_symbol c @ show_nat (cu_min c) @ js ''.''))\<rparr>, [])
      else (f\<lparr>wf_error := None, wf_pending := True\<rparr>, [(chosen, cu_toCredits c (numericAmount f))]))"

text \<open>The two buttons; the development one exists outside production and ignores the minimum of the shown currency.\<close>

datatype wallet_event =
    Wf_provider topup_provider
  | Wf_type jstring
  | Wf_preset nat
  | Wf_buy
  | Wf_buy_dev
  | Wf_settled "thrown + jstring"

datatype wallet_cmd = Cmd_topup topup_provider int | Cmd_leave jstring

definition topup_cmds :: "wallet_form \<times> (topup_provider \<times> int) list \<Rightarrow> wallet_form \<times> wallet_cmd list" where
  "topup_cmds r = (fst r, map (\<lambda>(p, n). Cmd_topup p n) (snd r))"

fun wallet_step :: "bool \<Rightarrow> wallet_form \<Rightarrow> wallet_event \<Rightarrow> wallet_form \<times> wallet_cmd list" where
  "wallet_step production f (Wf_provider p) = (if p \<in> fst ` set PROVIDERS then switchProvider p f else f, [])"
| "wallet_step production f (Wf_type s) = (f\<lparr>wf_amount := s\<rparr>, [])"
| "wallet_step production f (Wf_preset n) =
     (if n \<in> set (cu_presets (CURRENCY (wf_provider f))) then f\<lparr>wf_amount := show_nat n\<rparr> else f, [])"
| "wallet_step production f Wf_buy =
     (if wf_pending f \<or> belowMin f then (f, []) else topup_cmds (startTopup (wf_provider f) f))"
| "wallet_step production f Wf_buy_dev =
     (if production \<or> wf_pending f then (f, []) else topup_cmds (startTopup Dev f))"
| "wallet_step production f (Wf_settled r) =
     (if \<not> wf_pending f then (f, [])
      else case r of
             Inl e \<Rightarrow> (f\<lparr>wf_error := Some (thrown_message e), wf_pending := False\<rparr>, [])
           | Inr url \<Rightarrow> (f\<lparr>wf_pending := False\<rparr>, [Cmd_leave url]))"

section \<open>What is shown\<close>

definition tiers :: "wallet option \<Rightarrow> (jstring \<times> int) list" where
  "tiers w =
     (let costs = (case w of None \<Rightarrow> [] | Some x \<Rightarrow> wl_publish_costs x)
      in List.map_filter (\<lambda>(l, k). case obj_get costs (js k) of
             None \<Rightarrow> None | Some v \<Rightarrow> if v = 0 then None else Some (l, v))
           [(js ''Plain X post'', ''twitter''), (js ''With media'', ''twitter_media''), (js ''With a link'', ''twitter_url'')])"

definition entry_label :: "ledger_kind \<Rightarrow> jstring" where
  "entry_label k = (case k of Topup \<Rightarrow> js ''Top-up'' | Publish_charge \<Rightarrow> js ''X publish''
     | Refund \<Rightarrow> js ''Refund'' | Adjustment \<Rightarrow> js ''Adjustment'')"

definition entry_amount :: "ledger_entry \<Rightarrow> jstring" where
  "entry_amount e = (if le_credits e > 0 then js ''+'' else []) @ show_int (le_credits e)"

definition mobile_KIND_LABEL :: "ledger_kind \<Rightarrow> jstring" where
  "mobile_KIND_LABEL k = (case k of Topup \<Rightarrow> js ''Top-up'' | Publish_charge \<Rightarrow> js ''X publish''
     | Refund \<Rightarrow> js ''Refund'' | Adjustment \<Rightarrow> js ''Adjustment'')"

definition mobile_balance_text :: "wallet \<Rightarrow> jstring" where
  "mobile_balance_text w = js ''$'' @ toFixed2 (double (of_int (wl_balance w) / 100)) @ js '' of publishing power''"

section \<open>Lemmas\<close>

lemma NGN_PER_CREDIT_eq [simp]: "NGN_PER_CREDIT = 15"
  using double_nat [of 15] by (simp add: NGN_PER_CREDIT_def NGN_PER_USD_def CREDITS_PER_USD_def)

lemma double_ge:
  assumes "100 \<le> x"
  shows "100 - 1 / 2 \<le> double x"
proof -
  have "\<bar>double x - x\<bar> \<le> x / 2 ^ 53" using double_error [of x] assms by simp
  then have "x - x / 2 ^ 53 \<le> double x" by linarith
  moreover have "100 * (1 - 1 / 2 ^ 53) \<le> x * (1 - 1 / 2 ^ 53)" using assms by (intro mult_right_mono) simp_all
  ultimately show ?thesis by (simp add: algebra_simps)
qed

lemma toCredits_min:
  assumes "of_nat (cu_min (CURRENCY p)) \<le> a"
  shows "100 \<le> cu_toCredits (CURRENCY p) a"
proof (cases p)
  case Paystack
  then have "100 \<le> a / 15" using assms by (simp add: NGN_def)
  from js_round_ge [of 100, simplified, OF double_ge [OF this, simplified]] Paystack show ?thesis
    by (simp add: NGN_def)
qed (use assms js_round_ge [of 100 "double (a * 100)"] double_ge [of "a * 100"] in
    \<open>simp_all add: USD_def CREDITS_PER_USD_def\<close>)

lemma double_near:
  assumes "0 \<le> x" and "x < 2 ^ 47"
  shows "\<bar>double x - x\<bar> < 1 / 60"
proof -
  have "\<bar>double x - x\<bar> \<le> x / 2 ^ 53" using double_error [of x] assms(1) by simp
  also have "\<dots> < 2 ^ 47 / 2 ^ 53" using assms(2) by (simp add: divide_strict_right_mono)
  finally show ?thesis by simp
qed

lemma usd_credits:
  assumes "n < 2 ^ 40"
  shows "cu_toCredits USD (of_nat n) = 100 * int n"
proof -
  have "double (of_nat (n * 100)) = of_nat (n * 100)"
    by (rule double_nat) (use assms in simp)
  then show ?thesis
    using js_round_close [of "of_nat (n * 100)" "int (n * 100)"]
    by (simp add: USD_def CREDITS_PER_USD_def)
qed

lemma ngn_credits:
  assumes "n < 2 ^ 40"
  shows "cu_toCredits NGN (of_nat n) = int ((n + 7) div 15)"
proof -
  let ?c = "(n + 7) div 15"
  have "15 * ?c \<le> n + 7" "n + 7 < 15 * ?c + 15" by (simp_all add: dividend_less_times_div)
  then have "(of_nat (15 * ?c) :: rat) \<le> of_nat (n + 7)" "(of_nat (n + 7) :: rat) \<le> of_nat (15 * ?c + 14)"
    by (intro of_nat_mono; simp)+
  then have "\<bar>of_nat n / 15 - of_nat ?c\<bar> \<le> (7 / 15 :: rat)" by (simp add: abs_le_iff field_simps)
  moreover have "\<bar>double (of_nat n / 15) - of_nat n / 15\<bar> < (1 / 60 :: rat)"
  proof (rule double_near)
    have "(of_nat n :: rat) < of_nat (2 ^ 40)" using assms by (simp only: of_nat_less_iff)
    then show "(of_nat n / 15 :: rat) < 2 ^ 47" by simp
  qed simp
  ultimately have "\<bar>double (of_nat n / 15) - of_nat ?c\<bar> < (1 / 2 :: rat)" by linarith
  then have "\<bar>double (of_nat n / 15) - of_int (int ?c)\<bar> < (1 / 2 :: rat)" by (simp only: of_int_of_nat_eq)
  then show ?thesis using js_round_close by (simp add: NGN_def)
qed

text \<open>The amount box holds what \<open>String(n)\<close> printed: reading it back gives \<open>n\<close>.\<close>

lemma is_digit_char [simp]: "d < 10 \<Longrightarrow> is_digit (digit_char d)"
proof -
  assume "d < 10"
  then have "d \<in> {0, 1, 2, 3, 4, 5, 6, 7, 8, 9}" by auto
  then show ?thesis by (auto simp: is_digit_def digit_char_def)
qed

lemma unat_digit_char [simp]: "d < 10 \<Longrightarrow> unat (digit_char d) - 48 = d"
proof -
  assume "d < 10"
  then have "d \<in> {0, 1, 2, 3, 4, 5, 6, 7, 8, 9}" by auto
  then show ?thesis by (auto simp: digit_char_def)
qed

lemma show_nat_digits: "\<forall>c\<in>set (show_nat n). is_digit c"
  by (induction n rule: show_nat.induct) (subst show_nat.simps, auto)

lemma digits_value_show: "digits_value (show_nat n) = n"
  by (induction n rule: show_nat.induct) (subst show_nat.simps, auto simp: digits_value_def)

lemma digit_not_special:
  assumes "is_digit c"
  shows "\<not> is_space c" "c \<noteq> 45" "c \<noteq> 43"
proof -
  have "unat c \<in> {48..57}" using assms by (simp add: is_digit_def word_le_nat_alt)
  then have "unat c = 48 \<or> unat c = 49 \<or> unat c = 50 \<or> unat c = 51 \<or> unat c = 52 \<or> unat c = 53 \<or>
      unat c = 54 \<or> unat c = 55 \<or> unat c = 56 \<or> unat c = 57" by simp arith
  then have "c \<in> of_nat ` {48, 49, 50, 51, 52, 53, 54, 55, 56, 57}" by (metis image_eqI insertI1 insertI2 of_nat_unat ucast_id)
  then have "c \<in> {48, 49, 50, 51, 52, 53, 54, 55, 56, 57}" by auto
  then show "\<not> is_space c" "c \<noteq> 45" "c \<noteq> 43" by (auto simp: is_space_def)
qed

lemma parseFloat_show:
  assumes "n < 2 ^ 53"
  shows "parseFloat (show_nat n) = Some (of_nat n)"
proof -
  obtain c cs where s: "show_nat n = c # cs" by (cases "show_nat n") auto
  have c: "is_digit c" using show_nat_digits [of n] s by simp
  have tw: "takeWhile is_digit (show_nat n) = show_nat n" using show_nat_digits takeWhile_eq_all_conv by blast
  have start: "dropWhile is_space (show_nat n) = show_nat n" "take_sign (show_nat n) = (1, show_nat n)"
    using digit_not_special [OF c] by (simp_all add: s take_sign_def)
  have "take_exponent [] = 0" by (simp add: take_exponent_def)
  then have "parse_decimal (show_nat n) = Some (of_nat n)"
    by (simp add: parse_decimal_def Let_def tw start digits_value_show pow10_def)
  then show ?thesis using double_nat [OF assms] by (simp add: parseFloat_def)
qed

lemma startTopup_credits:
  "(q, n) \<in> set (snd (startTopup p f)) \<Longrightarrow> q = p \<and> 100 \<le> n \<and> n = cu_toCredits (CURRENCY p) (numericAmount f)"
  using toCredits_min by (auto simp: startTopup_def Let_def not_less split: if_splits)

lemma wallet_step_credits:
  "Cmd_topup q n \<in> set (snd (wallet_step production f e)) \<Longrightarrow> 100 \<le> n"
  by (cases e) (auto simp: topup_cmds_def split: if_splits sum.splits dest: startTopup_credits)

fun wallet_run :: "bool \<Rightarrow> wallet_form \<Rightarrow> wallet_event list \<Rightarrow> wallet_form \<times> wallet_cmd list" where
  "wallet_run production f [] = (f, [])"
| "wallet_run production f (e # es) =
     (case wallet_step production f e of (f1, out1) \<Rightarrow>
       (case wallet_run production f1 es of (f2, out2) \<Rightarrow> (f2, out1 @ out2)))"

lemma wallet_run_credits: "Cmd_topup q n \<in> set (snd (wallet_run production f es)) \<Longrightarrow> 100 \<le> n"
proof (induction es arbitrary: f)
  case (Cons e es)
  then show ?case using wallet_step_credits [of q n production f e] by (auto simp: case_prod_beta)
qed simp

section \<open>Properties\<close>





text \<open>
  The development top-up reads the amount as dollars even when the form shows naira: right
  after switching to Paystack it asks for one hundred and fifty thousand credits, a hundred times
  what the same form offers to buy.
\<close>

theorem dev_topup_ignores_currency:
  "snd (wallet_run False wallet_init [Wf_provider Paystack, Wf_buy_dev]) = [Cmd_topup Dev 150000] \<and>
   snd (wallet_run False wallet_init [Wf_provider Paystack, Wf_buy]) = [Cmd_topup Paystack 100]"
proof -
  have amount: "parseFloat (show_nat 1500) = Some 1500" using parseFloat_show [of 1500] by simp
  have "cu_toCredits USD 1500 = 150000" using usd_credits [of 1500] by simp
  moreover have "cu_toCredits NGN 1500 = 100" using ngn_credits [of 1500] by simp
  moreover have "cu_min NGN = 1500" "cu_min USD = 1" by (simp_all add: NGN_def USD_def)
  ultimately show ?thesis
    by (simp add: wallet_init_def PROVIDERS_def switchProvider_def startTopup_def topup_cmds_def belowMin_def
        numericAmount_def amount)
qed

end
