(* ===== verification/AuthForms.thy ===== *)
theory AuthForms
  imports Confirm MobileData
begin

text \<open>
  The sign-in, sign-up and password-reset forms of both clients:
  \<^verbatim>\<open>web/src/features/auth/\<close> (\<^verbatim>\<open>schemas.ts\<close>, \<^verbatim>\<open>form-errors.ts\<close> and the four
  forms) and \<^verbatim>\<open>mobile/src/app/(auth)/\<close>. A form is a state and a step on events: a submit
  with the values of its inputs, and the outcome of the call. \<open>z.email\<close> is a
  parameter of the schemas; of \<open>react-hook-form\<close> only what the forms use is here: the
  handler runs on values the resolver accepts, a rejected handler ends the submission. The
  contract all seven forms share is the locale \<open>guarded_form\<close>.
\<close>

section \<open>Schemas\<close>

type_synonym form_errors = "json option obj"

definition email_issue :: "(jstring \<Rightarrow> bool) \<Rightarrow> jstring \<Rightarrow> form_errors" where
  "email_issue valid_email v =
     (if valid_email v then [] else [(js ''email'', Some (JStr (js ''Enter a valid email address'')))])"

definition min_issue :: "string \<Rightarrow> nat \<Rightarrow> string \<Rightarrow> jstring \<Rightarrow> form_errors" where
  "min_issue field n message v = (if n \<le> length v then [] else [(js field, Some (JStr (js message)))])"

definition loginSchema :: "(jstring \<Rightarrow> bool) \<Rightarrow> credentials \<Rightarrow> form_errors" where
  "loginSchema valid_email v =
     email_issue valid_email (cr_email v) @ min_issue ''password'' 1 ''Password is required'' (cr_password v)"

definition signupSchema :: "(jstring \<Rightarrow> bool) \<Rightarrow> credentials \<Rightarrow> form_errors" where
  "signupSchema valid_email v =
     email_issue valid_email (cr_email v) @ min_issue ''password'' 8 ''Use at least 8 characters'' (cr_password v)"

definition requestResetSchema :: "(jstring \<Rightarrow> bool) \<Rightarrow> jstring \<Rightarrow> form_errors" where
  "requestResetSchema valid_email v = email_issue valid_email v"

definition confirmResetSchema :: "jstring \<Rightarrow> form_errors" where
  "confirmResetSchema v = min_issue ''new_password'' 8 ''Use at least 8 characters'' v"

section \<open>The forms\<close>

datatype effect = Call remote | Navigate jstring | Unhandled thrown

datatype ('v, 'o) form_event = Submit 'v | Settled "thrown + 'o" | Back

text \<open>\<open>fm_running\<close> holds the values of the submission under way; \<open>isSubmitting\<close> says there is one.\<close>

record 'v form =
  fm_errors :: form_errors
  fm_formError :: "json option"
  fm_running :: "'v option"

record login_form = "credentials form" +
  lf_unverifiedEmail :: "jstring option"

record signup_form = "credentials form" +
  sf_done :: bool
  sf_email :: jstring

record reset_form = "jstring form" +
  rf_done :: bool

definition isSubmitting :: "('v, 'a) form_scheme \<Rightarrow> bool" where
  "isSubmitting f = (fm_running f \<noteq> None)"

text \<open>
  \<open>Object.entries\<close> of an absent \<open>fieldErrors\<close> throws; otherwise every entry is set on
  the form, rendered or not.
\<close>

definition applyServerErrors :: "thrown \<Rightarrow> form_errors \<Rightarrow> thrown + bool \<times> form_errors" where
  "applyServerErrors e errs =
     (case thrown_fieldErrors e of
        None \<Rightarrow> Inl (JsError (js ''Cannot convert undefined or null to object''))
      | Some entries \<Rightarrow> Inr (entries \<noteq> [], fold (\<lambda>p. obj_set (fst p) (snd p)) entries errs))"

text \<open>The submit of \<open>handleSubmit\<close>: the resolver's errors, or the handler up to its call.\<close>

definition handleSubmit :: "('v \<Rightarrow> form_errors) \<Rightarrow> ('v \<Rightarrow> remote) \<Rightarrow> 'v \<Rightarrow> ('v, 'a) form_scheme
    \<Rightarrow> ('v, 'a) form_scheme \<times> effect list" where
  "handleSubmit schema call v f =
     (if isSubmitting f then (f, [])
      else if schema v \<noteq> [] then (f\<lparr>fm_errors := schema v\<rparr>, [])
      else (f\<lparr>fm_errors := [], fm_formError := None, fm_running := Some v\<rparr>, [Call (call v)]))"

text \<open>The catch branch of sign-up and confirm-reset, and the tail of sign-in's.\<close>

definition catch_server_errors :: "thrown \<Rightarrow> ('v, 'a) form_scheme \<Rightarrow> ('v, 'a) form_scheme \<times> effect list" where
  "catch_server_errors e f =
     (case applyServerErrors e (fm_errors f) of
        Inl te \<Rightarrow> (f, [Unhandled te])
      | Inr (applied, errs) \<Rightarrow>
          (f\<lparr>fm_errors := errs, fm_formError := (if applied then fm_formError f else Some (thrown_message e))\<rparr>, []))"

fun LoginForm :: "(jstring \<Rightarrow> bool) \<Rightarrow> login_form \<Rightarrow> (credentials, user option) form_event
    \<Rightarrow> login_form \<times> effect list" where
  "LoginForm valid_email f (Submit v) =
     (if truthy_opt (lf_unverifiedEmail f) then (f, [])
      else handleSubmit (loginSchema valid_email) (m_call useLogin) v f)"
| "LoginForm valid_email f (Settled r) =
     (case fm_running f of
        None \<Rightarrow> (f, [])
      | Some v \<Rightarrow>
          (case r of
             Inr _ \<Rightarrow> (f\<lparr>fm_running := None\<rparr>, [Navigate (js ''/'')])
           | Inl e \<Rightarrow>
               if thrown_code e = Some (JStr (js ''email_not_verified''))
               then (f\<lparr>fm_running := None, lf_unverifiedEmail := Some (cr_email v)\<rparr>, [])
               else catch_server_errors e (f\<lparr>fm_running := None\<rparr>)))"
| "LoginForm valid_email f Back = (f\<lparr>lf_unverifiedEmail := None\<rparr>, [])"

fun SignupForm :: "(jstring \<Rightarrow> bool) \<Rightarrow> signup_form \<Rightarrow> (credentials, user option) form_event
    \<Rightarrow> signup_form \<times> effect list" where
  "SignupForm valid_email f (Submit v) =
     (if sf_done f then (f, []) else handleSubmit (signupSchema valid_email) (m_call useSignup) v f)"
| "SignupForm valid_email f (Settled r) =
     (case fm_running f of
        None \<Rightarrow> (f, [])
      | Some v \<Rightarrow>
          (case r of
             Inr _ \<Rightarrow> (f\<lparr>fm_running := None, sf_email := cr_email v, sf_done := True\<rparr>, [])
           | Inl e \<Rightarrow> catch_server_errors e (f\<lparr>fm_running := None\<rparr>)))"
| "SignupForm valid_email f Back = (f, [])"

text \<open>Without a token the form is not rendered.\<close>

fun ConfirmResetForm :: "jstring \<Rightarrow> reset_form \<Rightarrow> (jstring, unit) form_event \<Rightarrow> reset_form \<times> effect list" where
  "ConfirmResetForm token f (Submit v) =
     (if token = [] \<or> rf_done f then (f, [])
      else handleSubmit confirmResetSchema (\<lambda>pw. m_call useConfirmReset (token, pw)) v f)"
| "ConfirmResetForm token f (Settled r) =
     (case fm_running f of
        None \<Rightarrow> (f, [])
      | Some v \<Rightarrow>
          (case r of
             Inr _ \<Rightarrow> (f\<lparr>fm_running := None, rf_done := True\<rparr>, [])
           | Inl e \<Rightarrow> catch_server_errors e (f\<lparr>fm_running := None\<rparr>)))"
| "ConfirmResetForm token f Back = (f, [])"

fun RequestResetForm :: "(jstring \<Rightarrow> bool) \<Rightarrow> reset_form \<Rightarrow> (jstring, unit) form_event \<Rightarrow> reset_form \<times> effect list" where
  "RequestResetForm valid_email f (Submit v) =
     (if rf_done f then (f, []) else handleSubmit (requestResetSchema valid_email) (m_call useRequestReset) v f)"
| "RequestResetForm valid_email f (Settled r) =
     (case fm_running f of
        None \<Rightarrow> (f, [])
      | Some v \<Rightarrow>
          (case r of
             Inr _ \<Rightarrow> (f\<lparr>fm_running := None, rf_done := True\<rparr>, [])
           | Inl e \<Rightarrow> (f\<lparr>fm_running := None, fm_formError := Some (thrown_message e)\<rparr>, [])))"
| "RequestResetForm valid_email f Back = (f, [])"


section \<open>The mobile screens\<close>

record sent_form = "credentials form" +
  mf_sentEmail :: "jstring option"

text \<open>The mobile forms parse the inputs themselves; the button is disabled while loading.\<close>

definition mob_submit :: "('v \<Rightarrow> form_errors) \<Rightarrow> ('v \<Rightarrow> remote) \<Rightarrow> 'v \<Rightarrow> ('v, 'a) form_scheme
    \<Rightarrow> ('v, 'a) form_scheme \<times> effect list" where
  "mob_submit schema call v f =
     (if isSubmitting f then (f, [])
      else if schema v \<noteq> [] then (f\<lparr>fm_formError := None, fm_errors := schema v\<rparr>, [])
      else (f\<lparr>fm_formError := None, fm_errors := [], fm_running := Some v\<rparr>, [Call (call v)]))"

fun LoginScreen :: "(jstring \<Rightarrow> bool) \<Rightarrow> login_form \<Rightarrow> (credentials, user option) form_event
    \<Rightarrow> login_form \<times> effect list" where
  "LoginScreen valid_email f (Submit v) =
     (if truthy_opt (lf_unverifiedEmail f) then (f, [])
      else mob_submit (loginSchema valid_email) mob_login_call v f)"
| "LoginScreen valid_email f (Settled r) =
     (case fm_running f of
        None \<Rightarrow> (f, [])
      | Some v \<Rightarrow>
          (case r of
             Inr _ \<Rightarrow> (f\<lparr>fm_running := None\<rparr>, [Navigate (js ''/'')])
           | Inl e \<Rightarrow>
               if thrown_code e = Some (JStr (js ''email_not_verified''))
               then (f\<lparr>fm_running := None, lf_unverifiedEmail := Some (cr_email v)\<rparr>, [])
               else (f\<lparr>fm_running := None, fm_formError := Some (thrown_message e)\<rparr>, [])))"
| "LoginScreen valid_email f Back = (f\<lparr>lf_unverifiedEmail := None\<rparr>, [])"

fun SignupScreen :: "(jstring \<Rightarrow> bool) \<Rightarrow> sent_form \<Rightarrow> (credentials, user option) form_event
    \<Rightarrow> sent_form \<times> effect list" where
  "SignupScreen valid_email f (Submit v) =
     (if truthy_opt (mf_sentEmail f) then (f, [])
      else mob_submit (signupSchema valid_email) (m_call mob_useSignup) v f)"
| "SignupScreen valid_email f (Settled r) =
     (case fm_running f of
        None \<Rightarrow> (f, [])
      | Some v \<Rightarrow>
          (case r of
             Inr _ \<Rightarrow> (f\<lparr>fm_running := None, mf_sentEmail := Some (cr_email v)\<rparr>, [])
           | Inl e \<Rightarrow> (f\<lparr>fm_running := None, fm_formError := Some (thrown_message e)\<rparr>, [])))"
| "SignupScreen valid_email f Back =
     (f, if truthy_opt (mf_sentEmail f) then [Navigate (js ''/login'')] else [])"

text \<open>The reset screen has one error, the first issue of the schema or the message of the failure.\<close>

fun ResetScreen :: "(jstring \<Rightarrow> bool) \<Rightarrow> reset_form \<Rightarrow> (jstring, unit) form_event \<Rightarrow> reset_form \<times> effect list" where
  "ResetScreen valid_email f (Submit v) =
     (if rf_done f \<or> isSubmitting f then (f, [])
      else case requestResetSchema valid_email v of
             (_, message) # _ \<Rightarrow> (f\<lparr>fm_formError := message\<rparr>, [])
           | [] \<Rightarrow> (f\<lparr>fm_formError := None, fm_running := Some v\<rparr>, [Call (m_call mob_useRequestReset v)]))"
| "ResetScreen valid_email f (Settled r) =
     (case fm_running f of
        None \<Rightarrow> (f, [])
      | Some v \<Rightarrow>
          (case r of
             Inr _ \<Rightarrow> (f\<lparr>fm_running := None, rf_done := True\<rparr>, [])
           | Inl e \<Rightarrow> (f\<lparr>fm_running := None, fm_formError := Some (thrown_message e)\<rparr>, [])))"
| "ResetScreen valid_email f Back = (f, [])"

section \<open>The contract\<close>

fun calls :: "effect list \<Rightarrow> remote list" where
  "calls [] = []"
| "calls (Call c # es) = c # calls es"
| "calls (_ # es) = calls es"

lemma calls_append [simp]: "calls (a @ b) = calls a @ calls b"
  by (induction a rule: calls.induct) auto

fun settled :: "('v, 'o) form_event list \<Rightarrow> nat" where
  "settled [] = 0"
| "settled (Settled r # es) = Suc (settled es)"
| "settled (_ # es) = settled es"

text \<open>
  What a form promises to its endpoint: it calls only when idle and only with values its schema
  accepts, and while a call is under way nothing but its outcome ends it.
\<close>

locale guarded_form =
  fixes step :: "'s \<Rightarrow> ('v, 'o) form_event \<Rightarrow> 's \<times> effect list"
    and running :: "'s \<Rightarrow> 'v option"
    and schema :: "'v \<Rightarrow> form_errors"
    and call :: "'v \<Rightarrow> remote"
  assumes idle: "running s = None \<Longrightarrow>
      (\<exists>v. e = Submit v \<and> schema v = [] \<and> calls (snd (step s e)) = [call v] \<and> running (fst (step s e)) = Some v) \<or>
      calls (snd (step s e)) = [] \<and> running (fst (step s e)) = None"
    and busy: "running s = Some v \<Longrightarrow> calls (snd (step s e)) = [] \<and>
      running (fst (step s e)) = (case e of Settled r \<Rightarrow> None | _ \<Rightarrow> Some v)"
begin

lemma runs_calls: "set (calls (snd (runs step s es))) \<subseteq> {call v |v. Submit v \<in> set es \<and> schema v = []}"
proof (induction es arbitrary: s)
  case (Cons e es)
  have "set (calls (snd (step s e))) \<subseteq> {call v |v. e = Submit v \<and> schema v = []}"
    by (cases "running s") (use idle [of s e] busy [of s _ e] in auto)
  with Cons.IH [of "fst (step s e)"] show ?case by (fastforce simp: case_prod_beta)
qed simp

lemma runs_one_in_flight:
  "length (calls (snd (runs step s es))) + (if running s = None then 0 else 1) \<le> 1 + settled es"
proof (induction es arbitrary: s)
  case (Cons e es)
  show ?case
  proof (cases "running s")
    case None
    then show ?thesis
      using idle [OF None, of e] Cons.IH [of "fst (step s e)"] by (cases e) (auto simp: case_prod_beta)
  next
    case (Some v)
    then show ?thesis
      using busy [OF Some, of e] Cons.IH [of "fst (step s e)"] by (cases e) (auto simp: case_prod_beta)
  qed
qed simp

end


lemmas form_defs = handleSubmit_def mob_submit_def isSubmitting_def

lemma guarded_formI:
  assumes "\<And>s v. running s = None \<Longrightarrow>
      schema v = [] \<and> calls (snd (step s (Submit v))) = [call v] \<and> running (fst (step s (Submit v))) = Some v \<or>
      calls (snd (step s (Submit v))) = [] \<and> running (fst (step s (Submit v))) = None"
    and "\<And>s v w. running s = Some w \<Longrightarrow>
      calls (snd (step s (Submit v))) = [] \<and> running (fst (step s (Submit v))) = Some w"
    and "\<And>s r. calls (snd (step s (Settled r))) = [] \<and> running (fst (step s (Settled r))) = None"
    and "\<And>s. calls (snd (step s Back)) = [] \<and> running (fst (step s Back)) = running s"
  shows "guarded_form step running schema call"
proof
  fix s e v
  show "running s = None \<Longrightarrow>
      (\<exists>v. e = Submit v \<and> schema v = [] \<and> calls (snd (step s e)) = [call v] \<and> running (fst (step s e)) = Some v) \<or>
      calls (snd (step s e)) = [] \<and> running (fst (step s e)) = None"
    using assms by (cases e) auto
  show "running s = Some v \<Longrightarrow> calls (snd (step s e)) = [] \<and>
      running (fst (step s e)) = (case e of Settled r \<Rightarrow> None | _ \<Rightarrow> Some v)"
    using assms by (cases e) auto
qed

lemma catch_laws [simp]:
  "calls (snd (catch_server_errors e f)) = []"
  "fm_running (fst (catch_server_errors e f)) = fm_running f"
  by (auto simp: catch_server_errors_def split: sum.split prod.split)

interpretation login: guarded_form "LoginForm valid_email" fm_running "loginSchema valid_email" "m_call useLogin"
  for valid_email
  by (rule guarded_formI) (auto simp: form_defs split: option.split sum.split)

interpretation signup: guarded_form "SignupForm valid_email" fm_running "signupSchema valid_email" "m_call useSignup"
  for valid_email
  by (rule guarded_formI) (auto simp: form_defs split: option.split sum.split)

interpretation confirm_reset: guarded_form "ConfirmResetForm tok" fm_running confirmResetSchema
    "\<lambda>pw. m_call useConfirmReset (tok, pw)"
  for tok
  by (rule guarded_formI) (auto simp: form_defs split: option.split sum.split)

interpretation request_reset: guarded_form "RequestResetForm valid_email" fm_running "requestResetSchema valid_email"
    "m_call useRequestReset"
  for valid_email
  by (rule guarded_formI) (auto simp: form_defs split: option.split sum.split)

interpretation mob_login: guarded_form "LoginScreen valid_email" fm_running "loginSchema valid_email" mob_login_call
  for valid_email
  by (rule guarded_formI) (auto simp: form_defs split: option.split sum.split)

interpretation mob_signup: guarded_form "SignupScreen valid_email" fm_running "signupSchema valid_email" "m_call mob_useSignup"
  for valid_email
  by (rule guarded_formI) (auto simp: form_defs split: option.split sum.split)

interpretation mob_reset: guarded_form "ResetScreen valid_email" fm_running "requestResetSchema valid_email"
    "m_call mob_useRequestReset"
  for valid_email
  by (rule guarded_formI) (auto simp: form_defs split: option.split sum.split list.split)

lemma schema_accepts:
  "loginSchema valid_email v = [] \<longleftrightarrow> valid_email (cr_email v) \<and> cr_password v \<noteq> []"
  "signupSchema valid_email v = [] \<longleftrightarrow> valid_email (cr_email v) \<and> 8 \<le> length (cr_password v)"
  "requestResetSchema valid_email e = [] \<longleftrightarrow> valid_email e"
  "confirmResetSchema p = [] \<longleftrightarrow> 8 \<le> length p"
  by (auto simp: loginSchema_def signupSchema_def requestResetSchema_def confirmResetSchema_def email_issue_def
      min_issue_def Suc_le_eq)

text \<open>
  The endpoint's view of a form: whatever the user does, every call carries submitted values
  that are acceptable, and at most one is unanswered.
\<close>

definition sends_only :: "('s \<Rightarrow> ('v, 'o) form_event \<Rightarrow> 's \<times> effect list) \<Rightarrow> ('v \<Rightarrow> remote) \<Rightarrow> ('v \<Rightarrow> bool) \<Rightarrow> bool" where
  "sends_only step call acceptable = (\<forall>s es.
     set (calls (snd (runs step s es))) \<subseteq> {call v |v. Submit v \<in> set es \<and> acceptable v} \<and>
     length (calls (snd (runs step s es))) \<le> 1 + settled es)"

context guarded_form
begin

lemma sends_only: "sends_only step call (\<lambda>v. schema v = [])"
proof -
  have "length (calls (snd (runs step s es))) \<le> 1 + settled es" for s es
    using runs_one_in_flight [of s es] by linarith
  then show ?thesis using runs_calls by (simp add: sends_only_def)
qed

end

section \<open>What the user sees\<close>

text \<open>\<open>inputs\<close> are those the form renders, each with its error under it.\<close>

definition shows_error :: "jstring list \<Rightarrow> ('v, 'a) form_scheme \<Rightarrow> bool" where
  "shows_error inputs f =
     ((case fm_formError f of Some m \<Rightarrow> json_truthy m | None \<Rightarrow> False) \<or>
      list_ex (\<lambda>k. case obj_get (fm_errors f) k of Some (Some m) \<Rightarrow> json_truthy m | _ \<Rightarrow> False) inputs)"

definition login_init :: login_form where
  "login_init = \<lparr>fm_errors = [], fm_formError = None, fm_running = None, lf_unverifiedEmail = None\<rparr>"

definition signup_init :: signup_form where
  "signup_init = \<lparr>fm_errors = [], fm_formError = None, fm_running = None, sf_done = False, sf_email = []\<rparr>"

definition reset_init :: reset_form where
  "reset_init = \<lparr>fm_errors = [], fm_formError = None, fm_running = None, rf_done = False\<rparr>"


text \<open>
  The server's password policy (\<^verbatim>\<open>internal/auth/validate.go\<close>) counts the UTF-8 bytes of the
  password; its verdict is the error envelope the client then receives.
\<close>

fun utf8_length :: "jstring \<Rightarrow> nat" where
  "utf8_length [] = 0"
| "utf8_length (u # us) =
     (if u < 0x80 then 1 + utf8_length us
      else if u < 0x800 then 2 + utf8_length us
      else case us of
             v # vs \<Rightarrow> if 0xD800 \<le> u \<and> u \<le> 0xDBFF \<and> 0xDC00 \<le> v \<and> v \<le> 0xDFFF then 4 + utf8_length vs
                       else 3 + utf8_length us
           | [] \<Rightarrow> 3)"

definition weak_password :: "string \<Rightarrow> string \<Rightarrow> json option" where
  "weak_password message detail =
     envelope (JStr (js ''weak_password'')) (JStr (js message)) [(js ''password'', js detail)]"

definition validatePassword :: "jstring \<Rightarrow> json option" where
  "validatePassword password =
     (if utf8_length password < 10 then weak_password ''password is too short'' ''must be at least 10 characters''
      else if utf8_length password > 128 then weak_password ''password is too long'' ''must be at most 128 characters''
      else None)"

lemma utf8_length_ascii: "\<forall>u\<in>set s. u < 0x80 \<Longrightarrow> utf8_length s = length s"
  by (induction s) auto

section \<open>Properties\<close>

text \<open>Setting every entry of one object on another.\<close>

lemma merge_get:
  "obj_ok ps \<Longrightarrow> obj_get (fold (\<lambda>p. obj_set (fst p) (snd p)) ps ob) k =
     (case obj_get ps k of Some v \<Rightarrow> Some v | None \<Rightarrow> obj_get ob k)"
proof (induction ps arbitrary: ob)
  case (Cons p ps)
  have "obj_get ps (fst p) = None" using Cons.prems by (simp add: obj_ok_def obj_get_def map_of_eq_None_iff)
  moreover have "obj_get (p # ps) k = (if k = fst p then Some (snd p) else obj_get ps k)"
    by (cases p) (simp add: obj_get_def)
  ultimately show ?case using Cons by (auto simp: obj_ok_def split: option.split)
qed simp

text \<open>A caught envelope whose fields are all rendered leaves something to read.\<close>

lemma catch_shows:
  assumes e: "e = Normalized (normalizeError st (envelope c m fs))" and m: "json_truthy m"
    and fs: "\<forall>p\<in>set fs. fst p \<in> set inputs \<and> snd p \<noteq> []"
  shows "shows_error inputs (fst (catch_server_errors e f))"
proof (cases fs rule: rev_cases)
  case Nil
  then show ?thesis using m
    by (simp add: catch_server_errors_def applyServerErrors_def e normalizeError_envelope shows_error_def)
next
  case (snoc ps p)
  let ?fe = "fold (\<lambda>p. obj_set (fst p) (Some (JStr (snd p)))) fs [] :: form_errors"
  have last: "obj_get ?fe (fst p) = Some (Some (JStr (snd p)))" by (simp add: snoc)
  then have "?fe \<noteq> []" by force
  have ok: "obj_ok ?fe" by (rule object.ok_fold_put) (simp add: obj_ok_def)
  have "obj_get (fold (\<lambda>p. obj_set (fst p) (snd p)) ?fe (fm_errors f)) (fst p) = Some (Some (JStr (snd p)))"
    unfolding merge_get [OF ok] last by simp
  moreover have "fst p \<in> set inputs" "truthy (snd p)" using fs snoc by simp_all
  ultimately show ?thesis using \<open>?fe \<noteq> []\<close>
    by (auto simp: catch_server_errors_def applyServerErrors_def e normalizeError_envelope shows_error_def list_ex_iff
        intro!: bexI [of _ "fst p"])
qed

text \<open>
  C27. The forms of both clients send only what their schema accepts, a valid address and a
  password of the required length, exactly as submitted, and never a second request before
  the first is answered, whatever the user clicks.
\<close>

theorem auth_forms_guarded:
  "sends_only (LoginForm valid_email) (m_call useLogin) (\<lambda>v. valid_email (cr_email v) \<and> cr_password v \<noteq> []) \<and>
   sends_only (SignupForm valid_email) (m_call useSignup) (\<lambda>v. valid_email (cr_email v) \<and> 8 \<le> length (cr_password v)) \<and>
   sends_only (RequestResetForm valid_email) (m_call useRequestReset) valid_email \<and>
   sends_only (ConfirmResetForm tok) (\<lambda>pw. m_call useConfirmReset (tok, pw)) (\<lambda>pw. 8 \<le> length pw) \<and>
   sends_only (LoginScreen valid_email) mob_login_call (\<lambda>v. valid_email (cr_email v) \<and> cr_password v \<noteq> []) \<and>
   sends_only (SignupScreen valid_email) (m_call mob_useSignup) (\<lambda>v. valid_email (cr_email v) \<and> 8 \<le> length (cr_password v)) \<and>
   sends_only (ResetScreen valid_email) (m_call mob_useRequestReset) valid_email"
  using login.sends_only [of valid_email] signup.sends_only [of valid_email] confirm_reset.sends_only [of tok]
    request_reset.sends_only [of valid_email] mob_login.sends_only [of valid_email] mob_signup.sends_only [of valid_email]
    mob_reset.sends_only [of valid_email]
  by (simp only: schema_accepts simp_thms)

text \<open>
  A structured error of the server is never swallowed by the web forms: as long as the
  fields it names are inputs of the form, the submission ends with a message on screen, and an
  unverified account gets the page that offers a new link instead.
\<close>

theorem server_errors_shown:
  assumes "e = Normalized (normalizeError st (envelope c m fs))" and "json_truthy m"
    and "\<forall>p\<in>set fs. snd p \<noteq> []" and "fst ` set fs \<subseteq> {js ''email'', js ''password''}"
    and "fm_running l = Some v" and "fm_running s = Some w" and "fm_running r = Some pw"
  shows "(if c = JStr (js ''email_not_verified'')
      then lf_unverifiedEmail (fst (LoginForm valid_email l (Settled (Inl e)))) = Some (cr_email v)
      else shows_error [js ''email'', js ''password''] (fst (LoginForm valid_email l (Settled (Inl e))))) \<and>
    shows_error [js ''email'', js ''password''] (fst (SignupForm valid_email s (Settled (Inl e)))) \<and>
    shows_error [js ''email''] (fst (RequestResetForm valid_email r (Settled (Inl e))))"
proof -
  have "\<forall>p\<in>set fs. fst p \<in> set [js ''email'', js ''password''] \<and> snd p \<noteq> []" using assms(3,4) by auto
  note shown = catch_shows [OF assms(1,2) this]
  have "thrown_code e = Some c" "thrown_message e = m" by (simp_all add: assms(1) normalizeError_envelope)
  then show ?thesis
    using assms(2,5,6,7) shown [where f = "l\<lparr>fm_running := None\<rparr>"] shown [where f = "s\<lparr>fm_running := None\<rparr>"]
    by (simp add: shows_error_def [where f = "r\<lparr>fm_running := None, fm_formError := Some m\<rparr>"])
qed

theorem server_errors_shown_witness:
  "shows_error [js ''email'', js ''password'']
     (fst (SignupForm (\<lambda>_. True) (signup_init\<lparr>fm_running := Some \<lparr>cr_email = js ''a@b.co'', cr_password = js ''12345678''\<rparr>\<rparr>)
       (Settled (Inl (Normalized (normalizeError 400 (validatePassword (js ''12345678''))))))))"
proof -
  let ?c = "\<lparr>cr_email = js ''a@b.co'', cr_password = js ''12345678''\<rparr>"
  have "utf8_length (js ''12345678'') < 10" by (simp add: js_def)
  then have body: "validatePassword (js ''12345678'') = envelope (JStr (js ''weak_password''))
      (JStr (js ''password is too short'')) [(js ''password'', js ''must be at least 10 characters'')]"
    by (simp add: validatePassword_def weak_password_def)
  show ?thesis
    using server_errors_shown [OF refl, of "JStr (js ''password is too short'')"
        "[(js ''password'', js ''must be at least 10 characters'')]" "login_init\<lparr>fm_running := Some ?c\<rparr>" ?c
        "signup_init\<lparr>fm_running := Some ?c\<rparr>" ?c "reset_init\<lparr>fm_running := Some []\<rparr>" "[]" "JStr (js ''weak_password'')" "\<lambda>_. True" 400]
    unfolding body by simp
qed

text \<open>
  A failed connection is silent on the web: the rejection is not a normalized error, reading
  its field errors throws inside the handler, and sign-in, sign-up and confirm-reset end the
  submission with nothing on screen. The same failure does show on the mobile screens.
\<close>

theorem network_failure_silent:
  assumes "valid_email (cr_email v)" and "8 \<le> length (cr_password v)" and "tok \<noteq> []" and "m \<noteq> []"
  shows "\<not> shows_error inputs (fst (runs (LoginForm valid_email) login_init [Submit v, Settled (Inl (JsError m))])) \<and>
    \<not> shows_error inputs (fst (runs (SignupForm valid_email) signup_init [Submit v, Settled (Inl (JsError m))])) \<and>
    \<not> shows_error inputs (fst (runs (ConfirmResetForm tok) reset_init [Submit (cr_password v), Settled (Inl (JsError m))])) \<and>
    shows_error [] (fst (runs (LoginScreen valid_email) login_init [Submit v, Settled (Inl (JsError m))]))"
proof -
  have "loginSchema valid_email v = []" "signupSchema valid_email v = []" "confirmResetSchema (cr_password v) = []"
    using assms by (auto simp: schema_accepts)
  then show ?thesis using assms
    by (auto simp: form_defs login_init_def signup_init_def reset_init_def shows_error_def catch_server_errors_def
        applyServerErrors_def list_ex_iff)
qed

theorem network_failure_silent_witness:
  "\<not> shows_error [js ''email'', js ''password''] (fst (runs (LoginForm (\<lambda>_. True)) login_init
     [Submit \<lparr>cr_email = js ''a@b.co'', cr_password = js ''12345678''\<rparr>, Settled (Inl (JsError (js ''Failed to fetch'')))]))"
  using network_failure_silent [of "\<lambda>_. True" "\<lparr>cr_email = js ''a@b.co'', cr_password = js ''12345678''\<rparr>" "js ''t''"
      "js ''Failed to fetch''" "[js ''email'', js ''password'']"]
  by (simp del: runs.simps)

text \<open>
  A rejected new password is silent too: the schema accepts eight characters, the server
  wants ten bytes and names the field \<open>password\<close>, which the confirm-reset form does not have; the
  error is set where nothing renders it and the form-level message is skipped.
\<close>

theorem weak_reset_password_silent:
  assumes "length pw \<in> {8, 9}" and "\<forall>u\<in>set pw. u < 0x80" and "tok \<noteq> []"
  shows "let f = fst (runs (ConfirmResetForm tok) reset_init
        [Submit pw, Settled (Inl (Normalized (normalizeError 400 (validatePassword pw))))])
    in confirmResetSchema pw = [] \<and> validatePassword pw \<noteq> None \<and> \<not> shows_error [js ''new_password''] f \<and> \<not> rf_done f"
proof -
  have "utf8_length pw < 10" using assms utf8_length_ascii [of pw] by auto
  then have body: "validatePassword pw = weak_password ''password is too short'' ''must be at least 10 characters''"
    by (simp add: validatePassword_def)
  have "confirmResetSchema pw = []" using assms by (auto simp: schema_accepts)
  then show ?thesis using assms(3)
    by (simp add: body weak_password_def form_defs reset_init_def shows_error_def catch_server_errors_def
        applyServerErrors_def normalizeError_envelope Let_def) (simp add: envelope_def obj_get_def)
qed

theorem weak_reset_password_silent_witness:
  "\<not> shows_error [js ''new_password''] (fst (runs (ConfirmResetForm (js ''t'')) reset_init
     [Submit (js ''12345678''), Settled (Inl (Normalized (normalizeError 400 (validatePassword (js ''12345678'')))))]))"
proof -
  have "\<forall>u\<in>set (js ''12345678''). u < 0x80" by (simp add: js_def)
  then show ?thesis
    using weak_reset_password_silent [of "js ''12345678''" "js ''t''"] by (simp del: runs.simps add: Let_def)
qed

end
