(* ===== verification/AuthFlow.thy ===== *)
theory AuthFlow
  imports AuthForms Format
begin

text \<open>
  The account flows around the forms: the resend button with its cooldown (both clients),
  the two pages that run one call when they open (\<^verbatim>\<open>verify-email-client.tsx\<close> and
  \<^verbatim>\<open>oauth-callback-client.tsx\<close>), the session guards, and connecting a channel on the web
  and on the device. The promise of the two one-call pages is the locale \<open>runs_once\<close>.
\<close>

section \<open>Resending the verification email\<close>

definition COOLDOWN_SECONDS :: nat where
  "COOLDOWN_SECONDS = 60"

record resend =
  rv_secondsLeft :: nat
  rv_sent :: bool
  rv_error :: "json option"
  rv_pending :: bool

definition resend_init :: resend where
  "resend_init = \<lparr>rv_secondsLeft = 0, rv_sent = False, rv_error = None, rv_pending = False\<rparr>"

text \<open>A tick is one second of the interval, which runs only while seconds are left.\<close>

datatype resend_event = Rv_click | Rv_settled "thrown + unit" | Rv_tick

definition resend_disabled :: "jstring \<Rightarrow> resend \<Rightarrow> bool" where
  "resend_disabled email s = (rv_secondsLeft s > 0 \<or> rv_pending s \<or> email = [])"

definition mob_resend_disabled :: "resend \<Rightarrow> bool" where
  "mob_resend_disabled s = (rv_secondsLeft s > 0 \<or> rv_pending s)"

fun resend_step :: "(resend \<Rightarrow> bool) \<Rightarrow> remote \<Rightarrow> resend \<Rightarrow> resend_event \<Rightarrow> resend \<times> remote list" where
  "resend_step disabled call s Rv_click =
     (if disabled s then (s, []) else (s\<lparr>rv_error := None, rv_pending := True\<rparr>, [call]))"
| "resend_step disabled call s (Rv_settled r) =
     (if \<not> rv_pending s then (s, [])
      else (case r of
              Inr _ \<Rightarrow> s\<lparr>rv_sent := True, rv_secondsLeft := COOLDOWN_SECONDS, rv_pending := False\<rparr>
            | Inl e \<Rightarrow> s\<lparr>rv_error := Some (thrown_message e), rv_secondsLeft := COOLDOWN_SECONDS, rv_pending := False\<rparr>, []))"
| "resend_step disabled call s Rv_tick = (s\<lparr>rv_secondsLeft := rv_secondsLeft s - 1\<rparr>, [])"

definition ResendVerification :: "jstring \<Rightarrow> resend \<Rightarrow> resend_event \<Rightarrow> resend \<times> remote list" where
  "ResendVerification email = resend_step (resend_disabled email) (m_call useResendVerification email)"

definition mob_ResendVerification :: "jstring \<Rightarrow> jstring \<Rightarrow> resend \<Rightarrow> resend_event \<Rightarrow> resend \<times> remote list" where
  "mob_ResendVerification origin email =
     resend_step mob_resend_disabled (m_call (mob_useResendVerification origin) email)"

definition resend_label :: "resend \<Rightarrow> jstring" where
  "resend_label s =
     (if rv_secondsLeft s > 0 then js ''Resend in '' @ show_nat (rv_secondsLeft s) @ js ''s''
      else if rv_pending s then js ''Sending'' @ [0x2026] else js ''Resend verification email'')"

definition resend_sent_shown :: "resend \<Rightarrow> bool" where
  "resend_sent_shown s = (rv_sent s \<and> (case rv_error s of None \<Rightarrow> True | Some m \<Rightarrow> \<not> json_truthy m))"

section \<open>Pages that run one call\<close>

text \<open>\<open>Effect_run\<close> is one run of the page's effect: React runs it after every render whose dependencies changed.\<close>

datatype 'o page_event = Effect_run | Page_settled "thrown + 'o"

datatype verify_status = Verifying | Verify_success | Verify_error

record verify_page =
  vp_status :: verify_status
  vp_message :: json
  vp_ran :: bool

definition verify_init :: "jstring \<Rightarrow> verify_page" where
  "verify_init tok =
     \<lparr>vp_status = (if tok \<noteq> [] then Verifying else Verify_error),
      vp_message = JStr (if tok \<noteq> [] then [] else js ''This link is missing its token.''),
      vp_ran = False\<rparr>"

fun VerifyEmailClient :: "jstring \<Rightarrow> verify_page \<Rightarrow> unit page_event \<Rightarrow> verify_page \<times> remote list" where
  "VerifyEmailClient tok s Effect_run =
     (if tok = [] \<or> vp_ran s then (s, []) else (s\<lparr>vp_ran := True\<rparr>, [m_call useVerifyEmail tok]))"
| "VerifyEmailClient tok s (Page_settled r) =
     (if \<not> vp_ran s then (s, [])
      else (case r of
              Inr _ \<Rightarrow> s\<lparr>vp_status := Verify_success\<rparr>
            | Inl e \<Rightarrow> s\<lparr>vp_status := Verify_error, vp_message := thrown_message e\<rparr>, []))"

datatype oauth_status = Oa_connecting | Oa_success | Oa_error

record oauth_page =
  op_fired :: bool
  op_result :: "(oauth_status \<times> json) option"
  op_replaced :: "jstring option"

definition oauth_init :: oauth_page where
  "oauth_init = \<lparr>op_fired = False, op_result = None, op_replaced = None\<rparr>"

definition oauth_missing :: "jstring option \<Rightarrow> jstring option \<Rightarrow> bool" where
  "oauth_missing state code = (\<not> truthy_opt state \<or> \<not> truthy_opt code)"

fun OAuthCallbackClient :: "jstring option \<Rightarrow> jstring option \<Rightarrow> oauth_page \<Rightarrow> channel page_event
    \<Rightarrow> oauth_page \<times> remote list" where
  "OAuthCallbackClient state code s Effect_run =
     (if oauth_missing state code \<or> op_fired s then (s, [])
      else (s\<lparr>op_fired := True\<rparr>, [m_call useCompleteOAuth (nullish state [], nullish code [])]))"
| "OAuthCallbackClient state code s (Page_settled r) =
     (if \<not> op_fired s then (s, [])
      else (case r of
              Inr ch \<Rightarrow> s\<lparr>op_result := Some (Oa_success, JStr (atHandle (ch_handle ch) @ js '' is connected.'')),
                          op_replaced := Some (js ''/channels'')\<rparr>
            | Inl e \<Rightarrow> s\<lparr>op_result := Some (Oa_error, thrown_message e)\<rparr>, []))"

definition oauth_view :: "jstring option \<Rightarrow> jstring option \<Rightarrow> oauth_page \<Rightarrow> oauth_status \<times> json" where
  "oauth_view state code s =
     (if oauth_missing state code
      then (Oa_error, JStr (js ''This link is missing its authorization details. Try connecting again.''))
      else nullish (op_result s) (Oa_connecting, JStr []))"

section \<open>Session guards\<close>

datatype guard_view = Guard_wait | Guard_children

definition AuthGuard :: "bool \<Rightarrow> user option \<Rightarrow> guard_view \<times> effect list" where
  "AuthGuard isPending user =
     (if isPending \<or> user = None then Guard_wait else Guard_children,
      if \<not> isPending \<and> user = None then [Navigate (js ''/login'')] else [])"

datatype tab_view = Tab_splash | Tab_redirect jstring | Tab_tabs

definition TabLayout :: "bool \<Rightarrow> user option \<Rightarrow> tab_view" where
  "TabLayout isPending user =
     (if isPending then Tab_splash else if user = None then Tab_redirect (js ''/login'') else Tab_tabs)"

text \<open>Sign-out in the account menu: a failed call is an unhandled rejection and the user stays.\<close>

definition onLogout :: "thrown + unit \<Rightarrow> effect list" where
  "onLogout r = (case r of Inr _ \<Rightarrow> [Navigate (js ''/login'')] | Inl e \<Rightarrow> [Unhandled e])"

section \<open>Connecting a channel\<close>

record connect_button =
  cb_error :: "json option"
  cb_pending :: bool

datatype connect_event = Cb_click | Cb_settled "thrown + jstring"

fun ConnectChannelButton :: "jstring \<Rightarrow> jstring \<Rightarrow> connect_button \<Rightarrow> connect_event
    \<Rightarrow> connect_button \<times> effect list" where
  "ConnectChannelButton ws platform s Cb_click =
     (if cb_pending s then (s, [])
      else (s\<lparr>cb_error := None, cb_pending := True\<rparr>, [Call (m_call (useConnectChannel ws) platform)]))"
| "ConnectChannelButton ws platform s (Cb_settled r) =
     (if \<not> cb_pending s then (s, [])
      else case r of
             Inr url \<Rightarrow> (s\<lparr>cb_pending := False\<rparr>, [Navigate url])
           | Inl e \<Rightarrow> (s\<lparr>cb_pending := False, cb_error := Some (thrown_message e)\<rparr>, []))"

text \<open>Telegram's form: the bot token and the chat id are sent trimmed.\<close>

record manual_form =
  mc_open :: bool
  mc_botToken :: jstring
  mc_chatId :: jstring
  mc_error :: "json option"
  mc_pending :: bool

datatype manual_event = Mc_open bool | Mc_token jstring | Mc_chat jstring | Mc_submit | Mc_settled "thrown + unit"

definition manual_credentials :: "manual_form \<Rightarrow> jstring obj" where
  "manual_credentials f = [(js ''bot_token'', trim (mc_botToken f)), (js ''chat_id'', trim (mc_chatId f))]"

definition manual_disabled :: "manual_form \<Rightarrow> bool" where
  "manual_disabled f = (mc_pending f \<or> mc_botToken f = [] \<or> mc_chatId f = [])"

fun manual_step :: "(manual_form \<Rightarrow> bool) \<Rightarrow> (jstring obj \<Rightarrow> remote) \<Rightarrow> manual_form \<Rightarrow> manual_event
    \<Rightarrow> manual_form \<times> remote list" where
  "manual_step disabled call f (Mc_open b) = (f\<lparr>mc_open := b\<rparr>, [])"
| "manual_step disabled call f (Mc_token x) = (if mc_open f then f\<lparr>mc_botToken := x\<rparr> else f, [])"
| "manual_step disabled call f (Mc_chat x) = (if mc_open f then f\<lparr>mc_chatId := x\<rparr> else f, [])"
| "manual_step disabled call f Mc_submit =
     (if \<not> mc_open f \<or> disabled f then (f, [])
      else (f\<lparr>mc_error := None, mc_pending := True\<rparr>, [call (manual_credentials f)]))"
| "manual_step disabled call f (Mc_settled r) =
     (if \<not> mc_pending f then (f, [])
      else (case r of
              Inr _ \<Rightarrow> f\<lparr>mc_open := False, mc_botToken := [], mc_chatId := [], mc_pending := False\<rparr>
            | Inl e \<Rightarrow> f\<lparr>mc_error := Some (thrown_message e), mc_pending := False\<rparr>, []))"

definition ManualConnectChannel :: "jstring option \<Rightarrow> jstring \<Rightarrow> manual_form \<Rightarrow> manual_event
    \<Rightarrow> manual_form \<times> remote list" where
  "ManualConnectChannel csrf ws =
     manual_step manual_disabled (\<lambda>creds. m_call (useConnectManual csrf ws) (js ''telegram'', creds))"

text \<open>The mobile row only checks that no call is pending.\<close>

definition ManualConnectRow :: "jstring \<Rightarrow> jstring \<Rightarrow> jstring \<Rightarrow> manual_form \<Rightarrow> manual_event
    \<Rightarrow> manual_form \<times> remote list" where
  "ManualConnectRow origin ws platformKey =
     manual_step mc_pending (\<lambda>creds. m_call (mob_useConnectManual origin ws) (platformKey, creds))"

text \<open>
  The device flow. The in-app browser ends with the redirect URL or without one, and the URL
  parser gives each query parameter as a text, as something else (a repeated parameter is a
  list), or not at all; both are parameters.
\<close>

datatype query_param = Param_text jstring | Param_list "jstring list"

datatype connect_result = Connected channel | Cancelled | Connect_error json

definition error_message :: "jstring \<Rightarrow> thrown \<Rightarrow> json" where
  "error_message fallback e = (case thrown_message e of JNull \<Rightarrow> JStr fallback | m \<Rightarrow> m)"

definition useConnectFlow :: "(remote \<Rightarrow> thrown + jstring) \<Rightarrow> (jstring \<Rightarrow> jstring \<Rightarrow> thrown + jstring option)
    \<Rightarrow> (jstring \<Rightarrow> jstring \<Rightarrow> query_param option) \<Rightarrow> (remote \<Rightarrow> thrown + channel)
    \<Rightarrow> jstring \<Rightarrow> jstring \<Rightarrow> connect_result \<times> remote list" where
  "useConnectFlow connect openAuthSession parse exchange ws platform =
     (let call1 = m_call (mob_useConnectChannel ws) platform; failed = error_message (js ''Connection failed.'') in
      case connect call1 of
        Inl e \<Rightarrow> (Connect_error (failed e), [call1])
      | Inr authorizeUrl \<Rightarrow>
          (case openAuthSession authorizeUrl OAUTH_REDIRECT of
             Inl e \<Rightarrow> (Connect_error (failed e), [call1])
           | Inr None \<Rightarrow> (Cancelled, [call1])
           | Inr (Some url) \<Rightarrow>
               (case (parse url (js ''state''), parse url (js ''code'')) of
                  (Some (Param_text state), Some (Param_text code)) \<Rightarrow>
                    (let call2 = m_call mob_useCompleteOAuth (state, code) in
                     (case exchange call2 of
                        Inl e \<Rightarrow> Connect_error (failed e)
                      | Inr ch \<Rightarrow> Connected ch, [call1, call2]))
                | _ \<Rightarrow> (Connect_error (JStr (js ''The authorization response was incomplete.'')), [call1]))))"

section \<open>Contracts\<close>

text \<open>A page that runs its call when it opens promises its endpoint one request, however often it renders.\<close>

locale runs_once =
  fixes step :: "'s \<Rightarrow> 'o page_event \<Rightarrow> 's \<times> remote list"
    and fired :: "'s \<Rightarrow> bool"
    and enabled :: bool
    and call :: remote
  assumes effect: "snd (step s Effect_run) = (if enabled \<and> \<not> fired s then [call] else [])"
    and effect_fired: "fired (fst (step s Effect_run)) = (enabled \<or> fired s)"
    and settle: "snd (step s (Page_settled r)) = [] \<and> fired (fst (step s (Page_settled r))) = fired s"
begin

lemma runs_exactly_once:
  "snd (runs step s es) = (if enabled \<and> \<not> fired s \<and> Effect_run \<in> set es then [call] else [])"
proof (induction es arbitrary: s)
  case (Cons e es)
  then show ?case
    using effect [of s] effect_fired [of s] settle [of s] by (cases e) (auto simp: case_prod_beta)
qed simp

end

interpretation verify_email: runs_once "VerifyEmailClient tok" vp_ran "tok \<noteq> []" "m_call useVerifyEmail tok"
  for tok
  by unfold_locales (auto split: sum.split)

interpretation oauth_callback: runs_once "OAuthCallbackClient state code" op_fired "\<not> oauth_missing state code"
    "m_call useCompleteOAuth (nullish state [], nullish code [])"
  for state code
  by unfold_locales (auto split: sum.split)

text \<open>The cooldown's accounting: each call is paid for by sixty ticks, still to come or already gone.\<close>

definition ticks :: "resend_event list \<Rightarrow> nat" where
  "ticks es = length (filter (\<lambda>e. e = Rv_tick) es)"

definition resend_ok :: "resend \<Rightarrow> bool" where
  "resend_ok s = (rv_secondsLeft s \<le> COOLDOWN_SECONDS \<and> (rv_pending s \<longrightarrow> rv_secondsLeft s = 0))"

lemma resend_step_ok:
  assumes "\<And>s. rv_pending s \<or> rv_secondsLeft s > 0 \<Longrightarrow> disabled s" and "resend_ok s"
  shows "resend_ok (fst (resend_step disabled call s e))"
  using assms by (cases e) (auto simp: resend_ok_def split: sum.split)

lemma resend_budget:
  assumes dis: "\<And>s. rv_pending s \<or> rv_secondsLeft s > 0 \<Longrightarrow> disabled s" and "resend_ok s"
  shows "60 * length (snd (runs (resend_step disabled call) s es)) + rv_secondsLeft s + (if rv_pending s then 60 else 0)
    \<le> 60 + ticks es"
  using assms(2)
proof (induction es arbitrary: s)
  case Nil
  then show ?case by (auto simp: ticks_def resend_ok_def COOLDOWN_SECONDS_def)
next
  case (Cons e es)
  let ?s1 = "fst (resend_step disabled call s e)"
  note IH = Cons.IH [OF resend_step_ok [of disabled, OF dis Cons.prems, of call e]]
  have "ticks (e # es) = (if e = Rv_tick then 1 else 0) + ticks es" by (simp add: ticks_def)
  then show ?case
    using IH Cons.prems dis [of s]
    by (cases e) (auto simp: case_prod_beta resend_ok_def COOLDOWN_SECONDS_def split: sum.splits if_splits)
qed

section \<open>Properties\<close>

text \<open>
  The resend button cannot be spammed: however it is clicked and whatever the server
  answers, n emails take at least 60 (n - 1) seconds of countdown, on both clients.
\<close>

theorem resend_rate_limited:
  "60 * length (snd (runs (ResendVerification email) resend_init es)) \<le> 60 + ticks es \<and>
   60 * length (snd (runs (mob_ResendVerification origin email) resend_init es)) \<le> 60 + ticks es"
proof -
  have "resend_ok resend_init" by (simp add: resend_ok_def resend_init_def)
  then have budget: "60 * length (snd (runs (resend_step disabled call) resend_init es)) \<le> 60 + ticks es"
    if "\<And>s. rv_pending s \<or> rv_secondsLeft s > 0 \<Longrightarrow> disabled s" for disabled call
    using resend_budget [of disabled resend_init call es, OF that \<open>resend_ok resend_init\<close>] by linarith
  show ?thesis unfolding ResendVerification_def mob_ResendVerification_def
    by (intro conjI budget) (auto simp: resend_disabled_def mob_resend_disabled_def)
qed

text \<open>
  C39. The single-use codes are spent exactly once: however often the page's effect runs, the
  OAuth callback exchanges its state and code in one call, and the verification page its
  token, provided the link carries them; otherwise neither calls at all.
\<close>

theorem single_use_codes_spent_once:
  "snd (runs (OAuthCallbackClient state code) oauth_init es) =
     (if Effect_run \<in> set es \<and> \<not> oauth_missing state code
      then [m_call useCompleteOAuth (nullish state [], nullish code [])] else []) \<and>
   snd (runs (VerifyEmailClient tok) (verify_init tok) fs) =
     (if Effect_run \<in> set fs \<and> tok \<noteq> [] then [m_call useVerifyEmail tok] else [])"
  using oauth_callback.runs_exactly_once [of state code oauth_init es]
    verify_email.runs_exactly_once [of tok "verify_init tok" fs]
  by (auto simp: oauth_init_def verify_init_def)

text \<open>
  Connecting on the device: the authorization code is exchanged only after the browser came
  back with both parameters as text, with exactly these, and every way the flow can end is a
  result the screen can show; a cancelled session calls nothing more.
\<close>

theorem device_connect_safe:
  assumes "useConnectFlow connect openAuthSession parse exchange ws platform = (res, made)"
  shows "(made = [m_call (mob_useConnectChannel ws) platform] \<and> (\<forall>ch. res \<noteq> Connected ch)) \<or>
    (\<exists>url state code ret.
       connect (m_call (mob_useConnectChannel ws) platform) = Inr url \<and>
       openAuthSession url OAUTH_REDIRECT = Inr (Some ret) \<and>
       parse ret (js ''state'') = Some (Param_text state) \<and> parse ret (js ''code'') = Some (Param_text code) \<and>
       made = [m_call (mob_useConnectChannel ws) platform, m_call mob_useCompleteOAuth (state, code)] \<and>
       (case exchange (m_call mob_useCompleteOAuth (state, code)) of
          Inr ch \<Rightarrow> res = Connected ch | Inl e \<Rightarrow> \<exists>m. res = Connect_error m))"
  using assms unfolding useConnectFlow_def Let_def
  by (fastforce split: sum.splits option.splits query_param.splits)

theorem device_connect_safe_witness:
  "let ret = \<lambda>_ k. if k = js ''state'' then Some (Param_text (js ''s1'')) else Some (Param_text (js ''c1'')) in
   \<exists>res. useConnectFlow (\<lambda>_. Inr (js ''https://idp'')) (\<lambda>_ _. Inr (Some (js ''postal://cb''))) ret
       (\<lambda>_. Inl (JsError (js ''Network request failed''))) (js ''w'') (js ''x'') =
     (res, [m_call (mob_useConnectChannel (js ''w'')) (js ''x''), m_call mob_useCompleteOAuth (js ''s1'', js ''c1'')]) \<and>
     (\<forall>ch. res \<noteq> Connected ch)"
proof -
  let ?ret = "\<lambda>_ k. if k = js ''state'' then Some (Param_text (js ''s1'')) else Some (Param_text (js ''c1''))"
  let ?res = "Connect_error (JStr (js ''Network request failed''))"
  have "useConnectFlow (\<lambda>_. Inr (js ''https://idp'')) (\<lambda>_ _. Inr (Some (js ''postal://cb''))) ?ret
       (\<lambda>_. Inl (JsError (js ''Network request failed''))) (js ''w'') (js ''x'') =
     (?res, [m_call (mob_useConnectChannel (js ''w'')) (js ''x''), m_call mob_useCompleteOAuth (js ''s1'', js ''c1'')])"
    by (simp add: useConnectFlow_def Let_def error_message_def)
  with device_connect_safe [OF this] show ?thesis by (simp add: Let_def)
qed

end
