(* ===== verification/Members.thy ===== *)
theory Members
  imports AuthForms Format
begin

text \<open>
  Workspaces and their members: the active workspace of both clients
  (\<^verbatim>\<open>use-active-workspace.ts\<close>, \<^verbatim>\<open>stores/workspace.ts\<close>, \<^verbatim>\<open>workspace-switcher.tsx\<close>),
  the capability boxes, the add-member form, the role select of a member's row, the editor
  of a member's channel access and the activity feed (\<^verbatim>\<open>features/members/\<close>), with their
  mobile counterparts.
\<close>

section \<open>The active workspace\<close>

record workspace_store =
  wst_activeId :: "jstring option"

definition setActive :: "jstring \<Rightarrow> workspace_store \<Rightarrow> workspace_store" where
  "setActive i s = s\<lparr>wst_activeId := Some i\<rparr>"

definition active_workspace :: "workspace list \<Rightarrow> workspace_store \<Rightarrow> workspace option" where
  "active_workspace ws s =
     (case find (\<lambda>w. Some (wk_id w) = wst_activeId s) ws of
        Some w \<Rightarrow> Some w
      | None \<Rightarrow> (case ws of [] \<Rightarrow> None | w # _ \<Rightarrow> Some w))"

text \<open>\<open>data ?? []\<close> on the web, a default on mobile: both read a missing answer as no workspaces.\<close>

definition useActiveWorkspace :: "workspace list option \<Rightarrow> workspace_store \<Rightarrow> workspace list \<times> workspace option" where
  "useActiveWorkspace data s = (let ws = nullish data [] in (ws, active_workspace ws s))"

text \<open>The switcher lists every workspace and marks the active one.\<close>

definition WorkspaceSwitcher :: "workspace list option \<Rightarrow> workspace_store \<Rightarrow> (jstring \<times> (jstring \<times> bool) list) option" where
  "WorkspaceSwitcher data s =
     (case useActiveWorkspace data s of
        (_, None) \<Rightarrow> None
      | (ws, Some active) \<Rightarrow> Some (wk_name active, map (\<lambda>w. (wk_id w, wk_id w = wk_id active)) ws))"

section \<open>Adding a member\<close>

text \<open>The boxes hold a list read as a set; toggling rebuilds it.\<close>

definition toggle_capability :: "capability \<Rightarrow> capability list \<Rightarrow> capability list" where
  "toggle_capability cap value = toggle cap (js_set value)"

record add_member_form =
  af_role :: role
  af_caps :: "capability list"
  af_custom :: bool
  af_errors :: form_errors
  af_formError :: "json option"
  af_running :: bool

definition add_member_init :: add_member_form where
  "add_member_init = \<lparr>af_role = Editor, af_caps = [], af_custom = False, af_errors = [], af_formError = None, af_running = False\<rparr>"

datatype add_member_event =
    Af_role role
  | Af_cap capability
  | Af_custom
  | Af_submit jstring
  | Af_settled "thrown + member option"

definition add_member_body :: "add_member_form \<Rightarrow> jstring \<Rightarrow> add_member_input" where
  "add_member_body f email = \<lparr>am_email = email,
     am_role = (if af_custom f then None else Some (af_role f)),
     am_capabilities = (if af_custom f then Some (af_caps f) else None)\<rparr>"

text \<open>The catch branch reads \<open>fieldErrors.email\<close>, which throws when the error is not a normalized one.\<close>

definition add_member_failed :: "thrown \<Rightarrow> add_member_form \<Rightarrow> add_member_form \<times> effect list" where
  "add_member_failed e f =
     (case thrown_fieldErrors e of
        None \<Rightarrow> (f, [Unhandled (JsError (js ''Cannot read properties of undefined''))])
      | Some fe \<Rightarrow>
          (case obj_get fe (js ''email'') of
             Some (Some m) \<Rightarrow> if json_truthy m then (f\<lparr>af_errors := obj_set (js ''email'') (Some m) (af_errors f)\<rparr>, [])
                              else (f\<lparr>af_formError := Some (thrown_message e)\<rparr>, [])
           | _ \<Rightarrow> (f\<lparr>af_formError := Some (thrown_message e)\<rparr>, [])))"

fun AddMemberForm :: "(jstring \<Rightarrow> bool) \<Rightarrow> jstring \<Rightarrow> add_member_form \<Rightarrow> add_member_event
    \<Rightarrow> add_member_form \<times> effect list" where
  "AddMemberForm valid_email ws f (Af_role r) =
     (if \<not> af_custom f \<and> r \<in> set ROLES then f\<lparr>af_role := r\<rparr> else f, [])"
| "AddMemberForm valid_email ws f (Af_cap c) =
     (if af_custom f \<and> c \<in> cap_value ` set CAPABILITIES then f\<lparr>af_caps := toggle_capability c (af_caps f)\<rparr> else f, [])"
| "AddMemberForm valid_email ws f Af_custom = (f\<lparr>af_custom := \<not> af_custom f\<rparr>, [])"
| "AddMemberForm valid_email ws f (Af_submit email) =
     (if af_running f then (f, [])
      else if email_issue valid_email email \<noteq> [] then (f\<lparr>af_errors := email_issue valid_email email\<rparr>, [])
      else (f\<lparr>af_errors := [], af_formError := None, af_running := True\<rparr>,
            [Call (m_call (useAddMember ws) (add_member_body f email))]))"
| "AddMemberForm valid_email ws f (Af_settled r) =
     (if \<not> af_running f then (f, [])
      else case r of
             Inr _ \<Rightarrow> (f\<lparr>af_running := False, af_errors := [], af_caps := [], af_custom := False\<rparr>, [])
           | Inl e \<Rightarrow> add_member_failed e (f\<lparr>af_running := False\<rparr>))"

section \<open>A member's row\<close>

text \<open>The owner has no select; every other row offers the three assignable roles and the channel access editor.\<close>

definition row_roles :: "member \<Rightarrow> role list" where
  "row_roles m = (if mb_role m = Owner then [] else ROLES)"

definition row_change :: "jstring \<Rightarrow> member \<Rightarrow> bool \<Rightarrow> role \<Rightarrow> remote list" where
  "row_change ws m isPending r =
     (if isPending \<or> r \<notin> set (row_roles m) then []
      else [m_call (useUpdateCapabilities ws) \<lparr>uc_userId = mb_user_id m, uc_role = Some r, uc_capabilities = None\<rparr>])"

definition permission_count :: "member \<Rightarrow> jstring" where
  "permission_count m = (let count = length (mb_permissions m) in
     show_nat count @ js '' permission'' @ (if count = 1 then [] else js ''s''))"

text \<open>On mobile the viewer's own role decides whether the screen can manage members.\<close>

definition mob_canManage :: "member list option \<Rightarrow> user option \<Rightarrow> bool" where
  "mob_canManage members me =
     (case find (\<lambda>m. Some (mb_user_id m) = map_option us_id me) (nullish members []) of
        None \<Rightarrow> False
      | Some m \<Rightarrow> mb_role m = Owner \<or> mb_role m = Admin)"

definition mob_access_shown :: "bool \<Rightarrow> member \<Rightarrow> bool" where
  "mob_access_shown canManage m = (canManage \<and> mb_role m \<noteq> Owner)"

record mob_member_form =
  mm_email :: jstring
  mm_role :: role
  mm_error :: "json option"
  mm_sent :: bool
  mm_pending :: bool

definition ASSIGNABLE_ROLES :: "role list" where
  "ASSIGNABLE_ROLES = [Admin, Editor, Viewer]"

datatype mob_member_event = Mm_email jstring | Mm_role role | Mm_submit | Mm_settled "thrown + member"

fun MembersScreen :: "bool \<Rightarrow> jstring \<Rightarrow> mob_member_form \<Rightarrow> mob_member_event \<Rightarrow> mob_member_form \<times> remote list" where
  "MembersScreen canManage ws f (Mm_email x) = (if canManage then f\<lparr>mm_email := x\<rparr> else f, [])"
| "MembersScreen canManage ws f (Mm_role r) =
     (if canManage \<and> r \<in> set ASSIGNABLE_ROLES then f\<lparr>mm_role := r\<rparr> else f, [])"
| "MembersScreen canManage ws f Mm_submit =
     (if \<not> canManage \<or> mm_pending f \<or> trim (mm_email f) = [] then (f, [])
      else (f\<lparr>mm_error := None, mm_sent := False, mm_pending := True\<rparr>,
            [m_call (mob_useAddMember ws) (trim (mm_email f), mm_role f)]))"
| "MembersScreen canManage ws f (Mm_settled r) =
     (if \<not> mm_pending f then (f, [])
      else (case r of
              Inr _ \<Rightarrow> f\<lparr>mm_email := [], mm_sent := True, mm_pending := False\<rparr>
            | Inl e \<Rightarrow> f\<lparr>mm_error := Some (thrown_message e), mm_pending := False\<rparr>, []))"

section \<open>Channel access\<close>

record channel_access =
  ca_restricted :: bool
  ca_allowed :: "jstring list"

record access_editor =
  ae_restricted :: bool
  ae_selected :: "jstring list"
  ae_error :: "json option"
  ae_saved :: bool
  ae_pending :: bool

definition access_init :: "channel_access \<Rightarrow> access_editor" where
  "access_init a = \<lparr>ae_restricted = ca_restricted a, ae_selected = js_set (ca_allowed a), ae_error = None,
     ae_saved = False, ae_pending = False\<rparr>"

datatype access_event = Ae_restrict bool | Ae_toggle jstring | Ae_save | Ae_settled "thrown + json option"

definition toggle_access :: "jstring \<Rightarrow> access_editor \<Rightarrow> access_editor" where
  "toggle_access i s = s\<lparr>ae_saved := False, ae_selected := toggle i (ae_selected s)\<rparr>"

definition access_payload :: "access_editor \<Rightarrow> bool \<times> jstring list" where
  "access_payload s = (ae_restricted s, if ae_restricted s then ae_selected s else [])"

text \<open>The boxes exist for the workspace's channels, while the restriction is on.\<close>

fun ChannelAccessEditor :: "(bool \<times> jstring list \<Rightarrow> remote) \<Rightarrow> channel list \<Rightarrow> access_editor \<Rightarrow> access_event
    \<Rightarrow> access_editor \<times> remote list" where
  "ChannelAccessEditor call channels s (Ae_restrict b) = (s\<lparr>ae_restricted := b, ae_saved := False\<rparr>, [])"
| "ChannelAccessEditor call channels s (Ae_toggle i) =
     (if ae_restricted s \<and> i \<in> ch_id ` set channels then toggle_access i s else s, [])"
| "ChannelAccessEditor call channels s Ae_save =
     (if ae_pending s then (s, [])
      else (s\<lparr>ae_error := None, ae_saved := False, ae_pending := True\<rparr>, [call (access_payload s)]))"
| "ChannelAccessEditor call channels s (Ae_settled r) =
     (if \<not> ae_pending s then (s, [])
      else (case r of
              Inr _ \<Rightarrow> s\<lparr>ae_saved := True, ae_pending := False\<rparr>
            | Inl e \<Rightarrow> s\<lparr>ae_error := Some (thrown_message e), ae_pending := False\<rparr>, []))"

section \<open>The activity feed\<close>

definition ACTION_LABELS :: "(jstring \<times> jstring) list" where
  "ACTION_LABELS = map (\<lambda>(a, l). (js a, js l))
     [(''user.login'', ''signed in''), (''user.signup'', ''signed up''),
      (''user.password_reset_requested'', ''requested a password reset''),
      (''user.email_verified'', ''verified their email''), (''post.schedule'', ''scheduled a post''),
      (''post.schedule_slots'', ''queued a post to slots''), (''channel.connected'', ''connected a channel''),
      (''channel.disconnected'', ''disconnected a channel''), (''member.added'', ''added a member''),
      (''member.capabilities_updated'', ''changed a member's permissions'')]"

definition mob_ACTION_LABELS :: "(jstring \<times> jstring) list" where
  "mob_ACTION_LABELS = map (\<lambda>(a, l). (js a, js l))
     [(''user.login'', ''signed in''), (''user.signup'', ''signed up''),
      (''user.email_verified'', ''verified their email''), (''post.schedule'', ''scheduled a post''),
      (''post.schedule_slots'', ''queued a post to slots''), (''channel.connected'', ''connected a channel''),
      (''channel.disconnected'', ''disconnected a channel''), (''member.added'', ''added a member''),
      (''member.capabilities_updated'', ''changed a member's permissions'')]"

definition tidy_action :: "jstring \<Rightarrow> jstring" where
  "tidy_action = map (\<lambda>c. if c \<in> set (js ''._'') then hd (js '' '') else c)"

definition activity_label :: "(jstring \<times> jstring) list \<Rightarrow> jstring \<Rightarrow> jstring" where
  "activity_label labels action = nullish (map_of labels action) (tidy_action action)"

section \<open>Contracts\<close>

interpretation capability_boxes: selection toggle_capability js_set
  by unfold_locales (simp add: toggle_capability_def js_set_id distinct_toggle)

interpretation access_boxes: selection toggle_access ae_selected
  by unfold_locales (simp add: toggle_access_def)

lemma active_workspace_cases:
  "active_workspace ws s = None \<longleftrightarrow> ws = []"
  "active_workspace ws s = Some w \<Longrightarrow> w \<in> set ws"
  by (auto simp: active_workspace_def find_Some_iff split: option.splits list.splits)

lemma find_distinct_id:
  assumes "distinct (map wk_id ws)" and "w \<in> set ws"
  shows "find (\<lambda>x. wk_id x = wk_id w) ws = Some w"
  using assms by (induction ws) auto

text \<open>What the form can ever send: an assignable role, or a list of capabilities without repetition.\<close>

definition member_form_ok :: "add_member_form \<Rightarrow> bool" where
  "member_form_ok f = (af_role f \<in> set ROLES \<and> distinct (af_caps f))"

lemma add_member_failed_ok [simp]:
  "member_form_ok (fst (add_member_failed e f)) = member_form_ok f"
  "calls (snd (add_member_failed e f)) = []"
  by (auto simp: add_member_failed_def member_form_ok_def split: option.split)

lemma AddMemberForm_ok: "member_form_ok f \<Longrightarrow> member_form_ok (fst (AddMemberForm valid_email ws f e))"
  by (cases e) (auto simp: member_form_ok_def toggle_capability_def distinct_toggle
      add_member_failed_ok [unfolded member_form_ok_def] split: sum.split)

definition proper_grant :: "(jstring \<Rightarrow> bool) \<Rightarrow> add_member_input \<Rightarrow> bool" where
  "proper_grant valid_email b =
     (valid_email (am_email b) \<and>
      (case (am_role b, am_capabilities b) of
         (Some r, None) \<Rightarrow> r \<in> {Admin, Editor, Viewer}
       | (None, Some cs) \<Rightarrow> distinct cs
       | _ \<Rightarrow> False))"

lemma add_member_body_proper:
  "member_form_ok f \<Longrightarrow> email_issue valid_email email = [] \<Longrightarrow> proper_grant valid_email (add_member_body f email)"
  by (auto simp: member_form_ok_def add_member_body_def proper_grant_def email_issue_def ROLES_def split: if_splits)

lemma AddMemberForm_calls:
  assumes "member_form_ok f" and "c \<in> set (calls (snd (AddMemberForm valid_email ws f e)))"
  shows "\<exists>b. proper_grant valid_email b \<and> c = m_call (useAddMember ws) b"
  using assms
  by (cases e) (auto dest: add_member_body_proper split: if_splits sum.splits)

lemma AddMemberForm_runs:
  "member_form_ok f \<Longrightarrow> c \<in> set (calls (snd (runs (AddMemberForm valid_email ws) f es))) \<Longrightarrow>
     \<exists>b. proper_grant valid_email b \<and> c = m_call (useAddMember ws) b"
proof (induction es arbitrary: f)
  case (Cons e es)
  then show ?case
    using AddMemberForm_calls [OF Cons.prems(1), of c valid_email ws e]
      Cons.IH [OF AddMemberForm_ok [OF Cons.prems(1), of valid_email ws e]]
    by (auto simp: case_prod_beta)
qed simp

definition mob_form_ok :: "mob_member_form \<Rightarrow> bool" where
  "mob_form_ok f = (mm_role f \<in> set ASSIGNABLE_ROLES)"

lemma MembersScreen_ok: "mob_form_ok f \<Longrightarrow> mob_form_ok (fst (MembersScreen canManage ws f e))"
  by (cases e) (auto simp: mob_form_ok_def split: sum.split)

lemma MembersScreen_calls:
  assumes "mob_form_ok f" and "c \<in> set (snd (MembersScreen canManage ws f e))"
  shows "canManage \<and> (\<exists>email r. email \<noteq> [] \<and> r \<in> {Admin, Editor, Viewer} \<and> c = m_call (mob_useAddMember ws) (email, r))"
  using assms by (cases e) (auto simp: mob_form_ok_def ASSIGNABLE_ROLES_def split: if_splits)

lemma MembersScreen_runs:
  "mob_form_ok f \<Longrightarrow> c \<in> set (snd (runs (MembersScreen canManage ws) f es)) \<Longrightarrow>
     canManage \<and> (\<exists>email r. email \<noteq> [] \<and> r \<in> {Admin, Editor, Viewer} \<and> c = m_call (mob_useAddMember ws) (email, r))"
proof (induction es arbitrary: f)
  case (Cons e es)
  from Cons.prems(2) consider "c \<in> set (snd (MembersScreen canManage ws f e))"
    | "c \<in> set (snd (runs (MembersScreen canManage ws) (fst (MembersScreen canManage ws f e)) es))"
    by (auto simp: case_prod_beta)
  then show ?case
  proof cases
    case 1
    then show ?thesis by (rule MembersScreen_calls [OF Cons.prems(1)])
  next
    case 2
    then show ?thesis by (rule Cons.IH [OF MembersScreen_ok [OF Cons.prems(1)]])
  qed
qed simp

lemma mob_canManageD:
  assumes "mob_canManage members me"
  shows "\<exists>v\<in>set (nullish members []). map_option us_id me = Some (mb_user_id v) \<and> mb_role v \<in> {Owner, Admin}"
proof -
  let ?P = "\<lambda>m. Some (mb_user_id m) = map_option us_id me"
  obtain m where m: "find ?P (nullish members []) = Some m" and role: "mb_role m = Owner \<or> mb_role m = Admin"
    using assms by (auto simp: mob_canManage_def split: option.splits)
  then obtain i where "i < length (nullish members [])" "?P m" "m = nullish members [] ! i"
    by (auto simp only: find_Some_iff)
  with role show ?thesis by (intro bexI [of _ m]) auto
qed

section \<open>Properties\<close>

text \<open>
  The active workspace is always one of the user's own, there is one as soon as there is
  any, choosing a listed workspace makes it active, and a selection that no longer exists falls
  back to the first.
\<close>

theorem active_workspace_sound:
  assumes "distinct (map wk_id ws)"
  shows "(snd (useActiveWorkspace (Some ws) s) = None \<longleftrightarrow> ws = []) \<and>
    (\<forall>w. snd (useActiveWorkspace (Some ws) s) = Some w \<longrightarrow> w \<in> set ws) \<and>
    (\<forall>w\<in>set ws. snd (useActiveWorkspace (Some ws) (setActive (wk_id w) s)) = Some w) \<and>
    (i \<notin> wk_id ` set ws \<longrightarrow> ws \<noteq> [] \<longrightarrow> snd (useActiveWorkspace (Some ws) (setActive i s)) = Some (hd ws))"
proof -
  have "active_workspace ws (setActive (wk_id w) s) = Some w" if "w \<in> set ws" for w
    using find_distinct_id [OF assms that] by (simp add: active_workspace_def setActive_def)
  moreover have "active_workspace ws (setActive i s) = Some (hd ws)" if "i \<notin> wk_id ` set ws" "ws \<noteq> []"
  proof -
    have "find (\<lambda>w. wk_id w = i) ws = None" using that by (auto simp: find_None_iff)
    then show ?thesis using that by (auto simp: active_workspace_def setActive_def split: list.split)
  qed
  ultimately show ?thesis using active_workspace_cases [of ws s] by (simp add: useActiveWorkspace_def)
qed

theorem active_workspace_sound_witness:
  "snd (useActiveWorkspace (Some [\<lparr>wk_id = js ''w1'', wk_name = js ''Home'', wk_owner_user_id = js ''u1'', wk_plan = js ''free'', wk_created_at = []\<rparr>]) (setActive (js ''gone'') \<lparr>wst_activeId = None\<rparr>)) = Some \<lparr>wk_id = js ''w1'', wk_name = js ''Home'', wk_owner_user_id = js ''u1'', wk_plan = js ''free'', wk_created_at = []\<rparr>"
  using active_workspace_sound [of "[\<lparr>wk_id = js ''w1'', wk_name = js ''Home'', wk_owner_user_id = js ''u1'', wk_plan = js ''free'', wk_created_at = []\<rparr>]" "\<lparr>wst_activeId = None\<rparr>" "js ''gone''"] by simp

text \<open>
  Nobody is made an owner from the member screens: every invitation carries a valid
  address and either one of the three assignable roles or a repetition-free list of
  capabilities, never both; a role change reaches only members who are not the owner and grants
  one of the same three roles; and on mobile nothing is sent unless the viewer is an owner or
  an admin.
\<close>

theorem no_ownership_grants:
  assumes "mob_form_ok mf"
  shows "(\<forall>c\<in>set (calls (snd (runs (AddMemberForm valid_email ws) add_member_init es))).
      \<exists>b. proper_grant valid_email b \<and> c = m_call (useAddMember ws) b) \<and>
    (row_change ws m pending r \<noteq> [] \<longrightarrow> mb_role m \<noteq> Owner \<and> r \<in> {Admin, Editor, Viewer}) \<and>
    (\<forall>c\<in>set (snd (runs (MembersScreen (mob_canManage members me) ws) mf fs)).
      (\<exists>v\<in>set (nullish members []). map_option us_id me = Some (mb_user_id v) \<and> mb_role v \<in> {Owner, Admin}) \<and>
      (\<exists>email r. email \<noteq> [] \<and> r \<in> {Admin, Editor, Viewer} \<and> c = m_call (mob_useAddMember ws) (email, r)))"
proof (intro conjI ballI impI)
  fix c
  assume "c \<in> set (calls (snd (runs (AddMemberForm valid_email ws) add_member_init es)))"
  then show "\<exists>b. proper_grant valid_email b \<and> c = m_call (useAddMember ws) b"
    by (rule AddMemberForm_runs [rotated]) (simp add: member_form_ok_def add_member_init_def ROLES_def)
next
  assume "row_change ws m pending r \<noteq> []"
  then show "mb_role m \<noteq> Owner" "r \<in> {Admin, Editor, Viewer}"
    by (auto simp: row_change_def row_roles_def ROLES_def split: if_splits)
next
  fix c
  assume "c \<in> set (snd (runs (MembersScreen (mob_canManage members me) ws) mf fs))"
  from MembersScreen_runs [OF assms this]
  have "mob_canManage members me" and
    sent: "\<exists>email r. email \<noteq> [] \<and> r \<in> {Admin, Editor, Viewer} \<and> c = m_call (mob_useAddMember ws) (email, r)"
    by blast+
  then show "\<exists>v\<in>set (nullish members []). map_option us_id me = Some (mb_user_id v) \<and> mb_role v \<in> {Owner, Admin}"
    by (intro mob_canManageD)
  show "\<exists>email r. email \<noteq> [] \<and> r \<in> {Admin, Editor, Viewer} \<and> c = m_call (mob_useAddMember ws) (email, r)" by (rule sent)
qed

theorem no_ownership_grants_witness:
  "\<exists>b. proper_grant (\<lambda>_. True) b \<and>
     calls (snd (runs (AddMemberForm (\<lambda>_. True) (js ''w'')) add_member_init [Af_custom, Af_cap Cap_read, Af_submit (js ''a@b.co'')])) =
       [m_call (useAddMember (js ''w'')) b]"
proof -
  let ?mf = "\<lparr>mm_email = [], mm_role = Editor, mm_error = None, mm_sent = False, mm_pending = False\<rparr>"
  let ?run = "runs (AddMemberForm (\<lambda>_. True) (js ''w'')) add_member_init [Af_custom, Af_cap Cap_read, Af_submit (js ''a@b.co'')]"
  have "mob_form_ok ?mf" by (simp add: mob_form_ok_def ASSIGNABLE_ROLES_def)
  from no_ownership_grants [OF this, of "\<lambda>_. True" "js ''w''" "[Af_custom, Af_cap Cap_read, Af_submit (js ''a@b.co'')]"]
  have grants: "\<forall>c\<in>set (calls (snd ?run)). \<exists>b. proper_grant (\<lambda>_. True) b \<and> c = m_call (useAddMember (js ''w'')) b" by blast
  have "\<exists>b. calls (snd ?run) = [m_call (useAddMember (js ''w'')) b]"
    by (simp add: add_member_init_def email_issue_def) blast
  then obtain c where "calls (snd ?run) = [c]" by blast
  with grants show ?thesis by auto
qed

text \<open>
  The access editor says Saved for what it sent: when nothing is edited while the call runs,
  Saved means the server accepted exactly the allowlist on screen, and any edit clears it. An
  edit made while the call runs is the exception: the answer then marks it as saved although it
  was not sent.
\<close>

theorem access_saved_meaning:
  assumes "\<not> ae_pending s" and "ae_restricted s" and "i \<in> ch_id ` set channels"
  shows "(case runs (ChannelAccessEditor call channels) s [Ae_save, Ae_settled (Inr x)] of (s', sent) \<Rightarrow>
      ae_saved s' \<and> sent = [call (access_payload s')] \<and> \<not> ae_saved (fst (ChannelAccessEditor call channels s' (Ae_toggle i)))) \<and>
    (case runs (ChannelAccessEditor call channels) s [Ae_save, Ae_toggle i, Ae_settled (Inr x)] of (s', sent) \<Rightarrow>
      ae_saved s' \<and> sent = [call (access_payload s)] \<and> set (snd (access_payload s')) \<noteq> set (snd (access_payload s)))"
proof -
  have "set (toggle i (ae_selected s)) \<noteq> set (ae_selected s)" by (auto simp: set_toggle)
  then show ?thesis using assms by (auto simp: access_payload_def toggle_access_def)
qed

definition sample_account :: channel where
  "sample_account = \<lparr>ch_id = js ''c1'', ch_platform = js ''twitter'', ch_platform_account_id = [], ch_handle = js ''h'',
     ch_display_name = [], ch_status = Active, ch_connected_by = None, ch_created_at = []\<rparr>"

theorem access_saved_meaning_witness:
  "\<exists>s. ae_pending s = False \<and> (case runs (ChannelAccessEditor (m_call (useSetMemberChannels None (js ''w'') (js ''u''))) [sample_account]) s
       [Ae_save, Ae_toggle (js ''c1''), Ae_settled (Inr None)] of (s', sent) \<Rightarrow>
      ae_saved s' \<and> sent = [m_call (useSetMemberChannels None (js ''w'') (js ''u'')) (True, [])] \<and> snd (access_payload s') \<noteq> [])"
proof -
  let ?s = "access_init \<lparr>ca_restricted = True, ca_allowed = []\<rparr>"
  have "\<not> ae_pending ?s" "ae_restricted ?s" "access_payload ?s = (True, [])"
    by (simp_all add: access_init_def access_payload_def js_set_def)
  moreover have "js ''c1'' \<in> ch_id ` set [sample_account]" by (simp add: sample_account_def)
  ultimately show ?thesis
    using access_saved_meaning [of ?s "js ''c1''" "[sample_account]" "m_call (useSetMemberChannels None (js ''w'') (js ''u''))" None]
    by (intro exI [of _ ?s]) (auto simp del: runs.simps split: prod.splits)
qed

end
