(* ===== verification/MobileCompose.thy ===== *)
theory MobileCompose
  imports Composer Schedule MobileData
begin

text \<open>
  The compose and publish screens of the mobile client:
  \<^verbatim>\<open>mobile/src/features/compose/compose-screen.tsx\<close> (one text for every selected channel,
  with the list of saved posts under it), \<^verbatim>\<open>features/schedule/publish-sheet.tsx\<close> and
  the grouping of \<^verbatim>\<open>app/(tabs)/calendar.tsx\<close>. Handlers are split at their \<open>await\<close>s, as in
  the web composer; what a handler read before its \<open>await\<close> is in the call it made.
\<close>

section \<open>The compose screen\<close>

record mob_compose =
  mk_selected :: "jstring list"
  mk_body :: jstring
  mk_media :: "media_meta list"
  mk_postId :: "jstring option"
  mk_verdicts :: "variant_validation list option"
  mk_error :: "json option"
  mk_phase :: save_phase
  mk_uploading :: bool

definition mob_compose_init :: mob_compose where
  "mob_compose_init = \<lparr>mk_selected = [], mk_body = [], mk_media = [], mk_postId = None, mk_verdicts = None,
     mk_error = None, mk_phase = Not_saving, mk_uploading = False\<rparr>"

definition mob_selectedChannels :: "channel list \<Rightarrow> mob_compose \<Rightarrow> channel list" where
  "mob_selectedChannels channels s = List.map_filter (map_get ch_id channels) (mk_selected s)"

definition mob_charLimit :: "channel list \<Rightarrow> mob_compose \<Rightarrow> nat option" where
  "mob_charLimit channels s =
     (case map (\<lambda>c. nullish (pi_charLimit (mobile_platformInfo (ch_platform c))) MAX_SAFE_INTEGER)
             (mob_selectedChannels channels s) of
        [] \<Rightarrow> None
      | l # ls \<Rightarrow> Some (fold min ls l))"

definition mob_remaining :: "channel list \<Rightarrow> mob_compose \<Rightarrow> int option" where
  "mob_remaining channels s =
     (case mob_charLimit channels s of
        None \<Rightarrow> None
      | Some l \<Rightarrow> if l = MAX_SAFE_INTEGER then None else Some (int l - int (length (mk_body s))))"

definition mob_mediaRequiredBy :: "channel list \<Rightarrow> mob_compose \<Rightarrow> jstring list" where
  "mob_mediaRequiredBy channels s =
     js_set (map (\<lambda>c. pi_label (mobile_platformInfo (ch_platform c)))
       (filter (\<lambda>c. pi_requiresMedia (mobile_platformInfo (ch_platform c))) (mob_selectedChannels channels s)))"

definition mob_missingMedia :: "channel list \<Rightarrow> mob_compose \<Rightarrow> bool" where
  "mob_missingMedia channels s = (mob_mediaRequiredBy channels s \<noteq> [] \<and> mk_media s = [])"

definition mob_save_disabled :: "channel list \<Rightarrow> mob_compose \<Rightarrow> bool" where
  "mob_save_disabled channels s =
     (mk_phase s \<noteq> Not_saving \<or> mk_selected s = [] \<or> trim (mk_body s) = [] \<or> mob_missingMedia channels s)"

definition mob_variants :: "mob_compose \<Rightarrow> variant_input list" where
  "mob_variants s =
     map (\<lambda>ch. \<lparr>vi_channel_id = ch, vi_body = Some (mk_body s),
                 vi_media = (if mk_media s \<noteq> [] then Some (mk_media s) else None),
                 vi_platform_options = None\<rparr>) (mk_selected s)"

definition mob_toggle :: "jstring \<Rightarrow> mob_compose \<Rightarrow> mob_compose" where
  "mob_toggle ch s = s\<lparr>mk_verdicts := None, mk_selected := toggle ch (mk_selected s)\<rparr>"

definition mob_reset :: "mob_compose \<Rightarrow> mob_compose" where
  "mob_reset s = s\<lparr>mk_selected := [], mk_body := [], mk_media := [], mk_postId := None, mk_verdicts := None, mk_error := None\<rparr>"

definition mob_onEdit :: "post \<Rightarrow> mob_compose \<Rightarrow> mob_compose" where
  "mob_onEdit p s =
     (let variants = nullish (po_variants p) [] in
      s\<lparr>mk_postId := Some (po_id p),
        mk_body := (case variants of [] \<Rightarrow> [] | v # _ \<Rightarrow> va_body v),
        mk_selected := map va_channel_id variants,
        mk_media := (case variants of [] \<Rightarrow> [] | v # _ \<Rightarrow> nullish (va_media v) []),
        mk_verdicts := None\<rparr>)"

definition or_message :: "string \<Rightarrow> thrown \<Rightarrow> json" where
  "or_message fallback e = (case thrown_message e of JNull \<Rightarrow> JStr (js fallback) | m \<Rightarrow> m)"

datatype mob_compose_event =
    Mk_toggle jstring
  | Mk_type jstring
  | Mk_picked   \<comment> \<open>the picker returned a file\<close>
  | Mk_uploaded "thrown + asset"
  | Mk_remove jstring
  | Mk_save
  | Mk_written "thrown + post"
  | Mk_validated "thrown + variant_validation list"
  | Mk_new
  | Mk_edit post

fun ComposeScreen :: "channel list \<Rightarrow> mob_compose \<Rightarrow> mob_compose_event \<Rightarrow> mob_compose \<times> composer_cmd list" where
  "ComposeScreen channels s (Mk_toggle ch) =
     (if \<exists>c\<in>set channels. ch_id c = ch \<and> ch_status c = Active then mob_toggle ch s else s, [])"
| "ComposeScreen channels s (Mk_type t) = (s\<lparr>mk_body := t, mk_verdicts := None\<rparr>, [])"
| "ComposeScreen channels s Mk_picked = (if mk_uploading s then s else s\<lparr>mk_error := None, mk_uploading := True\<rparr>, [])"
| "ComposeScreen channels s (Mk_uploaded r) =
     (if \<not> mk_uploading s then s
      else (case r of
              Inr a \<Rightarrow> s\<lparr>mk_media := mk_media s @ [toMeta a], mk_uploading := False\<rparr>
            | Inl e \<Rightarrow> s\<lparr>mk_error := Some (or_message ''Upload failed.'' e), mk_uploading := False\<rparr>), [])"
| "ComposeScreen channels s (Mk_remove i) = (s\<lparr>mk_media := remove_media i (mk_media s)\<rparr>, [])"
| "ComposeScreen channels s Mk_save =
     (if mob_save_disabled channels s then (s, [])
      else (s\<lparr>mk_error := None, mk_verdicts := None, mk_phase := Writing\<rparr>,
            [case mk_postId s of
               Some p \<Rightarrow> if truthy p then Cmd_update p (mob_variants s) else Cmd_create (mob_variants s)
             | None \<Rightarrow> Cmd_create (mob_variants s)]))"
| "ComposeScreen channels s (Mk_written r) =
     (if mk_phase s \<noteq> Writing then (s, [])
      else case r of
             Inl e \<Rightarrow> (s\<lparr>mk_error := Some (or_message ''Save failed.'' e), mk_phase := Not_saving\<rparr>, [])
           | Inr post \<Rightarrow> (s\<lparr>mk_postId := Some (po_id post), mk_phase := Validating\<rparr>, [Cmd_validate (po_id post)]))"
| "ComposeScreen channels s (Mk_validated r) =
     (if mk_phase s \<noteq> Validating then s
      else (case r of
              Inl e \<Rightarrow> s\<lparr>mk_error := Some (or_message ''Save failed.'' e), mk_phase := Not_saving\<rparr>
            | Inr vs \<Rightarrow> s\<lparr>mk_verdicts := Some vs, mk_phase := Not_saving\<rparr>), [])"
| "ComposeScreen channels s Mk_new = (if truthy_opt (mk_postId s) then mob_reset s else s, [])"
| "ComposeScreen channels s (Mk_edit p) = (mob_onEdit p s, [])"

text \<open>The cost of publishing to X, by content.\<close>

definition mob_xCost :: "wallet option \<Rightarrow> mob_compose \<Rightarrow> int option" where
  "mob_xCost wallet s =
     (case wallet of
        None \<Rightarrow> None
      | Some w \<Rightarrow>
          (let costs = wl_publish_costs w; plain = obj_get costs (js ''twitter'');
               or_plain = (\<lambda>x. case x of None \<Rightarrow> plain | Some v \<Rightarrow> Some v) in
           if firstURL (mk_body s) \<noteq> None then or_plain (obj_get costs (js ''twitter_url''))
           else if mk_media s \<noteq> [] then or_plain (obj_get costs (js ''twitter_media''))
           else plain))"

definition mob_cost_shown :: "wallet option \<Rightarrow> channel list \<Rightarrow> mob_compose \<Rightarrow> bool" where
  "mob_cost_shown wallet channels s =
     ((\<exists>c\<in>set (mob_selectedChannels channels s). pi_payPerUse (mobile_platformInfo (ch_platform c))) \<and>
      (case mob_xCost wallet s of None \<Rightarrow> False | Some x \<Rightarrow> x > 0))"

section \<open>Picking a file\<close>

record picked_asset =
  pa_uri :: jstring
  pa_fileName :: "jstring option"
  pa_mimeType :: "jstring option"
  pa_type :: "jstring option"

definition after_last_slash :: "jstring \<Rightarrow> jstring" where
  "after_last_slash s = rev (takeWhile (\<lambda>c. c \<noteq> hd (js ''/'')) (rev s))"

text \<open>The name and the MIME type a picked asset is uploaded with.\<close>

definition pickMedia :: "bool \<Rightarrow> bool \<Rightarrow> picked_asset list \<Rightarrow> (jstring \<times> jstring \<times> jstring) option" where
  "pickMedia granted canceled assets =
     (if \<not> granted \<or> canceled then None
      else case assets of
             [] \<Rightarrow> None
           | a # _ \<Rightarrow> Some (pa_uri a, nullish (pa_fileName a) (after_last_slash (pa_uri a)),
               nullish (pa_mimeType a) (if pa_type a = Some (js ''video'') then js ''video/mp4'' else js ''image/jpeg'')))"

section \<open>The publish sheet\<close>

record publish_sheet =
  ps_mode :: schedule_mode
  ps_when :: int
  ps_picker :: bool
  ps_error :: "thrown option"
  ps_scheduled :: "nat option"
  ps_pending :: bool

definition publish_reset :: "publish_sheet \<Rightarrow> publish_sheet" where
  "publish_reset s = s\<lparr>ps_mode := Mode_now, ps_error := None, ps_scheduled := None, ps_picker := False\<rparr>"

definition publish_request :: "(int \<Rightarrow> jstring) \<Rightarrow> int \<Rightarrow> jstring \<Rightarrow> publish_sheet \<Rightarrow> schedule_input" where
  "publish_request toISO now postId s =
     (if ps_mode s = Mode_slots then \<lparr>si_postId = postId, si_runAt = None, si_toSlots = Some True\<rparr>
      else \<lparr>si_postId = postId, si_runAt = Some (if ps_mode s = Mode_now then toISO (now + 3000) else toISO (ps_when s)),
            si_toSlots = None\<rparr>)"

datatype publish_event =
    Ps_mode schedule_mode
  | Ps_open_picker
  | Ps_pick "int option"
  | Ps_submit int
  | Ps_settled "thrown + job list"
  | Ps_close

fun PublishSheet :: "(int \<Rightarrow> jstring) \<Rightarrow> jstring \<Rightarrow> publish_sheet \<Rightarrow> publish_event \<Rightarrow> publish_sheet \<times> schedule_input list" where
  "PublishSheet toISO postId s (Ps_mode m) = (if ps_scheduled s = None then s\<lparr>ps_mode := m\<rparr> else s, [])"
| "PublishSheet toISO postId s Ps_open_picker =
     (if ps_scheduled s = None \<and> ps_mode s = Mode_time then s\<lparr>ps_picker := True\<rparr> else s, [])"
| "PublishSheet toISO postId s (Ps_pick d) =
     (if ps_picker s then (case d of None \<Rightarrow> s\<lparr>ps_picker := False\<rparr> | Some t \<Rightarrow> s\<lparr>ps_picker := False, ps_when := t\<rparr>) else s, [])"
| "PublishSheet toISO postId s (Ps_submit now) =
     (if ps_pending s \<or> ps_scheduled s \<noteq> None then (s, [])
      else (s\<lparr>ps_error := None, ps_pending := True\<rparr>, [publish_request toISO now postId s]))"
| "PublishSheet toISO postId s (Ps_settled r) =
     (if \<not> ps_pending s then (s, [])
      else (case r of
              Inr jobs \<Rightarrow> s\<lparr>ps_scheduled := Some (length jobs), ps_pending := False\<rparr>
            | Inl e \<Rightarrow> s\<lparr>ps_error := Some e, ps_pending := False\<rparr>, []))"
| "PublishSheet toISO postId s Ps_close = (publish_reset s, [])"

section \<open>The calendar list\<close>

text \<open>
  Jobs in the order of their time, grouped by day. The text order and the day of a time are the
  host's; the entries of the object of groups are listed in the order their keys were added.
\<close>

fun group_jobs :: "('j \<Rightarrow> jstring) \<Rightarrow> 'j list \<Rightarrow> 'j list obj \<Rightarrow> 'j list obj" where
  "group_jobs day [] groups = groups"
| "group_jobs day (j # rest) groups = group_jobs day rest (obj_set (day j) (nullish (obj_get groups (day j)) [] @ [j]) groups)"

definition mob_calendar :: "(jstring \<Rightarrow> jstring) \<Rightarrow> (job list \<Rightarrow> job list) \<Rightarrow> job list option \<Rightarrow> job list obj" where
  "mob_calendar dayKey sort_by_time jobs =
     group_jobs (\<lambda>j. dayKey (jb_run_at j)) (sort_by_time (nullish jobs [])) []"

definition handleFor :: "channel list \<Rightarrow> jstring \<Rightarrow> jstring" where
  "handleFor channels i =
     (case find (\<lambda>c. ch_id c = i) channels of Some c \<Rightarrow> ch_handle c | None \<Rightarrow> take 8 i)"

section \<open>Lemmas\<close>

interpretation mob_picker: selection mob_toggle mk_selected
  by unfold_locales (simp add: mob_toggle_def)

text \<open>What the screen keeps: no channel is selected twice.\<close>

definition mob_ok :: "mob_compose \<Rightarrow> bool" where
  "mob_ok s = distinct (mk_selected s)"

fun edit_ok :: "mob_compose_event \<Rightarrow> bool" where
  "edit_ok (Mk_edit p) = distinct (map va_channel_id (nullish (po_variants p) []))"
| "edit_ok _ = True"

lemma ComposeScreen_ok: "mob_ok s \<Longrightarrow> edit_ok e \<Longrightarrow> mob_ok (fst (ComposeScreen channels s e))"
  by (cases e) (auto simp: mob_ok_def mob_picker.flip_distinct mob_reset_def mob_onEdit_def Let_def split: sum.split)

text \<open>A set of variants the screen may send: one text for all, not blank, one per channel, media where required.\<close>

definition sendable :: "channel list \<Rightarrow> variant_input list \<Rightarrow> bool" where
  "sendable channels vs =
     (vs \<noteq> [] \<and> distinct (map vi_channel_id vs) \<and>
      (\<exists>text media. trim text \<noteq> [] \<and> list_all (\<lambda>v. vi_body v = Some text \<and> vi_media v = media) vs \<and>
        (media = None \<longrightarrow> list_all (\<lambda>v. case map_get ch_id channels (vi_channel_id v) of
           None \<Rightarrow> True | Some c \<Rightarrow> \<not> pi_requiresMedia (mobile_platformInfo (ch_platform c))) vs)))"

fun cmd_sendable :: "channel list \<Rightarrow> composer_cmd \<Rightarrow> bool" where
  "cmd_sendable channels (Cmd_create vs) = sendable channels vs"
| "cmd_sendable channels (Cmd_update p vs) = sendable channels vs"
| "cmd_sendable channels _ = True"

lemma js_set_eq_Nil [simp]: "js_set xs = [] \<longleftrightarrow> xs = []"
  by (metis set_js_set set_empty)

lemma mob_mediaRequired_none:
  "mob_mediaRequiredBy channels s = [] \<longleftrightarrow>
     (\<forall>ch\<in>set (mk_selected s). case map_get ch_id channels ch of
        None \<Rightarrow> True | Some c \<Rightarrow> \<not> pi_requiresMedia (mobile_platformInfo (ch_platform c)))"
  by (auto simp: mob_mediaRequiredBy_def mob_selectedChannels_def filter_empty_conv map_filter_def split: option.splits)

lemma mob_variants_sendable:
  assumes "mob_ok s" and "\<not> mob_save_disabled channels s"
  shows "sendable channels (mob_variants s)"
proof -
  let ?media = "if mk_media s \<noteq> [] then Some (mk_media s) else None"
  have sel: "mk_selected s \<noteq> []" and body: "trim (mk_body s) \<noteq> []"
    and req: "mk_media s = [] \<longrightarrow> mob_mediaRequiredBy channels s = []"
    using assms(2) by (auto simp: mob_save_disabled_def mob_missingMedia_def)
  have all: "list_all (\<lambda>v. vi_body v = Some (mk_body s) \<and> vi_media v = ?media) (mob_variants s)"
    by (simp add: mob_variants_def list_all_iff)
  have media: "?media = None \<longrightarrow> list_all (\<lambda>v. case map_get ch_id channels (vi_channel_id v) of
      None \<Rightarrow> True | Some c \<Rightarrow> \<not> pi_requiresMedia (mobile_platformInfo (ch_platform c))) (mob_variants s)"
    using req by (simp add: mob_mediaRequired_none mob_variants_def list_all_iff)
  have some: "mob_variants s \<noteq> []" "distinct (map vi_channel_id (mob_variants s))"
    using sel assms(1) by (simp_all add: mob_variants_def comp_def mob_ok_def)
  show ?thesis unfolding sendable_def
    by (intro conjI exI [of _ "mk_body s"] exI [of _ ?media]) (fact some body all media)+
qed

lemma ComposeScreen_sendable:
  assumes "mob_ok s" and "c \<in> set (snd (ComposeScreen channels s e))"
  shows "cmd_sendable channels c"
  using assms by (cases e) (auto simp: mob_variants_sendable split: if_splits option.splits sum.splits)

lemma ComposeScreen_runs:
  "mob_ok s \<Longrightarrow> list_all edit_ok es \<Longrightarrow> list_all (cmd_sendable channels) (snd (runs (ComposeScreen channels) s es))"
proof (induction es arbitrary: s)
  case (Cons e es)
  then have "list_all (cmd_sendable channels) (snd (runs (ComposeScreen channels) (fst (ComposeScreen channels s e)) es))"
    by (intro Cons.IH ComposeScreen_ok) simp_all
  moreover have "list_all (cmd_sendable channels) (snd (ComposeScreen channels s e))"
    using ComposeScreen_sendable [OF Cons.prems(1)] by (simp add: list_all_iff)
  ultimately show ?case by (simp add: case_prod_beta)
qed simp

text \<open>Grouping keeps every job once and files it under its day.\<close>

lemma mset_obj_set_group:
  "obj_ok groups \<Longrightarrow>
   mset (concat (map snd (obj_set k (nullish (obj_get groups k) [] @ [j]) groups))) = add_mset j (mset (concat (map snd groups)))"
  by (induction groups) (auto simp: obj_get_def obj_ok_def map_of_eq_None_iff split: option.splits)

lemma group_jobs_mset:
  "obj_ok groups \<Longrightarrow> mset (concat (map snd (group_jobs day jobs groups))) = mset jobs + mset (concat (map snd groups))"
proof (induction jobs arbitrary: groups)
  case (Cons j rest)
  then show ?case using mset_obj_set_group [OF Cons.prems, of "day j" j] by (simp add: obj_set_ok del: mset_concat)
qed simp

lemma group_jobs_get:
  "obj_get (group_jobs day jobs groups) k =
     (case filter (\<lambda>j. day j = k) jobs of
        [] \<Rightarrow> obj_get groups k
      | ds \<Rightarrow> Some (nullish (obj_get groups k) [] @ ds))"
  by (induction jobs arbitrary: groups) (auto split: list.splits)

lemma group_jobs_keys: "obj_ok groups \<Longrightarrow> obj_ok (group_jobs day jobs groups)"
  by (induction jobs arbitrary: groups) (simp_all add: obj_set_ok)

section \<open>Properties\<close>


lemma trim_sample: "trim (js ''hello'') \<noteq> []" "trim (js ''hi'') \<noteq> []"
  by (simp_all add: trim_eq_Nil is_space_def js_def)


text \<open>
  Opening another post while a save runs mixes the two up: the answer to the first save
  sets the post id after the second post was loaded, so the screen shows the second post's text
  under the first post's id, and the next save overwrites the first post with it.
\<close>

theorem mobile_edit_during_save_overwrites:
  assumes "\<not> mob_save_disabled channels s" and "po_id pA \<noteq> []"
  shows "let s1 = fst (runs (ComposeScreen channels) s [Mk_save, Mk_edit pB, Mk_written (Inr pA), Mk_validated (Inr vs)]) in
    mk_postId s1 = Some (po_id pA) \<and> mob_variants s1 = mob_variants (mob_onEdit pB s) \<and>
    (mob_save_disabled channels s1 \<or>
     snd (ComposeScreen channels s1 Mk_save) = [Cmd_update (po_id pA) (mob_variants (mob_onEdit pB s))])"
  using assms by (simp add: Let_def mob_onEdit_def mob_variants_def)

theorem mobile_edit_during_save_overwrites_witness:
  "let s = mob_compose_init\<lparr>mk_selected := [js ''c9''], mk_body := js ''hi'', mk_postId := Some (js ''p9'')\<rparr> in
   let s1 = fst (runs (ComposeScreen []) s [Mk_save, Mk_edit sample_draft, Mk_written (Inr (sample_draft\<lparr>po_id := js ''p9''\<rparr>)),
       Mk_validated (Inr [])]) in
   snd (ComposeScreen [] s1 Mk_save) = [Cmd_update (js ''p9'') (mob_variants (mob_onEdit sample_draft s))]"
proof -
  let ?s = "mob_compose_init\<lparr>mk_selected := [js ''c9''], mk_body := js ''hi'', mk_postId := Some (js ''p9'')\<rparr>"
  have "\<not> mob_save_disabled [] ?s"
    by (simp add: mob_compose_init_def mob_save_disabled_def mob_missingMedia_def mob_mediaRequired_none map_get_def trim_sample)
  from mobile_edit_during_save_overwrites [OF this, of "sample_draft\<lparr>po_id := js ''p9''\<rparr>" sample_draft "[]"]
  show ?thesis
    by (simp add: Let_def mob_compose_init_def mob_save_disabled_def mob_missingMedia_def mob_mediaRequired_none map_get_def
        trim_sample mob_onEdit_def sample_draft_def sample_variant_def)
qed

text \<open>
  Editing a post on mobile and saving it flattens it: every channel is written with the text
  and the media of the first variant, so the texts other channels had of their own are lost.
\<close>

theorem mobile_edit_flattens:
  assumes "po_variants p = Some (v # vs)" and "po_id p \<noteq> []" and "\<not> mob_save_disabled channels (mob_onEdit p s)"
  shows "\<exists>out. snd (runs (ComposeScreen channels) s [Mk_edit p, Mk_save]) = [Cmd_update (po_id p) out] \<and>
    map vi_channel_id out = map va_channel_id (v # vs) \<and> list_all (\<lambda>x. vi_body x = Some (va_body v)) out"
  using assms by (auto simp: mob_onEdit_def mob_variants_def list_all_iff comp_def)

theorem mobile_edit_flattens_witness:
  "\<exists>out. snd (runs (ComposeScreen []) mob_compose_init [Mk_edit sample_draft, Mk_save]) = [Cmd_update (js ''p1'') out] \<and>
     map vi_body out = [Some (js ''hello''), Some (js ''hello'')]"
proof -
  have "\<not> mob_save_disabled [] (mob_onEdit sample_draft mob_compose_init)"
    by (simp add: mob_onEdit_def mob_compose_init_def mob_save_disabled_def mob_missingMedia_def mob_mediaRequired_none
        map_get_def sample_draft_def sample_variant_def trim_sample)
  then obtain out where out: "snd (runs (ComposeScreen []) mob_compose_init [Mk_edit sample_draft, Mk_save]) = [Cmd_update (js ''p1'') out]"
      and "map vi_channel_id out = [js ''c1'', js ''c2'']" "list_all (\<lambda>x. vi_body x = Some (js ''hello'')) out"
    using mobile_edit_flattens [of sample_draft "sample_variant ''c1'' ''hello''" "[sample_variant ''c2'' ''hi'']" "[]" mob_compose_init]
    by (auto simp: sample_draft_def sample_variant_def)
  then obtain x y where "out = [x, y]" "vi_body x = Some (js ''hello'')" "vi_body y = Some (js ''hello'')"
    by (cases out; cases "tl out") auto
  with out show ?thesis by simp
qed

text \<open>
  The mobile calendar shows every job exactly once, under the heading of its own day and in
  the order of the sorted list, and no day has two headings.
\<close>

theorem mobile_calendar_complete:
  assumes "\<And>xs. mset (sort_by_time xs) = mset xs"
  shows "mset (concat (map snd (mob_calendar dayKey sort_by_time (Some jobs)))) = mset jobs \<and>
    distinct (map fst (mob_calendar dayKey sort_by_time (Some jobs))) \<and>
    nullish (obj_get (mob_calendar dayKey sort_by_time (Some jobs)) d) [] =
      filter (\<lambda>j. dayKey (jb_run_at j) = d) (sort_by_time jobs)"
proof -
  have ok: "obj_ok ([] :: job list obj)" by (simp add: obj_ok_def)
  show ?thesis unfolding mob_calendar_def nullish_simps
    using group_jobs_mset [OF ok, of "\<lambda>j. dayKey (jb_run_at j)" "sort_by_time jobs"] assms [of jobs]
      group_jobs_keys [OF ok, of "\<lambda>j. dayKey (jb_run_at j)" "sort_by_time jobs"]
    by (auto simp: obj_ok_def group_jobs_get split: list.split)
qed

definition sample_job :: job where
  "sample_job = \<lparr>jb_id = js ''j1'', jb_post_id = js ''p1'', jb_channel_id = js ''c1'', jb_run_at = js ''2025-01-01T09:00'',
     jb_status = Scheduled, jb_attempts = 0, jb_last_error = None, jb_created_at = []\<rparr>"

theorem mobile_calendar_complete_witness:
  "mset (concat (map snd (mob_calendar (take 10) (sort_key (\<lambda>x. length (jb_run_at x))) (Some [sample_job])))) = {#sample_job#}"
proof -
  have "\<And>xs :: job list. mset (sort_key (\<lambda>x. length (jb_run_at x)) xs) = mset xs" by simp
  from mobile_calendar_complete [OF this, of "take 10" "[sample_job]"] show ?thesis by simp
qed

lemma publish_sheet_exclusive:
  "si_runAt (publish_request toISO now postId s) = None \<longleftrightarrow> si_toSlots (publish_request toISO now postId s) = Some True"
  by (simp add: publish_request_def)

end
