(* ===== verification/MobileRefines.thy ===== *)
theory MobileRefines
  imports MobileCompose
begin

text \<open>
  The mobile composer (\<open>ComposeScreen\<close>) as an implementation of the web composer
  (\<open>composer_step\<close>) that keeps one text for all channels. The web editor is the abstract
  machine: a mobile state is related to a web editor on its shared tab without texts of a
  channel's own, and every mobile event to the web events with the same effect. Error texts
  and verdicts are left out of the relation, since the clients word and clear them differently.
\<close>

section \<open>The relation\<close>

definition abs_state :: "mob_compose \<Rightarrow> composer_state" where
  "abs_state s = \<lparr>cs_selected = mk_selected s, cs_masterBody = mk_body s, cs_overrides = [], cs_media = mk_media s\<rparr>"

definition sim :: "mob_compose \<Rightarrow> composer \<Rightarrow> bool" where
  "sim s c = (co_state c = abs_state s \<and> co_postId c = mk_postId s \<and> co_tab c = all_tab \<and> co_phase c = mk_phase s)"

text \<open>The web events an event of the mobile screen stands for.\<close>

fun web_events :: "channel list \<Rightarrow> mob_compose \<Rightarrow> mob_compose_event \<Rightarrow> composer_event list" where
  "web_events channels s (Mk_toggle ch) = [Click_channel ch]"
| "web_events channels s (Mk_type t) = [Type_text t]"
| "web_events channels s (Mk_uploaded r) =
     (case r of Inr a \<Rightarrow> if mk_uploading s then [Pick_media a] else [] | Inl _ \<Rightarrow> [])"
| "web_events channels s (Mk_remove i) = [Remove_media i]"
| "web_events channels s Mk_save = (if mob_save_disabled channels s then [] else [Click_save])"
| "web_events channels s (Mk_written r) = [Write_settled r]"
| "web_events channels s (Mk_validated r) = [Validate_settled r]"
| "web_events channels s _ = []"

text \<open>Opening another post or starting a new one mounts a new editor on the web and is left out.\<close>

fun plain :: "mob_compose_event \<Rightarrow> bool" where
  "plain (Mk_edit p) = False"
| "plain Mk_new = False"
| "plain _ = True"

text \<open>The assets a run uploads; the server gives each upload an id of its own.\<close>

fun uploads :: "mob_compose_event list \<Rightarrow> jstring list" where
  "uploads [] = []"
| "uploads (Mk_uploaded (Inr a) # es) = as_id a # uploads es"
| "uploads (_ # es) = uploads es"

definition fresh_uploads :: "mob_compose \<Rightarrow> mob_compose_event list \<Rightarrow> bool" where
  "fresh_uploads s es = (distinct (uploads es) \<and> set (uploads es) \<inter> mm_media_id ` set (mk_media s) = {})"

section \<open>Simulation\<close>

lemma composer_run_append:
  "composer_run channels c (a @ b) =
     (case composer_run channels c a of (c1, out1) \<Rightarrow>
       (case composer_run channels c1 b of (c2, out2) \<Rightarrow> (c2, out1 @ out2)))"
  by (induction a arbitrary: c) (auto simp: case_prod_beta)

lemma save_variants_abs: "save_variants (abs_state s) = mob_variants s"
  by (simp add: save_variants_def mob_variants_def abs_state_def bodyFor_def)

lemma composer_save_enabled:
  assumes "sim s c" and "\<not> mob_save_disabled channels s"
  shows "\<not> save_disabled c"
  using assms by (auto simp: sim_def abs_state_def save_disabled_def saving_def mob_save_disabled_def)

text \<open>One mobile step is matched by its web events, with the same calls.\<close>

lemma sim_step:
  assumes "sim s c" and "plain e" and "fresh_uploads s [e]"
  shows "sim (fst (ComposeScreen channels s e)) (fst (composer_run channels c (web_events channels s e))) \<and>
    snd (composer_run channels c (web_events channels s e)) = snd (ComposeScreen channels s e)"
proof (cases e)
  case (Mk_toggle ch)
  then show ?thesis using assms(1)
    by (auto simp: sim_def abs_state_def picker_click_def toggleChannel_def toggle_selected_def mob_toggle_def)
next
  case (Mk_type t)
  then show ?thesis using assms(1)
    by (auto simp: sim_def abs_state_def editor_shown_def on_state_def put_body_def)
next
  case (Mk_uploaded r)
  then show ?thesis using assms
    by (force simp: sim_def abs_state_def on_state_def pick_media_def fresh_uploads_def split: sum.splits)
next
  case Mk_save
  show ?thesis
  proof (cases "mob_save_disabled channels s")
    case False
    then have "\<not> save_disabled c" by (rule composer_save_enabled [OF assms(1)])
    with False assms(1) Mk_save show ?thesis
      by (auto simp: sim_def save_start_def Let_def save_variants_abs split: option.split) (simp_all add: abs_state_def)
  qed (use assms(1) Mk_save in \<open>simp add: sim_def\<close>)
next
  case (Mk_written r)
  then show ?thesis using assms(1)
    by (auto simp: sim_def abs_state_def save_written_def split: sum.split)
next
  case (Mk_validated r)
  then show ?thesis using assms(1)
    by (auto simp: sim_def abs_state_def save_validated_def split: sum.split)
qed (use assms in \<open>auto simp: sim_def abs_state_def on_state_def\<close>)

lemma media_step:
  "mm_media_id ` set (mk_media (fst (ComposeScreen channels s e))) \<subseteq>
     mm_media_id ` set (mk_media s) \<union> (if plain e then set (uploads [e]) else UNIV)"
  by (cases e) (auto simp: toMeta_def mob_toggle_def remove_media_def split: sum.splits)

lemma fresh_uploads_step:
  assumes "fresh_uploads s (e # es)" and "plain e"
  shows "fresh_uploads s [e] \<and> fresh_uploads (fst (ComposeScreen channels s e)) es"
proof -
  have split: "uploads (e # es) = uploads [e] @ uploads es"
  proof (cases e)
    case (Mk_uploaded r)
    then show ?thesis by (cases r) simp_all
  qed simp_all
  show ?thesis using assms media_step [of channels s e] unfolding fresh_uploads_def split by auto
qed

lemma sim_runs:
  "sim s c \<Longrightarrow> list_all plain es \<Longrightarrow> fresh_uploads s es \<Longrightarrow>
   \<exists>ws. snd (composer_run channels c ws) = snd (runs (ComposeScreen channels) s es) \<and>
     sim (fst (runs (ComposeScreen channels) s es)) (fst (composer_run channels c ws))"
proof (induction es arbitrary: s c)
  case (Cons e es)
  let ?s1 = "fst (ComposeScreen channels s e)" and ?w = "web_events channels s e"
  have fresh: "fresh_uploads s [e]" "fresh_uploads ?s1 es"
    using fresh_uploads_step [OF Cons.prems(3)] Cons.prems(2) by simp_all
  have step: "sim ?s1 (fst (composer_run channels c ?w))" "snd (composer_run channels c ?w) = snd (ComposeScreen channels s e)"
    using sim_step [OF Cons.prems(1) _ fresh(1)] Cons.prems(2) by simp_all
  from Cons.IH [OF step(1) _ fresh(2)] Cons.prems(2) obtain ws where
    "snd (composer_run channels (fst (composer_run channels c ?w)) ws) = snd (runs (ComposeScreen channels) ?s1 es)"
    "sim (fst (runs (ComposeScreen channels) ?s1 es)) (fst (composer_run channels (fst (composer_run channels c ?w)) ws))"
    by auto
  then show ?case using step(2) by (intro exI [of _ "?w @ ws"]) (simp add: composer_run_append case_prod_beta)
qed (auto intro: exI [of _ "[]"])

section \<open>Refinement\<close>

text \<open>
  C18. The mobile composer refines the web composer: every sequence of creates, updates and
  validations the mobile screen can issue while it works on one new post, the web editor can
  issue too, call for call, and both then hold the same selection, text, attachments and post id.
\<close>

theorem mobile_refines_web:
  assumes "list_all plain es" and "distinct (uploads es)"
  shows "\<exists>ws. snd (composer_run channels (composer_init None) ws) = snd (runs (ComposeScreen channels) mob_compose_init es) \<and>
    co_state (fst (composer_run channels (composer_init None) ws)) = abs_state (fst (runs (ComposeScreen channels) mob_compose_init es)) \<and>
    co_postId (fst (composer_run channels (composer_init None) ws)) = mk_postId (fst (runs (ComposeScreen channels) mob_compose_init es))"
proof -
  have "sim mob_compose_init (composer_init None)"
    by (simp add: sim_def abs_state_def mob_compose_init_def composer_init_def fromPost_def Let_def overrides_of_def)
  moreover have "fresh_uploads mob_compose_init es"
    using assms(2) by (simp add: fresh_uploads_def mob_compose_init_def)
  ultimately show ?thesis using sim_runs [OF _ assms(1)] unfolding sim_def by blast
qed

theorem mobile_refines_web_witness:
  "\<exists>ws vs. snd (composer_run [sample_channel ''c1'' ''twitter''] (composer_init None) ws) = [Cmd_create vs] \<and>
     map vi_body vs = [Some (js ''hi'')]"
proof -
  let ?chs = "[sample_channel ''c1'' ''twitter'']"
  let ?es = "[Mk_toggle (js ''c1''), Mk_type (js ''hi''), Mk_save]"
  have "\<not> pi_requiresMedia (mobile_platformInfo (js ''twitter''))"
    by (simp add: mobile_platformInfo_def mobile_PLATFORMS_def basic_info_def)
  then have "snd (runs (ComposeScreen ?chs) mob_compose_init ?es) =
      [Cmd_create [\<lparr>vi_channel_id = js ''c1'', vi_body = Some (js ''hi''), vi_media = None, vi_platform_options = None\<rparr>]]"
    by (simp add: mob_compose_init_def mob_toggle_def toggle_def sample_channel_def mob_save_disabled_def mob_missingMedia_def
        mob_mediaRequired_none map_get_def trim_sample mob_variants_def)
  moreover obtain ws where "snd (composer_run ?chs (composer_init None) ws) = snd (runs (ComposeScreen ?chs) mob_compose_init ?es)"
    using mobile_refines_web [of ?es ?chs] by (auto simp del: runs.simps)
  ultimately show ?thesis by (intro exI conjI) (simp del: runs.simps, simp)
qed

end
