(* ===== verification/Insights.thy ===== *)
theory Insights
  imports Schedule MobileCompose "HOL-Library.List_Lexorder"
begin

text \<open>
  The analytics screens (\<^verbatim>\<open>web/src/features/analytics/\<close>: the overview table, the breakdown of
  one post with its pickers, the chart's data; \<^verbatim>\<open>mobile/src/app/(tabs)/more/analytics.tsx\<close>)
  and the dashboard (\<^verbatim>\<open>web/src/features/dashboard/overview-widgets.tsx\<close>). Formatting of dates,
  \<open>localeCompare\<close> and the clock are parameters; the plain \<open>sort()\<close> of metric names orders
  by UTF-16 units, which is the lexicographic order on lists of 16-bit words.
\<close>

section \<open>The breakdown of a post\<close>

record post_detail =
  pd_channelId :: "jstring option"
  pd_metric :: "jstring option"
  pd_days :: nat

definition detail_init :: post_detail where
  "detail_init = \<lparr>pd_channelId = None, pd_metric = None, pd_days = 30\<rparr>"

definition RANGES :: "(nat \<times> jstring) list" where
  "RANGES = [(7, js ''7d''), (30, js ''30d''), (90, js ''90d'')]"

definition activeChannelId :: "channel_metrics list \<Rightarrow> post_detail \<Rightarrow> jstring option" where
  "activeChannelId perChannel s =
     (case pd_channelId s of
        Some c \<Rightarrow> Some c
      | None \<Rightarrow> (case perChannel of [] \<Rightarrow> None | r # _ \<Rightarrow> Some (cm_channel_id r)))"

definition activeRow :: "channel_metrics list \<Rightarrow> post_detail \<Rightarrow> channel_metrics option" where
  "activeRow perChannel s = find (\<lambda>r. Some (cm_channel_id r) = activeChannelId perChannel s) perChannel"

definition metricNames :: "channel_metrics list \<Rightarrow> post_detail \<Rightarrow> jstring list" where
  "metricNames perChannel s =
     (case activeRow perChannel s of None \<Rightarrow> [] | Some r \<Rightarrow> sort (map fst (cm_metrics r)))"

definition activeMetric :: "channel_metrics list \<Rightarrow> post_detail \<Rightarrow> jstring option" where
  "activeMetric perChannel s =
     (let names = metricNames perChannel s;
          first = (case names of [] \<Rightarrow> None | n # _ \<Rightarrow> Some n)
      in case pd_metric s of
           Some m \<Rightarrow> if truthy m \<and> m \<in> set names then Some m else first
         | None \<Rightarrow> first)"

text \<open>The window is \<open>days\<close> back from the time of the render that chose them; \<open>ago\<close> is the ISO text of it.\<close>

definition detail_series :: "(nat \<Rightarrow> jstring) \<Rightarrow> jstring \<Rightarrow> jstring \<Rightarrow> jstring \<Rightarrow> channel_metrics list \<Rightarrow> post_detail \<Rightarrow> series_args" where
  "detail_series ago now ws postId perChannel s =
     \<lparr>sa_workspaceId = Some ws, sa_postId = Some postId, sa_channelId = activeChannelId perChannel s,
      sa_metric = nullish (activeMetric perChannel s) [], sa_from = Some (ago (pd_days s)), sa_to = Some now\<rparr>"

datatype detail_event = Pd_channel jstring | Pd_metric jstring | Pd_days nat

text \<open>The pickers offer the loaded channels, the names of the active row and the three ranges.\<close>

fun PostDetail :: "channel_metrics list \<Rightarrow> post_detail \<Rightarrow> detail_event \<Rightarrow> post_detail" where
  "PostDetail perChannel s (Pd_channel c) =
     (if c \<in> cm_channel_id ` set perChannel then s\<lparr>pd_channelId := Some c, pd_metric := None\<rparr> else s)"
| "PostDetail perChannel s (Pd_metric m) =
     (if m \<in> set (metricNames perChannel s) then s\<lparr>pd_metric := Some m\<rparr> else s)"
| "PostDetail perChannel s (Pd_days d) = (if d \<in> fst ` set RANGES then s\<lparr>pd_days := d\<rparr> else s)"

datatype detail_part = Detail_loading | Detail_empty | Detail_rows "channel_metrics list"

definition detail_view :: "bool \<Rightarrow> channel_metrics list option \<Rightarrow> detail_part" where
  "detail_view isPending perChannel =
     (if isPending then Detail_loading
      else case perChannel of None \<Rightarrow> Detail_empty | Some [] \<Rightarrow> Detail_empty | Some rs \<Rightarrow> Detail_rows rs)"

text \<open>Under the pickers: a query that is not enabled never settles, and its spinner stays.\<close>

datatype series_part = Series_loading | Series_empty | Series_chart "(jstring \<times> int) list"

definition SeriesChart :: "(jstring \<Rightarrow> jstring) \<Rightarrow> series_point list \<Rightarrow> (jstring \<times> int) list" where
  "SeriesChart fmt points = map (\<lambda>p. (fmt (sp_captured_at p), sp_value p)) points"

definition series_view :: "(jstring \<Rightarrow> jstring) \<Rightarrow> bool \<Rightarrow> series_point list option \<Rightarrow> jstring option \<Rightarrow> series_part list" where
  "series_view fmt isPending points metric =
     (if isPending then [Series_loading] else []) @
     (case points of
        None \<Rightarrow> []
      | Some [] \<Rightarrow> [Series_empty]
      | Some ps \<Rightarrow> if truthy_opt metric then [Series_chart (SeriesChart fmt ps)] else [])"

section \<open>The overview table\<close>

record analytics_screen =
  an_selectedPostId :: "jstring option"
  an_detail :: post_detail

definition analytics_init :: analytics_screen where
  "analytics_init = \<lparr>an_selectedPostId = None, an_detail = detail_init\<rparr>"

text \<open>
  A click on a row selects its post or closes it. The breakdown is one component without a
  key: it is mounted when a first post is selected, keeps its state when the selection moves
  to another post, and is unmounted when the selection is closed.
\<close>

definition analytics_click :: "post_metrics \<Rightarrow> analytics_screen \<Rightarrow> analytics_screen" where
  "analytics_click row s =
     (if an_selectedPostId s = Some (pm_post_id row)
      then s\<lparr>an_selectedPostId := None, an_detail := detail_init\<rparr>
      else s\<lparr>an_selectedPostId := Some (pm_post_id row)\<rparr>)"

definition post_excerpt :: "post list \<Rightarrow> jstring \<Rightarrow> jstring" where
  "post_excerpt posts i =
     (case map_get po_id posts i of
        None \<Rightarrow> take 8 i
      | Some p \<Rightarrow> (case po_variants p of Some (v # _) \<Rightarrow> va_body v | _ \<Rightarrow> js ''(no text)''))"

definition channel_label :: "channel list \<Rightarrow> jstring \<Rightarrow> jstring" where
  "channel_label channels i = (case map_get ch_id channels i of Some c \<Rightarrow> atHandle (ch_handle c) | None \<Rightarrow> take 8 i)"

text \<open>The numbers of a row, in the order of their names.\<close>

definition metrics_text :: "((jstring \<times> int) list \<Rightarrow> (jstring \<times> int) list) \<Rightarrow> int obj \<Rightarrow> jstring" where
  "metrics_text by_name metrics =
     concat (map (\<lambda>(i, k, v). (if i = 0 then [] else [0x20, 0xB7, 0x20]) @ k @ js '' '' @ show_int v)
       (enumerate 0 (by_name metrics)))"

datatype overview_part = Overview_loading | Overview_error | Overview_waiting | Overview_none | Overview_rows "post_metrics list"

definition overview_view :: "bool \<Rightarrow> bool \<Rightarrow> post_metrics list option \<Rightarrow> post list option \<Rightarrow> overview_part list" where
  "overview_view isPending isError rows posts =
     (if isPending then [Overview_loading] else []) @ (if isError then [Overview_error] else []) @
     (case rows of
        None \<Rightarrow> []
      | Some [] \<Rightarrow> [if list_ex (\<lambda>p. po_status p = js ''published'') (nullish posts []) then Overview_waiting else Overview_none]
      | Some rs \<Rightarrow> [Overview_rows rs])"

text \<open>The mobile table shows an excerpt only when there is one.\<close>

definition mob_excerptFor :: "post list \<Rightarrow> jstring \<Rightarrow> jstring option" where
  "mob_excerptFor posts i =
     (case find (\<lambda>p. po_id p = i) posts of
        None \<Rightarrow> None
      | Some p \<Rightarrow> (case po_variants p of Some (v # _) \<Rightarrow> Some (va_body v) | _ \<Rightarrow> None))"

section \<open>The dashboard\<close>

definition upcoming :: "(job list \<Rightarrow> job list) \<Rightarrow> job list option \<Rightarrow> job list" where
  "upcoming sort_by_time jobs = take 5 (sort_by_time (filter (\<lambda>j. jb_status j = Scheduled) (nullish jobs [])))"

definition dashboard_drafts :: "post list option \<Rightarrow> post list" where
  "dashboard_drafts posts = take 5 (filter (\<lambda>p. po_status p = js ''draft'') (nullish posts []))"

definition needsAttention :: "channel list option \<Rightarrow> channel list" where
  "needsAttention channels = filter (\<lambda>c. ch_status c \<noteq> Active) (nullish channels [])"

definition channels_summary :: "channel list \<Rightarrow> jstring" where
  "channels_summary channels = show_nat (length channels) @ js '' connected'' @
     (if needsAttention (Some channels) \<noteq> []
      then [0x20, 0xB7, 0x20] @ show_nat (length (needsAttention (Some channels))) @ js '' need attention'' else [])"

definition dashboard_calendar :: "(int \<Rightarrow> jstring) \<Rightarrow> (int \<Rightarrow> int) \<Rightarrow> jstring option \<Rightarrow> int
    \<Rightarrow> (job list option api_result, job list) query_hook" where
  "dashboard_calendar toISO in_a_week ws now = useCalendar ws (Some (toISO now)) (Some (toISO (in_a_week now)))"

section \<open>Lemmas\<close>

text \<open>The pickers of a breakdown stay on the post: the channel is one of the loaded ones, or not chosen yet.\<close>

definition detail_ok :: "channel_metrics list \<Rightarrow> post_detail \<Rightarrow> bool" where
  "detail_ok perChannel s =
     ((case pd_channelId s of None \<Rightarrow> True | Some c \<Rightarrow> c \<in> cm_channel_id ` set perChannel) \<and>
      pd_days s \<in> fst ` set RANGES)"

lemma PostDetail_ok: "detail_ok perChannel s \<Longrightarrow> detail_ok perChannel (PostDetail perChannel s e)"
  by (cases e) (auto simp: detail_ok_def)

lemma PostDetail_runs_ok: "detail_ok perChannel s \<Longrightarrow> detail_ok perChannel (fold (\<lambda>e s. PostDetail perChannel s e) es s)"
  by (induction es arbitrary: s) (simp_all add: PostDetail_ok)

lemma activeRow_exists:
  assumes "detail_ok perChannel s" and "perChannel \<noteq> []"
  shows "\<exists>r. activeRow perChannel s = Some r \<and> r \<in> set perChannel \<and> activeChannelId perChannel s = Some (cm_channel_id r)"
proof -
  have "\<exists>r\<in>set perChannel. Some (cm_channel_id r) = activeChannelId perChannel s"
    using assms by (auto simp: detail_ok_def activeChannelId_def split: option.splits list.splits)
  then have "activeRow perChannel s \<noteq> None" by (auto simp: activeRow_def find_None_iff)
  then show ?thesis by (auto simp: activeRow_def find_Some_iff)
qed

lemma activeMetric_in:
  "activeMetric perChannel s = Some m \<Longrightarrow> m \<in> set (metricNames perChannel s)"
  by (auto simp: activeMetric_def Let_def split: option.splits list.splits if_splits)

lemma activeMetric_None: "activeMetric perChannel s = None \<longleftrightarrow> metricNames perChannel s = []"
  by (auto simp: activeMetric_def Let_def split: option.splits list.splits if_splits)

lemma hd_sort_Min:
  assumes "xs \<noteq> []"
  shows "hd (sort xs) = Min (set (xs :: 'a::linorder list))"
proof -
  from assms have "sort xs \<noteq> []" by (metis set_empty set_sort)
  then obtain y ys where eq: "sort xs = y # ys" by (cases "sort xs") auto
  then have "set xs = insert y (set ys)" by (metis list.simps(15) set_sort)
  moreover have "\<forall>z\<in>set ys. y \<le> z" using sorted_sort [of xs] eq by simp
  ultimately show ?thesis using eq by (auto intro!: Min_eqI [symmetric])
qed

section \<open>Properties\<close>

text \<open>
  What the chart of a breakdown asks for: whatever is picked, once a post's numbers have
  loaded the series requested is that of one of the post's own channels and, when that channel
  has numbers, of a metric it really has; before anything is picked it is the first channel and
  its first metric by name.
\<close>

theorem series_request_valid:
  assumes "perChannel \<noteq> []"
  shows "let s = fold (\<lambda>e s. PostDetail perChannel s e) es detail_init;
        a = detail_series ago now ws postId perChannel s in
    \<exists>r\<in>set perChannel. sa_channelId a = Some (cm_channel_id r) \<and>
      (if cm_metrics r = [] then sa_metric a = [] else sa_metric a \<in> fst ` set (cm_metrics r)) \<and>
      (if es = [] then r = hd perChannel \<and> (cm_metrics r \<noteq> [] \<longrightarrow> sa_metric a = Min (fst ` set (cm_metrics r))) else True)"
proof -
  let ?s = "fold (\<lambda>e s. PostDetail perChannel s e) es detail_init"
  have "detail_ok perChannel detail_init" by (simp add: detail_ok_def detail_init_def RANGES_def)
  from activeRow_exists [OF PostDetail_runs_ok [OF this] assms, of es] obtain r where
    r: "activeRow perChannel ?s = Some r" "r \<in> set perChannel" "activeChannelId perChannel ?s = Some (cm_channel_id r)" by blast
  then have names: "metricNames perChannel ?s = sort (map fst (cm_metrics r))" by (simp add: metricNames_def)
  have none: "sort (map fst (cm_metrics r)) = [] \<longleftrightarrow> cm_metrics r = []"
    by (metis set_empty set_sort map_is_Nil_conv)
  have metric: "if cm_metrics r = [] then nullish (activeMetric perChannel ?s) [] = []
      else nullish (activeMetric perChannel ?s) [] \<in> fst ` set (cm_metrics r)"
    using activeMetric_in [of perChannel ?s] activeMetric_None [of perChannel ?s] names none
    by (cases "activeMetric perChannel ?s") auto
  have first: "r = hd perChannel \<and> (cm_metrics r \<noteq> [] \<longrightarrow> nullish (activeMetric perChannel ?s) [] = Min (fst ` set (cm_metrics r)))"
    if "es = []"
  proof -
    have "r = hd perChannel" using that r assms
      by (cases perChannel) (auto simp: activeRow_def activeChannelId_def detail_init_def)
    moreover have "nullish (activeMetric perChannel ?s) [] = Min (fst ` set (cm_metrics r))" if "cm_metrics r \<noteq> []"
    proof -
      from that none obtain n ns where eq: "sort (map fst (cm_metrics r)) = n # ns" by (cases "sort (map fst (cm_metrics r))") auto
      with \<open>es = []\<close> names show ?thesis
        using hd_sort_Min [of "map fst (cm_metrics r)"] that by (simp add: activeMetric_def Let_def detail_init_def)
    qed
    ultimately show ?thesis by blast
  qed
  show ?thesis using r metric first unfolding Let_def detail_series_def by (intro bexI [of _ r]) auto
qed

definition sample_numbers :: "string \<Rightarrow> (string \<times> int) list \<Rightarrow> channel_metrics" where
  "sample_numbers ch ns = \<lparr>cm_channel_id = js ch, cm_platform_post_id = js ''p'',
     cm_metrics = map (\<lambda>(k, v). (js k, v)) ns, cm_captured_at = []\<rparr>"

theorem series_request_valid_witness:
  "let perChannel = [sample_numbers ''c1'' [(''likes'', 3), (''clicks'', 1)], sample_numbers ''c2'' []];
       s = fold (\<lambda>e s. PostDetail perChannel s e) [Pd_metric (js ''likes''), Pd_channel (js ''c2'')] detail_init;
       a = detail_series (\<lambda>_. js ''from'') (js ''to'') (js ''w'') (js ''p1'') perChannel s in
   perChannel \<noteq> [] \<and> sa_channelId a = Some (js ''c2'') \<and>
   (\<exists>r\<in>set perChannel. sa_channelId a = Some (cm_channel_id r) \<and>
      (if cm_metrics r = [] then sa_metric a = [] else sa_metric a \<in> fst ` set (cm_metrics r)))"
proof -
  let ?per = "[sample_numbers ''c1'' [(''likes'', 3), (''clicks'', 1)], sample_numbers ''c2'' []]"
  let ?es = "[Pd_metric (js ''likes''), Pd_channel (js ''c2'')]"
  have "sa_channelId (detail_series (\<lambda>_. js ''from'') (js ''to'') (js ''w'') (js ''p1'') ?per
      (fold (\<lambda>e s. PostDetail ?per s e) ?es detail_init)) = Some (js ''c2'')"
    by (simp add: detail_series_def activeChannelId_def sample_numbers_def)
  then show ?thesis
    using series_request_valid [of ?per ?es "\<lambda>_. js ''from''" "js ''to''" "js ''w''" "js ''p1''"]
    unfolding Let_def by auto
qed

text \<open>
  The breakdown is not remounted when the selection moves: if a channel was picked in the
  breakdown of one post and another post that was not published there is then clicked, no
  channel of the new post is active, no metric can be picked, and the series query stays
  disabled whatever metric or range is clicked, so its spinner never ends.
\<close>

theorem series_stuck_after_switch:
  assumes other: "an_selectedPostId s \<noteq> Some (pm_post_id row)"
    and picked: "pd_channelId (an_detail s) = Some c"
    and absent: "c \<notin> cm_channel_id ` set perChannel"
    and no_channel: "\<forall>e\<in>set es. \<forall>ch. e \<noteq> Pd_channel ch"
  shows "let d = fold (\<lambda>e s. PostDetail perChannel s e) es (an_detail (analytics_click row s)) in
    activeRow perChannel d = None \<and> metricNames perChannel d = [] \<and>
    \<not> q_enabled (useMetricSeries (detail_series ago now ws (pm_post_id row) perChannel d))"
proof -
  have stays: "pd_channelId (fold (\<lambda>e s. PostDetail perChannel s e) es d) = pd_channelId d"
    if "\<forall>e\<in>set es. \<forall>ch. e \<noteq> Pd_channel ch" for es d
    using that
  proof (induction es arbitrary: d)
    case (Cons e es)
    then have "pd_channelId (PostDetail perChannel d e) = pd_channelId d" by (cases e) auto
    with Cons show ?case by simp
  qed simp
  let ?d = "fold (\<lambda>e s. PostDetail perChannel s e) es (an_detail (analytics_click row s))"
  have "pd_channelId ?d = Some c"
    using stays [OF no_channel] other picked by (simp add: analytics_click_def)
  then have row: "activeRow perChannel ?d = None"
    using absent by (auto simp: activeRow_def activeChannelId_def find_None_iff)
  then have names: "metricNames perChannel ?d = []" by (simp add: metricNames_def)
  then have "activeMetric perChannel ?d = None" by (simp add: activeMetric_None)
  with row names show ?thesis by (simp add: Let_def useMetricSeries_def detail_series_def)
qed

definition sample_row :: "string \<Rightarrow> post_metrics" where
  "sample_row i = \<lparr>pm_post_id = js i, pm_channel_id = js ''c2'', pm_platform_post_id = js ''x'', pm_metrics = [],
     pm_captured_at = []\<rparr>"

theorem series_stuck_after_switch_witness:
  "let s0 = analytics_click (sample_row ''p1'') analytics_init;
       s = s0\<lparr>an_detail := PostDetail [sample_numbers ''c1'' [(''likes'', 3)]] (an_detail s0) (Pd_channel (js ''c1''))\<rparr>;
       per2 = [sample_numbers ''c2'' [(''likes'', 5)]] in
   activeMetric per2 detail_init = Some (js ''likes'') \<and>
   \<not> q_enabled (useMetricSeries (detail_series (\<lambda>_. js ''from'') (js ''to'') (js ''w'') (js ''p2'') per2
        (fold (\<lambda>e s. PostDetail per2 s e) [Pd_metric (js ''likes''), Pd_days 7] (an_detail (analytics_click (sample_row ''p2'') s)))))"
proof -
  let ?s0 = "analytics_click (sample_row ''p1'') analytics_init"
  let ?s = "?s0\<lparr>an_detail := PostDetail [sample_numbers ''c1'' [(''likes'', 3)]] (an_detail ?s0) (Pd_channel (js ''c1''))\<rparr>"
  let ?per2 = "[sample_numbers ''c2'' [(''likes'', 5)]]"
  have ids: "js ''c1'' \<noteq> js ''c2''" "js ''p1'' \<noteq> js ''p2''" by code_simp+
  have "activeMetric ?per2 detail_init = Some (js ''likes'')"
    by (simp add: activeMetric_def metricNames_def activeRow_def activeChannelId_def detail_init_def sample_numbers_def)
  moreover have "an_selectedPostId ?s \<noteq> Some (pm_post_id (sample_row ''p2''))"
    using ids by (simp add: analytics_click_def analytics_init_def sample_row_def)
  moreover have "pd_channelId (an_detail ?s) = Some (js ''c1'')" by (simp add: sample_numbers_def)
  moreover have "js ''c1'' \<notin> cm_channel_id ` set ?per2" using ids by (simp add: sample_numbers_def)
  ultimately show ?thesis
    using series_stuck_after_switch [of ?s "sample_row ''p2''" "js ''c1''" ?per2 "[Pd_metric (js ''likes''), Pd_days 7]"
        "\<lambda>_. js ''from''" "js ''to''" "js ''w''"]
    by (simp add: Let_def sample_row_def)
qed

text \<open>
  The dashboard's list of coming posts: at most five jobs, each scheduled and of the
  loaded window, in the order of their times; and a scheduled job is left out only if five
  are shown and none of them is later than it.
\<close>

theorem upcoming_earliest:
  fixes le :: "jstring \<Rightarrow> jstring \<Rightarrow> bool" and sort_by_time :: "job list \<Rightarrow> job list"
  assumes perm: "\<And>xs. mset (sort_by_time xs) = mset xs"
    and ordered: "\<And>xs. sorted_wrt (\<lambda>a b. le (jb_run_at a) (jb_run_at b)) (sort_by_time xs)"
  shows "let shown = upcoming sort_by_time (Some jobs) in
    length shown \<le> 5 \<and> sorted_wrt (\<lambda>a b. le (jb_run_at a) (jb_run_at b)) shown \<and>
    set shown \<subseteq> {j \<in> set jobs. jb_status j = Scheduled} \<and>
    (\<forall>j\<in>set jobs. jb_status j = Scheduled \<longrightarrow> j \<notin> set shown \<longrightarrow>
       length shown = 5 \<and> (\<forall>k\<in>set shown. le (jb_run_at k) (jb_run_at j)))"
proof -
  let ?xs = "sort_by_time (filter (\<lambda>j. jb_status j = Scheduled) jobs)"
  have set: "set ?xs = {j \<in> set jobs. jb_status j = Scheduled}"
    using perm [of "filter (\<lambda>j. jb_status j = Scheduled) jobs"] by (metis set_filter set_mset_mset)
  have split: "sorted_wrt (\<lambda>a b. le (jb_run_at a) (jb_run_at b)) (take 5 ?xs @ drop 5 ?xs)"
    using ordered by simp
  have rest: "length (take 5 ?xs) = 5 \<and> (\<forall>k\<in>set (take 5 ?xs). le (jb_run_at k) (jb_run_at j))"
    if "j \<in> set jobs" "jb_status j = Scheduled" "j \<notin> set (take 5 ?xs)" for j
  proof -
    have "j \<in> set (take 5 ?xs @ drop 5 ?xs)" using that(1,2) set by simp
    with that(3) have late: "j \<in> set (drop 5 ?xs)" by (metis Un_iff set_append)
    then have "length ?xs > 5" by (cases "length ?xs > 5") auto
    moreover have "\<forall>k\<in>set (take 5 ?xs). le (jb_run_at k) (jb_run_at j)"
      using split late unfolding sorted_wrt_append by blast
    ultimately show ?thesis by simp
  qed
  have "sorted_wrt (\<lambda>a b. le (jb_run_at a) (jb_run_at b)) (take 5 ?xs)"
    using split unfolding sorted_wrt_append by blast
  moreover have "set (take 5 ?xs) \<subseteq> {j \<in> set jobs. jb_status j = Scheduled}"
    using set_take_subset [of 5 ?xs] set by blast
  ultimately show ?thesis unfolding Let_def upcoming_def nullish_simps using rest by simp
qed

theorem upcoming_earliest_witness:
  "let job = \<lambda>i t st. \<lparr>jb_id = js i, jb_post_id = js ''p'', jb_channel_id = js ''c'', jb_run_at = js t, jb_status = st,
         jb_attempts = 0, jb_last_error = None, jb_created_at = js t\<rparr>;
       shown = upcoming (sort_key jb_run_at) (Some [job ''j1'' ''2026-05-02'' Scheduled, job ''j2'' ''2026-05-01'' Published,
          job ''j3'' ''2026-05-01'' Scheduled]) in
   map jb_id shown = [js ''j3'', js ''j1''] \<and> length shown \<le> 5 \<and> sorted_wrt (\<lambda>a b. jb_run_at a \<le> jb_run_at b) shown"
proof -
  let ?job = "\<lambda>i t st. \<lparr>jb_id = js i, jb_post_id = js ''p'', jb_channel_id = js ''c'', jb_run_at = js t, jb_status = st,
         jb_attempts = 0, jb_last_error = None, jb_created_at = js t\<rparr>"
  let ?jobs = "[?job ''j1'' ''2026-05-02'' Scheduled, ?job ''j2'' ''2026-05-01'' Published, ?job ''j3'' ''2026-05-01'' Scheduled]"
  have perm: "mset (sort_key jb_run_at xs) = mset xs" for xs :: "job list" by simp
  have ordered: "sorted_wrt (\<lambda>a b. jb_run_at a \<le> jb_run_at b) (sort_key jb_run_at xs)" for xs :: "job list"
    using sorted_sort_key [of jb_run_at xs] by (simp add: sorted_map)
  have "map jb_id (upcoming (sort_key jb_run_at) (Some ?jobs)) = [js ''j3'', js ''j1'']" by code_simp
  then show ?thesis
    using upcoming_earliest [OF perm ordered, of ?jobs] unfolding Let_def by blast
qed

end
