(* ===== verification/Screens.thy ===== *)
theory Screens
  imports WebData Config
begin

text \<open>
  Smaller parts of the web client: the structured logger (\<^verbatim>\<open>web/src/lib/logger.ts\<close>) with the
  error boundaries that call it and its mobile twin, the integrations page
  (\<^verbatim>\<open>web/src/features/integrations/integrations-screen.tsx\<close>) and the list of platforms on the
  channels page (\<^verbatim>\<open>web/src/features/channels/channels-panel.tsx\<close>). A log field may be
  \<open>undefined\<close>, hence the optional values; the clock is a parameter.
\<close>

section \<open>The logger\<close>

datatype log_level = Debug | Info | Warn | Error

fun level_name :: "log_level \<Rightarrow> jstring" where
  "level_name Debug = js ''debug''"
| "level_name Info = js ''info''"
| "level_name Warn = js ''warn''"
| "level_name Error = js ''error''"

fun LEVEL_WEIGHT :: "log_level \<Rightarrow> nat" where
  "LEVEL_WEIGHT Debug = 10"
| "LEVEL_WEIGHT Info = 20"
| "LEVEL_WEIGHT Warn = 30"
| "LEVEL_WEIGHT Error = 40"

type_synonym log_fields = "json option obj"

text \<open>\<open>{...a, ...b}\<close>: the properties of \<open>b\<close> replace those of \<open>a\<close> in place.\<close>

definition obj_spread :: "'v obj \<Rightarrow> 'v obj \<Rightarrow> 'v obj" where
  "obj_spread a b = fold (\<lambda>(k, v). obj_set k v) b a"

text \<open>A sink is a name for the destination; what a logger does is the record it hands to its sink.\<close>

record 's web_logger =
  lg_sink :: 's
  lg_minWeight :: nat
  lg_base :: log_fields

definition new_logger :: "'s \<Rightarrow> bool \<Rightarrow> 's web_logger" where
  "new_logger console production =
     \<lparr>lg_sink = console, lg_minWeight = (if production then LEVEL_WEIGHT Info else LEVEL_WEIGHT Debug), lg_base = []\<rparr>"

definition setSink :: "'s \<Rightarrow> 's web_logger \<Rightarrow> 's web_logger" where
  "setSink s lg = lg\<lparr>lg_sink := s\<rparr>"

definition logger_with :: "log_fields \<Rightarrow> 's web_logger \<Rightarrow> 's web_logger" where
  "logger_with fs lg =
     \<lparr>lg_sink = lg_sink lg, lg_minWeight = lg_minWeight lg, lg_base = obj_spread (lg_base lg) fs\<rparr>"

definition log_emit :: "jstring \<Rightarrow> 's web_logger \<Rightarrow> log_level \<Rightarrow> jstring \<Rightarrow> log_fields option \<Rightarrow> ('s \<times> log_fields) option" where
  "log_emit now lg level message fs =
     (if LEVEL_WEIGHT level < lg_minWeight lg then None
      else Some (lg_sink lg,
        obj_spread (obj_spread
          [(js ''level'', Some (JStr (level_name level))), (js ''message'', Some (JStr message)), (js ''time'', Some (JStr now))]
          (lg_base lg)) (nullish fs [])))"

text \<open>The console method the default sink picks by the level the record carries.\<close>

definition console_fn :: "log_fields \<Rightarrow> log_level" where
  "console_fn r =
     (let l = obj_get r (js ''level'') in
      if l = Some (Some (JStr (js ''error''))) then Error
      else if l = Some (Some (JStr (js ''warn''))) then Warn
      else if l = Some (Some (JStr (js ''debug''))) then Debug
      else Info)"

text \<open>The two error boundaries of the application log the error they caught.\<close>

definition RouteError_log :: "jstring option \<Rightarrow> jstring \<Rightarrow> log_call" where
  "RouteError_log digest message =
     \<lparr>lc_message = js ''route error boundary'',
      lc_fields = [(js ''digest'', map_option JStr digest), (js ''message'', Some (JStr message))]\<rparr>"

definition GlobalError_log :: "jstring option \<Rightarrow> jstring \<Rightarrow> log_call" where
  "GlobalError_log digest message =
     \<lparr>lc_message = js ''global error boundary'',
      lc_fields = [(js ''digest'', map_option JStr digest), (js ''message'', Some (JStr message))]\<rparr>"

text \<open>The mobile logger only writes in development builds.\<close>

definition mob_emit :: "bool \<Rightarrow> log_level \<Rightarrow> jstring \<Rightarrow> log_fields option \<Rightarrow> (log_level \<times> jstring \<times> log_fields) option" where
  "mob_emit dev level msg fs = (if dev then Some (level, js ''[postal] '' @ msg, nullish fs []) else None)"

section \<open>The integrations page\<close>

record og_card =
  og_apiKey :: jstring
  og_error :: "json option"
  og_saved :: bool
  og_pending :: bool

definition og_init :: og_card where
  "og_init = \<lparr>og_apiKey = [], og_error = None, og_saved = False, og_pending = False\<rparr>"

definition og_of :: "integration list option \<Rightarrow> integration option" where
  "og_of integrations = Option.bind integrations (find (\<lambda>i. ig_provider i = js ''ogshortener''))"

definition og_enabled :: "integration option \<Rightarrow> bool" where
  "og_enabled og = (case og of None \<Rightarrow> False | Some i \<Rightarrow> ig_enabled i)"

definition og_configured :: "integration option \<Rightarrow> bool" where
  "og_configured og = (case og of None \<Rightarrow> False | Some i \<Rightarrow> ig_configured i)"

text \<open>Which of the buttons Disable, Update key and Enable is there and can be pressed.\<close>

datatype og_button = Og_disable | Og_update | Og_enable

fun og_pressable :: "integration option \<Rightarrow> og_card \<Rightarrow> og_button \<Rightarrow> bool" where
  "og_pressable og s Og_disable = (og_enabled og \<and> \<not> og_pending s)"
| "og_pressable og s Og_update = (og_enabled og \<and> truthy (og_apiKey s) \<and> \<not> og_pending s)"
| "og_pressable og s Og_enable =
     (\<not> og_enabled og \<and> \<not> (og_pending s \<or> \<not> truthy (og_apiKey s) \<and> \<not> og_configured og))"

definition og_save :: "bool \<Rightarrow> og_card \<Rightarrow> og_card \<times> configure_input list" where
  "og_save enabled s =
     (s\<lparr>og_error := None, og_saved := False, og_pending := True\<rparr>,
      [\<lparr>ci_enabled = enabled, ci_autoApply = None,
        ci_apiKey = (if truthy (og_apiKey s) then Some (og_apiKey s) else None)\<rparr>])"

datatype og_event = Og_type jstring | Og_press og_button | Og_settled "thrown + integration"

text \<open>While the list of integrations is loading the card shows a spinner and takes no input.\<close>

fun OGShortenerCard :: "bool \<Rightarrow> integration list option \<Rightarrow> og_card \<Rightarrow> og_event \<Rightarrow> og_card \<times> configure_input list" where
  "OGShortenerCard loading integrations s (Og_type k) = (if loading then (s, []) else (s\<lparr>og_apiKey := k\<rparr>, []))"
| "OGShortenerCard loading integrations s (Og_press b) =
     (if \<not> loading \<and> og_pressable (og_of integrations) s b then og_save (b \<noteq> Og_disable) s else (s, []))"
| "OGShortenerCard loading integrations s (Og_settled r) =
     (if \<not> og_pending s then (s, [])
      else case r of
        Inl e \<Rightarrow> (s\<lparr>og_error := Some (thrown_message e), og_pending := False\<rparr>, [])
      | Inr i \<Rightarrow> (s\<lparr>og_apiKey := [], og_saved := True, og_pending := False\<rparr>, []))"

definition og_status :: "integration option \<Rightarrow> jstring" where
  "og_status og = (if og_enabled og then js ''Enabled'' else if og_configured og then js ''Configured'' else js ''Not connected'')"

definition og_saved_shown :: "og_card \<Rightarrow> bool" where
  "og_saved_shown s = (og_saved s \<and> (case og_error s of None \<Rightarrow> True | Some m \<Rightarrow> m = JNull \<or> m = JStr [] \<or> m = JBool False \<or> m = JInt 0))"

text \<open>A run: each event comes with what the list of integrations then is; each request with the same.\<close>

fun og_run :: "og_card \<Rightarrow> (bool \<times> integration list option \<times> og_event) list \<Rightarrow> og_card \<times> (integration option \<times> configure_input) list" where
  "og_run s [] = (s, [])"
| "og_run s ((loading, is, e) # es) =
     (case OGShortenerCard loading is s e of (s1, out1) \<Rightarrow>
       (case og_run s1 es of (s2, out2) \<Rightarrow> (s2, map (\<lambda>i. (og_of is, i)) out1 @ out2)))"

definition accounts_text :: "nat \<Rightarrow> jstring" where
  "accounts_text count = show_nat count @ js '' account'' @ (if count = 1 then [] else js ''s'') @ js '' connected''"

section \<open>The list of platforms\<close>

datatype connect_control = Manual_connect | Oauth_connect jstring bool   \<comment> \<open>label, drawn as secondary\<close>

definition platform_rows :: "channel list option \<Rightarrow> (jstring \<times> bool \<times> connect_control) list" where
  "platform_rows channels =
     (let connectedPlatforms = ch_platform ` set (nullish channels []) in
      map (\<lambda>p. let isConnected = pi_key p \<in> connectedPlatforms in
        (pi_key p, isConnected,
         if pi_manual p then Manual_connect
         else Oauth_connect (if isConnected then js ''Add another'' else js ''Connect'') isConnected)) PLATFORMS)"

section \<open>Lemmas\<close>

lemma obj_spread_Cons: "obj_spread a ((k, v) # b) = obj_spread (obj_set k v a) b"
  by (simp add: obj_spread_def)

lemma obj_spread_get:
  "obj_ok b \<Longrightarrow> obj_get (obj_spread a b) k = (case obj_get b k of None \<Rightarrow> obj_get a k | Some v \<Rightarrow> Some v)"
proof (induction b arbitrary: a)
  case (Cons p b)
  obtain j v where p: "p = (j, v)" by (cases p)
  from Cons.prems p have "obj_ok b" and "obj_get b j = None"
    by (auto simp: obj_ok_def obj_get_def map_of_eq_None_iff)
  then show ?case using p Cons.IH [of "obj_set j v a"]
    by (simp add: obj_spread_Cons obj_get_def [of "(j, v) # b"]) (auto simp: obj_get_def [of b] split: option.split)
qed (simp add: obj_spread_def)

lemma obj_spread_ok: "obj_ok a \<Longrightarrow> obj_ok (obj_spread a b)"
  unfolding obj_spread_def case_prod_beta' by (rule object.ok_fold_put)

lemma og_step_sends:
  assumes "OGShortenerCard loading is s e = (s', out)" and "i \<in> set out"
  shows "\<not> og_pending s \<and> og_pending s' \<and> out = [i] \<and> ci_apiKey i \<noteq> Some [] \<and>
    (if og_enabled (og_of is) then ci_enabled i \<longrightarrow> ci_apiKey i \<noteq> None
     else ci_enabled i \<and> (ci_apiKey i \<noteq> None \<or> og_configured (og_of is)))"
proof (cases e)
  case (Og_press b)
  with assms show ?thesis by (cases b) (auto simp: og_save_def split: if_splits)
qed (use assms in \<open>auto split: if_splits sum.splits\<close>)

lemma og_step_pending:
  assumes "OGShortenerCard loading is s e = (s', out)"
  shows "length out + of_bool (og_pending s) =
    of_bool (og_pending s') + length (filter (\<lambda>_. \<exists>r. e = Og_settled r \<and> og_pending s) [()])"
proof (cases e)
  case (Og_press b)
  with assms show ?thesis by (cases b) (auto simp: og_save_def split: if_splits)
qed (use assms in \<open>auto split: if_splits sum.splits\<close>)

definition settles :: "(bool \<times> integration list option \<times> og_event) list \<Rightarrow> nat" where
  "settles es = length (filter (\<lambda>(_, _, e). case e of Og_settled r \<Rightarrow> True | _ \<Rightarrow> False) es)"

lemma og_run_sends:
  assumes "og_run s es = (s', out)"
  shows "length out + of_bool (og_pending s) \<le> settles es + of_bool (og_pending s') \<and>
    (\<forall>(og, i)\<in>set out. ci_apiKey i \<noteq> Some [] \<and>
      (if og_enabled og then ci_enabled i \<longrightarrow> ci_apiKey i \<noteq> None
       else ci_enabled i \<and> (ci_apiKey i \<noteq> None \<or> og_configured og)))"
  using assms
proof (induction es arbitrary: s out)
  case (Cons x es)
  obtain loading is' e where x: "x = (loading, is', e)" by (cases x) auto
  obtain s1 out1 where 1: "OGShortenerCard loading is' s e = (s1, out1)" by fastforce
  from Cons.prems x 1 obtain out2 where 2: "og_run s1 es = (s', out2)" and out: "out = map (\<lambda>i. (og_of is', i)) out1 @ out2"
    by (auto split: prod.splits)
  have "settles (x # es) = (case e of Og_settled r \<Rightarrow> 1 | _ \<Rightarrow> 0) + settles es"
    using x by (simp add: settles_def split: og_event.split)
  then show ?case using Cons.IH [OF 2] og_step_pending [OF 1] og_step_sends [OF 1] out
    by (auto split: og_event.splits if_splits)
qed (simp add: settles_def)

section \<open>Properties\<close>

text \<open>
  What the integrations page asks the server: over any run, with the list of integrations
  refetched at will, an empty key is never sent, the integration is only enabled with a new
  key or when the server already holds one, an enabled integration is only re-saved with a new
  key, no request starts before the last one settled, and a key that was accepted leaves the
  page.
\<close>

theorem integration_requests_valid:
  assumes "og_run og_init es = (s, out)"
  shows "length out \<le> settles es + of_bool (og_pending s) \<and>
    (\<forall>(og, i)\<in>set out. ci_apiKey i \<noteq> Some [] \<and>
      (if og_enabled og then ci_enabled i \<longrightarrow> ci_apiKey i \<noteq> None
       else ci_enabled i \<and> (ci_apiKey i \<noteq> None \<or> og_configured og))) \<and>
    (og_pending s \<longrightarrow> og_apiKey (fst (OGShortenerCard loading is s (Og_settled (Inr i)))) = [])"
  using og_run_sends [OF assms] by (auto simp: og_init_def)

theorem integration_requests_valid_witness:
  "let es = [(False, Some [], Og_press Og_enable), (False, Some [], Og_type (js ''ogl_1'')), (False, Some [], Og_press Og_enable),
       (False, Some [], Og_press Og_enable)]; (s, out) = og_run og_init es in
   map (\<lambda>(og, i). ci_apiKey i) out = [Some (js ''ogl_1'')] \<and> length out \<le> settles es + of_bool (og_pending s)"
proof -
  let ?es = "[(False, Some [], Og_press Og_enable), (False, Some [], Og_type (js ''ogl_1'')), (False, Some [], Og_press Og_enable),
       (False, Some [], Og_press Og_enable)]"
  obtain s out where run: "og_run og_init ?es = (s, out)" by fastforce
  have "map (\<lambda>(og, i). ci_apiKey i) (snd (og_run og_init ?es)) = [Some (js ''ogl_1'')]" by code_simp
  then show ?thesis using integration_requests_valid [OF run] run by simp
qed

text \<open>
  The logger: a record is handed over exactly when its level reaches the threshold, to the
  sink of the logger it was derived from, with the fields of the call, then those the logger
  adds (the innermost first), then level, message and time. So the record of an API
  error carries nothing but level, message, time, the correlation id, the code and the status.
\<close>

theorem log_records_correct:
  assumes "obj_ok base" and "obj_ok extra" and "obj_ok fs"
  shows "let lg = logger_with extra (logger_with base (new_logger sink production));
      core = [(js ''level'', Some (JStr (level_name level))), (js ''message'', Some (JStr message)), (js ''time'', Some (JStr now))] in
    (log_emit now lg level message (Some fs) = None \<longleftrightarrow> production \<and> level = Debug) \<and>
    (\<forall>s r k. log_emit now lg level message (Some fs) = Some (s, r) \<longrightarrow> s = sink \<and>
       obj_get r k = (case obj_get fs k of Some v \<Rightarrow> Some v | None \<Rightarrow>
         (case obj_get extra k of Some v \<Rightarrow> Some v | None \<Rightarrow>
           (case obj_get base k of Some v \<Rightarrow> Some v | None \<Rightarrow> obj_get core k)))) \<and>
    (\<forall>s r k. log_emit now (new_logger sink production) Warn (lc_message (normalizeError_log status body))
         (Some (lc_fields (normalizeError_log status body))) = Some (s, r) \<longrightarrow>
       obj_get r k \<noteq> None \<longrightarrow> k \<in> {js ''level'', js ''message'', js ''time'', js ''requestId'', js ''code'', js ''status''})"
proof -
  have base: "obj_ok (obj_spread (obj_spread [] base) extra)"
    by (intro obj_spread_ok) (simp add: obj_ok_def)
  have fields: "obj_ok (lc_fields (normalizeError_log status body))"
    by (simp add: normalizeError_log_def obj_ok_def Let_def js_def)
  have weight: "(LEVEL_WEIGHT level < (if production then 20 else 10)) = (production \<and> level = Debug)"
    by (cases level) auto
  show ?thesis
    using assms base fields weight
    by (auto simp: Let_def log_emit_def logger_with_def new_logger_def obj_spread_get obj_ok_def [of "[]"]
        normalizeError_log_def obj_get_def [of "_ # _"] split: option.splits if_splits)
qed

theorem log_records_correct_witness:
  "let lg = logger_with [(js ''b'', Some (JInt 2))] (logger_with [(js ''a'', Some (JInt 1)), (js ''b'', Some (JInt 1))] (new_logger () True)) in
   log_emit [] lg Debug (js ''m'') (Some [(js ''c'', None)]) = None \<and>
   (\<exists>s r. log_emit [] lg Warn (js ''m'') (Some [(js ''c'', None)]) = Some (s, r) \<and>
      obj_get r (js ''b'') = Some (Some (JInt 2)))"
proof -
  let ?base = "[(js ''a'', Some (JInt 1)), (js ''b'', Some (JInt 1))]"
  let ?extra = "[(js ''b'', Some (JInt 2))]" and ?fs = "[(js ''c'', None)] :: log_fields"
  have ok: "obj_ok ?base" "obj_ok ?extra" "obj_ok ?fs" by code_simp+
  have look: "obj_get ?fs (js ''b'') = None" "obj_get ?extra (js ''b'') = Some (Some (JInt 2))" by code_simp+
  let ?lg = "logger_with ?extra (logger_with ?base (new_logger () True))"
  have "log_emit [] ?lg Debug (js ''m'') (Some ?fs) = None"
    using log_records_correct [OF ok, of "()" True Debug "js ''m''" "[]"] by (simp add: Let_def)
  moreover obtain s r where "log_emit [] ?lg Warn (js ''m'') (Some ?fs) = Some (s, r)"
    by (simp add: log_emit_def logger_with_def new_logger_def)
  moreover from this have "obj_get r (js ''b'') = Some (Some (JInt 2))"
    using log_records_correct [OF ok, of "()" True Warn "js ''m''" "[]"] look by (simp add: Let_def)
  ultimately show ?thesis unfolding Let_def by blast
qed

text \<open>
  The error boundaries pass the error's message as a field named \<open>message\<close>, which replaces the
  message of the record: no field of the record says which boundary caught the error.
\<close>

theorem error_boundary_message_lost:
  "\<exists>r. log_emit now (new_logger sink production) Error (lc_message (RouteError_log digest m))
        (Some (lc_fields (RouteError_log digest m))) = Some (sink, r) \<and>
      log_emit now (new_logger sink production) Error (lc_message (GlobalError_log digest m))
        (Some (lc_fields (GlobalError_log digest m))) = Some (sink, r) \<and>
      obj_get r (js ''message'') = Some (Some (JStr m))"
  by (simp add: log_emit_def new_logger_def RouteError_log_def GlobalError_log_def obj_spread_def obj_get_def js_def)

end
