(* ===== verification/ApiTypes.thy ===== *)
theory ApiTypes
  imports Composer
begin

text \<open>
  The request side of the API contract, \<^verbatim>\<open>web/src/api/schema.d.ts\<close>, as types, and the check of
  the calls of the web data hooks against it. The typed client is only as good as the
  assertions of the TypeScript compiler; here the judgement is on the values that are sent:
  every call has a method and an address of the contract, fills exactly the placeholders of
  the address, and its JSON body has the type declared for it.
\<close>

section \<open>Types and their values\<close>

datatype ty =
    T_string
  | T_enum "jstring list"
  | T_number
  | T_boolean
  | T_null_or ty
  | T_array ty
  | T_map ty
  | T_any
  | T_object "(jstring \<times> bool \<times> ty) list"   \<comment> \<open>name, whether it is required, type\<close>

text \<open>An object has no property beyond the declared ones, as for an object literal in TypeScript.\<close>

fun conforms :: "ty \<Rightarrow> json \<Rightarrow> bool" where
  "conforms T_string v = (\<exists>s. v = JStr s)"
| "conforms (T_enum ns) v = (case v of JStr s \<Rightarrow> s \<in> set ns | _ \<Rightarrow> False)"
| "conforms T_number v = (\<exists>n. v = JInt n)"
| "conforms T_boolean v = (\<exists>b. v = JBool b)"
| "conforms (T_null_or t) v = (v = JNull \<or> conforms t v)"
| "conforms (T_array t) v = (case v of JArr vs \<Rightarrow> \<forall>x\<in>set vs. conforms t x | _ \<Rightarrow> False)"
| "conforms (T_map t) v = (case v of JObj ps \<Rightarrow> distinct (map fst ps) \<and> (\<forall>p\<in>set ps. conforms t (snd p)) | _ \<Rightarrow> False)"
| "conforms T_any v = True"
| "conforms (T_object fs) v =
     (case v of
        JObj ps \<Rightarrow> distinct (map fst ps) \<and>
          (\<forall>p\<in>set ps. \<exists>f\<in>set fs. fst f = fst p \<and> conforms (snd (snd f)) (snd p)) \<and>
          (\<forall>f\<in>set fs. fst (snd f) \<longrightarrow> fst f \<in> fst ` set ps)
      | _ \<Rightarrow> False)"

section \<open>The contract\<close>

abbreviation req :: "string \<Rightarrow> ty \<Rightarrow> jstring \<times> bool \<times> ty" where
  "req n t \<equiv> (js n, True, t)"

abbreviation opt :: "string \<Rightarrow> ty \<Rightarrow> jstring \<times> bool \<times> ty" where
  "opt n t \<equiv> (js n, False, t)"

definition LoginRequest :: ty where
  "LoginRequest = T_object [req ''email'' T_string, req ''password'' T_string]"

definition RefreshRequest :: ty where
  "RefreshRequest = T_object [opt ''refresh_token'' T_string]"

definition Capability :: ty where
  "Capability = T_enum (map js [''read'', ''create'', ''update'', ''delete'', ''upload'', ''publish'',
     ''manage_channels'', ''manage_members'', ''manage_workspace''])"

definition request_role :: ty where
  "request_role = T_enum (map js [''owner'', ''admin'', ''editor'', ''viewer''])"

definition AddMemberRequest :: ty where
  "AddMemberRequest = T_object [req ''email'' T_string, opt ''role'' request_role, opt ''capabilities'' (T_array Capability)]"

definition UpdateCapabilitiesRequest :: ty where
  "UpdateCapabilitiesRequest = T_object [opt ''role'' request_role, opt ''capabilities'' (T_array Capability)]"

definition MediaMeta :: ty where
  "MediaMeta = T_object [req ''media_id'' T_string, req ''kind'' (T_enum (map js [''image'', ''gif'', ''video''])),
     req ''mime'' T_string, req ''bytes'' T_number]"

definition VariantInput :: ty where
  "VariantInput = T_object [req ''channel_id'' T_string, opt ''body'' T_string, opt ''media'' (T_array MediaMeta),
     opt ''platform_options'' (T_map T_any)]"

definition PostWriteRequest :: ty where
  "PostWriteRequest = T_object [req ''variants'' (T_array VariantInput)]"

definition SlotRequest :: ty where
  "SlotRequest = T_object [req ''channel_id'' T_string, req ''day_of_week'' T_number, req ''time_of_day'' T_string,
     req ''timezone'' T_string]"

definition token_body :: ty where
  "token_body = T_object [req ''token'' T_string]"

definition email_body :: ty where
  "email_body = T_object [req ''email'' T_string]"

definition confirm_body :: ty where
  "confirm_body = T_object [req ''token'' T_string, req ''new_password'' T_string]"

definition connect_body :: ty where
  "connect_body = T_object [req ''platform'' T_string, opt ''redirect_uri'' T_string]"

definition utm_body :: ty where
  "utm_body = T_object [opt ''text'' T_string, opt ''utm'' (T_map T_string)]"

definition schedule_body :: ty where
  "schedule_body = T_object [req ''post_id'' T_string, opt ''run_at'' T_string, opt ''to_slots'' T_boolean]"

definition integration_body :: ty where
  "integration_body = T_object [req ''enabled'' T_boolean, opt ''auto_apply'' T_boolean, opt ''api_key'' (T_null_or T_string)]"

definition shorten_body :: ty where
  "shorten_body = T_object [req ''text'' T_string]"

definition topup_body :: ty where
  "topup_body = T_object [req ''provider'' (T_enum (map js [''stripe'', ''paystack'', ''dev''])), req ''credits'' T_number]"

text \<open>The operations of the contract that take JSON or no body: method, address, body and whether it may be left out.\<close>

definition operations :: "(string \<times> string \<times> (ty \<times> bool) option) list" where
  "operations =
    [(''POST'', ''/api/v1/auth/signup'', Some (LoginRequest, False)),
     (''POST'', ''/api/v1/auth/login'', Some (LoginRequest, False)),
     (''POST'', ''/api/v1/auth/refresh'', Some (RefreshRequest, True)),
     (''POST'', ''/api/v1/auth/logout'', Some (RefreshRequest, True)),
     (''POST'', ''/api/v1/auth/verify-email'', Some (token_body, False)),
     (''POST'', ''/api/v1/auth/password-reset/request'', Some (email_body, False)),
     (''POST'', ''/api/v1/auth/password-reset/confirm'', Some (confirm_body, False)),
     (''GET'', ''/api/v1/auth/me'', None),
     (''GET'', ''/api/v1/workspaces/'', None),
     (''GET'', ''/api/v1/workspaces/{workspaceID}/members'', None),
     (''POST'', ''/api/v1/workspaces/{workspaceID}/members'', Some (AddMemberRequest, False)),
     (''PATCH'', ''/api/v1/workspaces/{workspaceID}/members/{userID}/capabilities'', Some (UpdateCapabilitiesRequest, False)),
     (''GET'', ''/api/v1/channels/oauth/callback'', None),
     (''GET'', ''/api/v1/workspaces/{workspaceID}/channels/'', None),
     (''POST'', ''/api/v1/workspaces/{workspaceID}/channels/connect'', Some (connect_body, False)),
     (''DELETE'', ''/api/v1/workspaces/{workspaceID}/channels/{channelID}'', None),
     (''GET'', ''/api/v1/workspaces/{workspaceID}/posts/'', None),
     (''POST'', ''/api/v1/workspaces/{workspaceID}/posts/'', Some (PostWriteRequest, False)),
     (''POST'', ''/api/v1/workspaces/{workspaceID}/posts/utm-preview'', Some (utm_body, False)),
     (''GET'', ''/api/v1/workspaces/{workspaceID}/posts/link-preview'', None),
     (''GET'', ''/api/v1/workspaces/{workspaceID}/posts/{postID}'', None),
     (''PUT'', ''/api/v1/workspaces/{workspaceID}/posts/{postID}'', Some (PostWriteRequest, False)),
     (''DELETE'', ''/api/v1/workspaces/{workspaceID}/posts/{postID}'', None),
     (''POST'', ''/api/v1/workspaces/{workspaceID}/posts/{postID}/validate'', None),
     (''POST'', ''/api/v1/workspaces/{workspaceID}/schedule'', Some (schedule_body, False)),
     (''GET'', ''/api/v1/workspaces/{workspaceID}/calendar'', None),
     (''DELETE'', ''/api/v1/workspaces/{workspaceID}/scheduled-jobs/{jobID}'', None),
     (''GET'', ''/api/v1/workspaces/{workspaceID}/slots/'', None),
     (''POST'', ''/api/v1/workspaces/{workspaceID}/slots/'', Some (SlotRequest, False)),
     (''DELETE'', ''/api/v1/workspaces/{workspaceID}/slots/{slotID}'', None),
     (''GET'', ''/api/v1/workspaces/{workspaceID}/media/'', None),
     (''DELETE'', ''/api/v1/workspaces/{workspaceID}/media/{mediaID}'', None),
     (''GET'', ''/api/v1/workspaces/{workspaceID}/integrations/'', None),
     (''PUT'', ''/api/v1/workspaces/{workspaceID}/integrations/{provider}'', Some (integration_body, False)),
     (''POST'', ''/api/v1/workspaces/{workspaceID}/integrations/ogshortener/shorten'', Some (shorten_body, False)),
     (''GET'', ''/api/v1/workspaces/{workspaceID}/billing/wallet'', None),
     (''GET'', ''/api/v1/workspaces/{workspaceID}/billing/ledger'', None),
     (''POST'', ''/api/v1/workspaces/{workspaceID}/billing/topup'', Some (topup_body, False)),
     (''GET'', ''/api/v1/workspaces/{workspaceID}/analytics/'', None),
     (''GET'', ''/api/v1/workspaces/{workspaceID}/analytics/posts/{postID}'', None),
     (''GET'', ''/api/v1/workspaces/{workspaceID}/analytics/posts/{postID}/series'', None)]"

text \<open>The names between braces of an address.\<close>

function placeholders :: "string \<Rightarrow> string list" where
  "placeholders [] = []"
| "placeholders (c # cs) =
     (if c = CHR ''{'' then takeWhile (\<lambda>d. d \<noteq> CHR ''}'') cs # placeholders (dropWhile (\<lambda>d. d \<noteq> CHR ''}'') cs)
      else placeholders cs)"
  by pat_completeness auto
termination
  by (relation "measure length") (simp_all add: le_imp_less_Suc length_dropWhile_le)

definition body_ok :: "(ty \<times> bool) option \<Rightarrow> json option \<Rightarrow> bool" where
  "body_ok spec body =
     (case (spec, body) of
        (None, None) \<Rightarrow> True
      | (Some (t, optional), None) \<Rightarrow> optional
      | (Some (t, optional), Some v) \<Rightarrow> conforms t v
      | (None, Some v) \<Rightarrow> False)"

definition call_ok :: "remote \<Rightarrow> bool" where
  "call_ok r =
     (case r of
        Direct q \<Rightarrow> False
      | Typed c \<Rightarrow>
          (case find (\<lambda>(m, t, spec). ac_method c = js m \<and> ac_template c = js t) operations of
             None \<Rightarrow> False
           | Some (m, t, spec) \<Rightarrow> map fst (ac_path c) = map js (placeholders t) \<and> body_ok spec (ac_body c)))"

section \<open>Lemmas\<close>

lemma conforms_jobj:
  assumes "distinct (map fst ps)"
    and "\<And>k x. (k, Some x) \<in> set ps \<Longrightarrow> \<exists>f\<in>set fs. fst f = k \<and> conforms (snd (snd f)) x"
    and "\<And>k t. (k, True, t) \<in> set fs \<Longrightarrow> \<exists>x. (k, Some x) \<in> set ps"
  shows "conforms (T_object fs) (jobj ps)"
proof -
  let ?qs = "List.map_filter (\<lambda>(k, v). map_option (Pair k) v) ps"
  have mem: "(k, x) \<in> set ?qs \<longleftrightarrow> (k, Some x) \<in> set ps" for k x
    by (force simp: map_filter_def)
  have keys: "set (map fst (List.map_filter (\<lambda>(k, v). map_option (Pair k) v) qs)) \<subseteq> set (map fst qs)" for qs :: "(jstring \<times> json option) list"
    by (force simp: map_filter_def)
  have "distinct (map fst ?qs)" using assms(1)
  proof (induction ps)
    case (Cons p ps)
    then show ?case using keys [of ps] by (cases p; cases "snd p") (auto simp: map_filter_simps)
  qed (simp add: map_filter_simps)
  moreover have "\<forall>p\<in>set ?qs. \<exists>f\<in>set fs. fst f = fst p \<and> conforms (snd (snd f)) (snd p)"
    using assms(2) mem by auto
  moreover have "\<forall>f\<in>set fs. fst (snd f) \<longrightarrow> fst f \<in> fst ` set ?qs"
  proof (intro ballI impI)
    fix f assume "f \<in> set fs" and "fst (snd f)"
    then have "(fst f, True, snd (snd f)) \<in> set fs" by (metis prod.collapse)
    with assms(3) mem show "fst f \<in> fst ` set ?qs" by (metis fst_conv image_eqI)
  qed
  ultimately show ?thesis by (simp add: jobj_def)
qed

lemma capability_conforms: "conforms Capability (JStr (capability_name c))"
  by (cases c) (simp_all add: Capability_def)

lemma caps_conform: "conforms (T_array Capability) (caps_json cs)"
  by (simp add: caps_json_def capability_conforms)

lemma role_conforms: "r \<noteq> Custom \<Longrightarrow> conforms request_role (JStr (role_name r))"
  by (cases r) (simp_all add: request_role_def)

lemma media_conforms: "conforms MediaMeta (media_meta_json m)"
proof -
  have "conforms (T_enum (map js [''image'', ''gif'', ''video''])) (JStr (media_kind_name (mm_kind m)))"
    by (cases "mm_kind m") simp_all
  then show ?thesis unfolding MediaMeta_def media_meta_json_def
    by (intro conforms_jobj) auto
qed

text \<open>A variant as the composer and the hooks build it: its platform options are an object, if there are any.\<close>

definition variant_typed :: "variant_input \<Rightarrow> bool" where
  "variant_typed v = (case vi_platform_options v of None \<Rightarrow> True | Some opts \<Rightarrow> conforms (T_map T_any) opts)"

lemma variant_conforms: "variant_typed v \<Longrightarrow> conforms VariantInput (variant_input_json v)"
  unfolding VariantInput_def variant_input_json_def
  by (cases "vi_body v"; cases "vi_media v"; cases "vi_platform_options v"; intro conforms_jobj)
    (auto simp: media_conforms variant_typed_def)

lemma variants_conform: "\<forall>v\<in>set vs. variant_typed v \<Longrightarrow> conforms PostWriteRequest (variants_json vs)"
  by (simp add: PostWriteRequest_def variants_json_def variant_conforms)

lemma credentials_conform: "conforms LoginRequest (credentials_json c)"
  unfolding LoginRequest_def credentials_json_def by (intro conforms_jobj) auto

lemma slot_conforms: "conforms SlotRequest (slot_request_json s)"
  unfolding SlotRequest_def slot_request_json_def by (intro conforms_jobj) auto

lemma placeholders_Nil: "CHR ''{'' \<notin> set t \<Longrightarrow> placeholders t = []"
  by (induction t) auto

lemma schedule_conforms: "conforms schedule_body (jobj [(js ''post_id'', Some (JStr p)), (js ''run_at'', map_option JStr r),
    (js ''to_slots'', map_option JBool b)])"
  unfolding schedule_body_def by (cases r; cases b; intro conforms_jobj) auto

lemma member_conforms:
  assumes "r \<noteq> Some Custom"
  shows "conforms AddMemberRequest (jobj [(js ''email'', Some (JStr e)), (js ''role'', map_option (\<lambda>r. JStr (role_name r)) r),
      (js ''capabilities'', map_option caps_json cs)])"
    and "conforms UpdateCapabilitiesRequest (jobj [(js ''role'', map_option (\<lambda>r. JStr (role_name r)) r),
      (js ''capabilities'', map_option caps_json cs)])"
proof -
  have r: "conforms request_role (JStr (role_name x))" if "r = Some x" for x using assms that role_conforms by blast
  show "conforms AddMemberRequest (jobj [(js ''email'', Some (JStr e)), (js ''role'', map_option (\<lambda>r. JStr (role_name r)) r),
      (js ''capabilities'', map_option caps_json cs)])"
    unfolding AddMemberRequest_def by (cases r; cases cs; intro conforms_jobj) (auto simp: r caps_conform simp del: conforms.simps(2,6))
  show "conforms UpdateCapabilitiesRequest (jobj [(js ''role'', map_option (\<lambda>r. JStr (role_name r)) r),
      (js ''capabilities'', map_option caps_json cs)])"
    unfolding UpdateCapabilitiesRequest_def
    by (cases r; cases cs; intro conforms_jobj) (auto simp: r caps_conform simp del: conforms.simps(2,6))
qed

lemma utm_conforms: "conforms utm_body (jobj [(js ''text'', Some (JStr x)),
    (js ''utm'', map_option (\<lambda>u. JObj (map (\<lambda>(k, v). (k, JStr v)) u)) (Some (utm_params source campaign)))])"
  unfolding utm_body_def by (intro conforms_jobj) (auto simp: utm_params_def Let_def split: if_splits)

lemma integration_conforms: "conforms integration_body (JObj [(js ''enabled'', JBool e), (js ''auto_apply'', JBool a),
    (js ''api_key'', case k of None \<Rightarrow> JNull | Some x \<Rightarrow> JStr x)])"
  by (cases k) (simp_all add: integration_body_def)

lemma topup_conforms: "conforms topup_body (JObj [(js ''provider'', JStr (topup_provider_name p)), (js ''credits'', JInt c)])"
  by (cases p) (simp_all add: topup_body_def)

lemmas call_eval = call_ok_def operations_def send_call_def get_call_def in_ws_def body_ok_def

lemma auth_calls_ok:
  "call_ok (q_call useMe)" "call_ok (m_call useLogin cr)" "call_ok (m_call useSignup cr)" "call_ok (m_call useLogout ())"
  "call_ok (m_call useVerifyEmail tok)" "call_ok (m_call useRequestReset email)" "call_ok (m_call useConfirmReset (tok, pw))"
  by (simp_all add: call_eval useMe_def useLogin_def useSignup_def useLogout_def useVerifyEmail_def useRequestReset_def
      useConfirmReset_def credentials_conform RefreshRequest_def token_body_def email_body_def confirm_body_def)

lemma member_calls_ok:
  "call_ok (q_call useWorkspaces)" "call_ok (q_call (useMembers ws))"
  "am_role am \<noteq> Some Custom \<Longrightarrow> call_ok (m_call (useAddMember w) am)"
  "uc_role uc \<noteq> Some Custom \<Longrightarrow> call_ok (m_call (useUpdateCapabilities w) uc)"
  by (simp_all add: call_eval useWorkspaces_def useMembers_def useAddMember_def useUpdateCapabilities_def member_conforms)

lemma channel_calls_ok:
  "call_ok (q_call (useChannels ws))" "call_ok (m_call (useConnectChannel w) platform)"
  "call_ok (m_call useCompleteOAuth (st, code))" "call_ok (m_call (useDisconnectChannel w) i)"
  by (simp_all add: call_eval useChannels_def useConnectChannel_def useCompleteOAuth_def useDisconnectChannel_def connect_body_def)

lemma post_calls_ok:
  "call_ok (q_call (usePosts ws))" "call_ok (q_call (usePost ws pid))"
  "\<forall>v\<in>set vs. variant_typed v \<Longrightarrow> call_ok (m_call (useCreatePost w) vs)"
  "\<forall>v\<in>set vs. variant_typed v \<Longrightarrow> call_ok (m_call (useUpdatePost w) (i, vs))"
  "call_ok (m_call (useDeletePost w) i)" "call_ok (m_call (useValidatePost w) i)"
  "call_ok (m_call (useUtmPreview w) (body, Some (utm_params source campaign)))" "call_ok (q_call (useLinkPreview ws url))"
  using utm_conforms [of body source campaign]
  by (simp_all add: call_eval usePosts_def usePost_def useCreatePost_def useUpdatePost_def useDeletePost_def useValidatePost_def
      useUtmPreview_def useLinkPreview_def variants_conform)

lemma schedule_calls_ok:
  "call_ok (m_call (useSchedulePost w) si)" "call_ok (q_call (useCalendar ws from to))" "call_ok (m_call (useCancelJob w) i)"
  "call_ok (q_call (useSlots ws ch))" "call_ok (m_call (useCreateSlot w) sr)" "call_ok (m_call (useDeleteSlot w) (i, j))"
  by (simp_all add: call_eval useSchedulePost_def useCalendar_def useCancelJob_def useSlots_def useCreateSlot_def useDeleteSlot_def
      schedule_conforms slot_conforms)

lemma other_calls_ok:
  "call_ok (q_call (useMedia ws))" "call_ok (m_call (useDeleteMedia w) i)" "call_ok (q_call (useWallet ws))"
  "call_ok (q_call (useLedger ws))" "call_ok (m_call (useTopup w) (provider, credits))" "call_ok (q_call (useAnalyticsOverview ws))"
  "call_ok (q_call (usePostAnalytics ws pid))" "call_ok (q_call (useMetricSeries sa))" "call_ok (q_call (useIntegrations ws))"
  "call_ok (m_call (useConfigureIntegration w) ci)" "call_ok (m_call (useShortenLinks w) body)"
  by (simp_all add: call_eval useMedia_def useDeleteMedia_def useWallet_def useLedger_def useTopup_def useAnalyticsOverview_def
      usePostAnalytics_def useMetricSeries_def useIntegrations_def useConfigureIntegration_def useShortenLinks_def
      topup_conforms integration_conforms shorten_body_def)

section \<open>Properties\<close>

text \<open>
  C21. Every call of the typed hooks is one of the contract: the method and the address are an
  operation the server declares, the address has no placeholder left open and none too many,
  and the body has exactly the declared type, required properties present and no others.
\<close>

theorem calls_well_typed:
  assumes "\<forall>v\<in>set vs. variant_typed v" and "am_role am \<noteq> Some Custom" and "uc_role uc \<noteq> Some Custom"
  shows "list_all call_ok
    [q_call useMe, m_call useLogin cr, m_call useSignup cr, m_call useLogout (), m_call useVerifyEmail tok,
     m_call useRequestReset email, m_call useConfirmReset (tok, pw),
     q_call useWorkspaces, q_call (useMembers ws), m_call (useAddMember w) am, m_call (useUpdateCapabilities w) uc,
     q_call (useChannels ws), m_call (useConnectChannel w) platform, m_call useCompleteOAuth (st, code),
     m_call (useDisconnectChannel w) i,
     q_call (usePosts ws), q_call (usePost ws pid), m_call (useCreatePost w) vs, m_call (useUpdatePost w) (i, vs),
     m_call (useDeletePost w) i, m_call (useValidatePost w) i,
     m_call (useUtmPreview w) (body, Some (utm_params source campaign)), q_call (useLinkPreview ws url),
     m_call (useSchedulePost w) si, q_call (useCalendar ws from to), m_call (useCancelJob w) i,
     q_call (useSlots ws ch), m_call (useCreateSlot w) sr, m_call (useDeleteSlot w) (i, j),
     q_call (useMedia ws), m_call (useDeleteMedia w) i,
     q_call (useWallet ws), q_call (useLedger ws), m_call (useTopup w) (provider, credits),
     q_call (useAnalyticsOverview ws), q_call (usePostAnalytics ws pid), q_call (useMetricSeries sa),
     q_call (useIntegrations ws), m_call (useConfigureIntegration w) ci, m_call (useShortenLinks w) body]"
  using assms by (simp add: auth_calls_ok member_calls_ok channel_calls_ok post_calls_ok schedule_calls_ok other_calls_ok)

theorem calls_well_typed_witness:
  "\<exists>am uc vs. call_ok (m_call (useAddMember (js ''w'')) am) \<and> call_ok (m_call (useUpdateCapabilities (js ''w'')) uc) \<and>
     call_ok (m_call (useCreatePost (js ''w'')) vs) \<and> map vi_body vs = [Some (js ''hi'')] \<and> am_role am = Some Editor"
proof -
  let ?vs = "[\<lparr>vi_channel_id = js ''c1'', vi_body = Some (js ''hi''), vi_media = None, vi_platform_options = None\<rparr>]"
  let ?am = "\<lparr>am_email = js ''a@b.c'', am_role = Some Editor, am_capabilities = None\<rparr>"
  let ?uc = "\<lparr>uc_userId = js ''u1'', uc_role = Some Viewer, uc_capabilities = None\<rparr>"
  have "\<forall>v\<in>set ?vs. variant_typed v" "am_role ?am \<noteq> Some Custom" "uc_role ?uc \<noteq> Some Custom"
    by (simp_all add: variant_typed_def)
  from calls_well_typed [OF this, of "\<lparr>cr_email = [], cr_password = []\<rparr>" "[]" "[]" "[]" None "js ''w''"]
  have "call_ok (m_call (useAddMember (js ''w'')) ?am)" "call_ok (m_call (useUpdateCapabilities (js ''w'')) ?uc)"
    "call_ok (m_call (useCreatePost (js ''w'')) ?vs)" by simp_all
  then show ?thesis by (intro exI [of _ ?am] exI [of _ ?uc] exI [of _ ?vs]) simp
qed

end
