(* ===== verification/Edge.thy ===== *)
theory Edge
  imports Http Config
begin

text \<open>
  What the web application does before a page renders: the per-request content security
  policy of \<^verbatim>\<open>web/src/proxy.ts\<close>, the nonce the root layout hands to its inline script, the
  static headers and the API rewrite of \<^verbatim>\<open>web/next.config.ts\<close>, the rules for crawlers
  (\<^verbatim>\<open>web/src/app/robots.ts\<close>, \<^verbatim>\<open>sitemap.ts\<close>) and the navigation dock
  (\<^verbatim>\<open>web/src/ui/dock/dock.tsx\<close>). The random UUID is a parameter; \<open>btoa\<close> and the way a
  browser reads a policy header are those of their standards.
\<close>

section \<open>\<open>btoa\<close>\<close>

definition b64_char :: "nat \<Rightarrow> char" where
  "b64_char n = (''ABCDEFGHIJKLMNOPQRSTUVWXYZabcdefghijklmnopqrstuvwxyz0123456789+/'' ! n)"

fun b64_encode :: "nat list \<Rightarrow> string" where
  "b64_encode [] = []"
| "b64_encode [a] = [b64_char (a div 4), b64_char (a mod 4 * 16), CHR ''='', CHR ''='']"
| "b64_encode [a, b] = [b64_char (a div 4), b64_char (a mod 4 * 16 + b div 16), b64_char (b mod 16 * 4), CHR ''='']"
| "b64_encode (a # b # c # r) =
     [b64_char (a div 4), b64_char (a mod 4 * 16 + b div 16), b64_char (b mod 16 * 4 + c div 64), b64_char (c mod 64)] @
     b64_encode r"

text \<open>A unit above 255 makes \<open>btoa\<close> throw.\<close>

definition btoa :: "jstring \<Rightarrow> jstring option" where
  "btoa s = (if \<forall>c\<in>set s. unat c < 256 then Some (js (b64_encode (map unat s))) else None)"

section \<open>The policy\<close>

fun join_with :: "jstring \<Rightarrow> jstring list \<Rightarrow> jstring" where
  "join_with sep [] = []"
| "join_with sep [x] = x"
| "join_with sep (x # xs) = x @ sep @ join_with sep xs"

text \<open>A keyword of the policy is written between single quotes.\<close>

definition quoted :: "jstring \<Rightarrow> jstring" where
  "quoted s = js [CHR 0x27] @ s @ js [CHR 0x27]"

definition csp_directives :: "jstring \<Rightarrow> bool \<Rightarrow> jstring list" where
  "csp_directives nonce isDev =
     [js ''default-src '' @ quoted (js ''self''),
      js ''script-src '' @ quoted (js ''self'') @ js '' '' @ quoted (js ''nonce-'' @ nonce) @ js '' '' @ quoted (js ''strict-dynamic'') @
        (if isDev then js '' '' @ quoted (js ''unsafe-eval'') else []),
      js ''style-src '' @ quoted (js ''self'') @ js '' '' @ quoted (js ''unsafe-inline''),
      js ''img-src '' @ quoted (js ''self'') @ js '' blob: data:'',
      js ''font-src '' @ quoted (js ''self''),
      js ''connect-src '' @ quoted (js ''self'') @ (if isDev then js '' ws: wss:'' else []),
      js ''object-src '' @ quoted (js ''none''),
      js ''base-uri '' @ quoted (js ''self''),
      js ''form-action '' @ quoted (js ''self''),
      js ''frame-ancestors '' @ quoted (js ''none''),
      js ''frame-src '' @ quoted (js ''none''),
      js ''manifest-src '' @ quoted (js ''self'')] @
     (if isDev then [] else [js ''upgrade-insecure-requests''])"

definition csp :: "jstring \<Rightarrow> bool \<Rightarrow> jstring" where
  "csp nonce isDev = join_with (js ''; '') (csp_directives nonce isDev)"

definition sp :: jchar where
  "sp = of_char CHR '' ''"

definition semi :: jchar where
  "semi = of_char CHR '';''"

text \<open>
  How a browser reads the header: directives are separated by semicolons, the words of a
  directive by spaces; the first word is its name, and the first directive of a name counts.
\<close>

fun split_on :: "jchar \<Rightarrow> jstring \<Rightarrow> jstring list" where
  "split_on sep [] = [[]]"
| "split_on sep (c # cs) =
     (if c = sep then [] # split_on sep cs
      else (case split_on sep cs of [] \<Rightarrow> [[c]] | x # xs \<Rightarrow> (c # x) # xs))"

definition words_of :: "jstring \<Rightarrow> jstring list" where
  "words_of d = filter (\<lambda>w. w \<noteq> []) (split_on sp d)"

definition parse_csp :: "jstring \<Rightarrow> (jstring \<times> jstring list) list" where
  "parse_csp h = List.map_filter (\<lambda>d. case words_of d of [] \<Rightarrow> None | n # vs \<Rightarrow> Some (n, vs)) (split_on semi h)"

definition csp_sources :: "jstring \<Rightarrow> string \<Rightarrow> jstring list option" where
  "csp_sources h name = map_of (parse_csp h) (js name)"

section \<open>The proxy and the layout\<close>

text \<open>The request handed on to the page and the policy of the response; \<open>None\<close> when \<open>btoa\<close> throws.\<close>

definition proxy :: "jstring \<Rightarrow> bool \<Rightarrow> request \<Rightarrow> (request \<times> jstring) option" where
  "proxy uuid isDev q =
     (case btoa uuid of
        None \<Rightarrow> None
      | Some nonce \<Rightarrow>
          (let policy = csp nonce isDev in
           Some (set_header ''content-security-policy'' policy (set_header ''x-nonce'' nonce q), policy)))"

text \<open>Which requests it runs on, by path and headers. The dot of \<open>favicon.ico\<close> stands for any character.\<close>

definition excluded_path :: "jstring \<Rightarrow> bool" where
  "excluded_path rest =
     (starts_with rest (js ''api'') \<or> starts_with rest (js ''_next/static'') \<or> starts_with rest (js ''_next/image'') \<or>
      (starts_with rest (js ''favicon'') \<and> length rest > 7 \<and> starts_with (drop 8 rest) (js ''ico'')))"

definition proxy_matches :: "jstring \<Rightarrow> request \<Rightarrow> bool" where
  "proxy_matches path q =
     (starts_with path (js ''/'') \<and> \<not> excluded_path (drop 1 path) \<and>
      header q ''next-router-prefetch'' = None \<and> header q ''purpose'' \<noteq> Some (js ''prefetch''))"

definition layout_nonce :: "request \<Rightarrow> jstring option" where
  "layout_nonce q = header q ''x-nonce''"

text \<open>The static headers of every response, and the rewrite of API paths to the backend.\<close>

definition securityHeaders :: "(jstring \<times> jstring) list" where
  "securityHeaders =
     [(js ''X-Content-Type-Options'', js ''nosniff''), (js ''X-Frame-Options'', js ''DENY''),
      (js ''Referrer-Policy'', js ''no-referrer''), (js ''Cross-Origin-Opener-Policy'', js ''same-origin''),
      (js ''Permissions-Policy'', js ''camera=(), microphone=(), geolocation=(), browsing-topics=()'')]"

definition apiTarget :: "jstring option \<Rightarrow> bool \<Rightarrow> jstring" where
  "apiTarget env production =
     nullish env (if production then js ''https://api.postal.lettstv.com'' else js ''http://localhost:8080'')"

definition api_rewrite :: "jstring \<Rightarrow> jstring \<Rightarrow> jstring option" where
  "api_rewrite target path =
     (if path = js ''/api'' \<or> starts_with path (js ''/api/'') then Some (target @ path) else None)"

section \<open>Crawlers and navigation\<close>

definition robots_disallow :: "jstring list" where
  "robots_disallow = map js [''/api/'', ''/oauth/'', ''/channels'', ''/compose'', ''/calendar'', ''/analytics'',
     ''/integrations'', ''/wallet'', ''/media'']"

definition crawlable :: "jstring \<Rightarrow> bool" where
  "crawlable path = (\<not> list_ex (starts_with path) robots_disallow)"

definition sitemap_paths :: "jstring list" where
  "sitemap_paths = map js [''/'', ''/about'', ''/signup'', ''/login'', ''/terms'', ''/privacy'', ''/contact'', ''/reset'']"

definition sitemap :: "jstring \<Rightarrow> jstring list" where
  "sitemap siteURL = map (\<lambda>p. siteURL @ p) sitemap_paths"

definition dock_active :: "jstring \<Rightarrow> jstring \<Rightarrow> bool" where
  "dock_active path href =
     (path = href \<or> (href \<noteq> js ''/'' \<and> starts_with path (href @ js ''/'')))"

definition dock_view :: "jstring \<Rightarrow> (jstring \<times> jstring \<times> bool) list list" where
  "dock_view path = map (map (\<lambda>(href, label). (href, label, dock_active path href))) [dockItems, dockManage]"

definition destinations :: "(jstring \<times> jstring) list" where
  "destinations = filter (\<lambda>d. fst d \<noteq> js ''/'') dockItems @ dockManage"

section \<open>Lemmas\<close>

text \<open>Base 64: the characters are of the alphabet, and the text determines the bytes.\<close>

definition b64_value :: "char \<Rightarrow> nat" where
  "b64_value c =
     length (takeWhile (\<lambda>d. d \<noteq> c) ''ABCDEFGHIJKLMNOPQRSTUVWXYZabcdefghijklmnopqrstuvwxyz0123456789+/'')"

fun b64_decode :: "string \<Rightarrow> nat list" where
  "b64_decode (w # x # y # z # r) =
     (let a = b64_value w * 4 + b64_value x div 16;
          b = b64_value x mod 16 * 16 + b64_value y div 4;
          c = b64_value y mod 4 * 64 + b64_value z
      in if y = CHR ''='' then [a] else if z = CHR ''='' then [a, b] else a # b # c # b64_decode r)"
| "b64_decode r = []"

lemma b64_value_char: "n < 64 \<Longrightarrow> b64_value (b64_char n) = n \<and> b64_char n \<noteq> CHR ''=''"
proof -
  have "\<forall>n\<in>set [0..<64]. b64_value (b64_char n) = n \<and> b64_char n \<noteq> CHR ''=''" by code_simp
  then show "n < 64 \<Longrightarrow> b64_value (b64_char n) = n \<and> b64_char n \<noteq> CHR ''=''" by simp
qed

lemma b64_roundtrip: "\<forall>x\<in>set bs. x < 256 \<Longrightarrow> b64_decode (b64_encode bs) = bs"
proof (induction bs rule: b64_encode.induct)
  case (2 a)
  then have "a div 4 < 64" "a mod 4 * 16 < 64" by auto
  then show ?case using b64_value_char by (simp add: Let_def)
next
  case (3 a b)
  then have "a div 4 < 64" "a mod 4 * 16 + b div 16 < 64" "b mod 16 * 4 < 64" by auto
  moreover have "(a mod 4 * 16 + b div 16) div 16 = a mod 4" "(a mod 4 * 16 + b div 16) mod 16 = b div 16"
    using 3 by auto
  ultimately show ?case using b64_value_char by (simp add: Let_def)
next
  case (4 a b c r)
  then have "a div 4 < 64" "a mod 4 * 16 + b div 16 < 64" "b mod 16 * 4 + c div 64 < 64" "c mod 64 < 64" by auto
  moreover have "(a mod 4 * 16 + b div 16) div 16 = a mod 4" "(a mod 4 * 16 + b div 16) mod 16 = b div 16"
    "(b mod 16 * 4 + c div 64) div 4 = b mod 16" "(b mod 16 * 4 + c div 64) mod 4 = c div 64"
    using 4 by auto
  ultimately show ?case using b64_value_char 4 by (simp add: Let_def)
qed simp

lemma b64_encode_alphabet: "\<forall>x\<in>set bs. x < 256 \<Longrightarrow> set (b64_encode bs) \<subseteq> insert CHR ''='' (b64_char ` {..<64})"
proof (induction bs rule: b64_encode.induct)
  case (4 a b c r)
  then have "a div 4 < 64" "a mod 4 * 16 + b div 16 < 64" "b mod 16 * 4 + c div 64 < 64" "c mod 64 < 64" by auto
  then show ?case using 4 by auto
qed auto

lemma alphabet_clean:
  assumes "c \<in> insert CHR ''='' (b64_char ` {..<64})"
  shows "c \<noteq> CHR '' ''" and "c \<noteq> CHR '';''"
proof -
  have "\<forall>n\<in>set [0..<64]. b64_char n \<noteq> CHR '' '' \<and> b64_char n \<noteq> CHR '';''" by code_simp
  then show "c \<noteq> CHR '' ''" and "c \<noteq> CHR '';''" using assms by auto
qed

text \<open>Words that neither separator cuts.\<close>

definition clean :: "jstring \<Rightarrow> bool" where
  "clean w = (sp \<notin> set w \<and> semi \<notin> set w)"

lemma js_separators: "js '' '' = [sp]" "js ''; '' = [semi, sp]"
  by (simp_all add: js_def sp_def semi_def)

lemma clean_js [simp]: "clean (js s) = (CHR '' '' \<notin> set s \<and> CHR '';'' \<notin> set s)"
proof -
  have "(of_char c :: jchar) \<in> set (js s) \<longleftrightarrow> c \<in> set s" for c
    by (simp only: js_def set_map) (metis image_iff of_char_jchar_inject)
  then show ?thesis unfolding clean_def sp_def semi_def by metis
qed

lemma sp_not_semi [simp]: "sp \<noteq> semi" "semi \<noteq> sp"
  by (simp_all add: sp_def semi_def)

lemma clean_append [simp]: "clean (a @ b) = (clean a \<and> clean b)"
  by (auto simp: clean_def)

lemma clean_quoted [simp]: "clean (quoted s) = clean s"
  by (simp add: quoted_def)

lemma quoted_not_Nil [simp]: "quoted s \<noteq> []"
  by (simp add: quoted_def)

lemma btoa_clean:
  assumes "btoa s = Some n"
  shows "clean n"
proof -
  from assms have n: "n = js (b64_encode (map unat s))" and bytes: "\<forall>x\<in>set (map unat s). x < 256"
    by (simp_all add: btoa_def split: if_splits)
  have "c \<noteq> CHR '' ''" "c \<noteq> CHR '';''" if "c \<in> set (b64_encode (map unat s))" for c
    using alphabet_clean [OF subsetD [OF b64_encode_alphabet [OF bytes] that]] .
  then show ?thesis unfolding n clean_js by fast
qed

lemma split_on_append: "sep \<notin> set x \<Longrightarrow> split_on sep (x @ sep # y) = x # split_on sep y"
  by (induction x) auto

lemma split_on_none: "sep \<notin> set x \<Longrightarrow> split_on sep x = [x]"
  by (induction x) auto

lemma words_join:
  "\<forall>w\<in>set ws. clean w \<and> w \<noteq> [] \<Longrightarrow> words_of (join_with (js '' '') ws) = ws"
proof (induction ws rule: induct_list012)
  case (3 x y zs)
  then have "words_of (x @ js '' '' @ join_with (js '' '') (y # zs)) = x # words_of (join_with (js '' '') (y # zs))"
    by (auto simp: words_of_def clean_def js_separators split_on_append)
  with 3 show ?case by simp
qed (auto simp: words_of_def clean_def split_on_none)

lemma words_space: "words_of (sp # d) = words_of d"
  by (simp add: words_of_def)

lemma split_join:
  assumes "\<forall>d\<in>set (d # ds). semi \<notin> set d"
  shows "split_on semi (join_with (js ''; '') (d # ds)) = d # map ((#) sp) ds"
  using assms
proof (induction ds arbitrary: d)
  case (Cons e ds)
  let ?rest = "join_with (js ''; '') (e # ds)"
  have "split_on semi (d @ js ''; '' @ ?rest) = d # split_on semi (sp # ?rest)"
    using Cons.prems by (simp add: js_separators split_on_append)
  also have "split_on semi (sp # ?rest) = (sp # e) # map ((#) sp) ds"
    using Cons by simp
  finally show ?case by simp
qed (simp add: split_on_none)

text \<open>The policy as the table it means.\<close>

definition policy :: "jstring \<Rightarrow> bool \<Rightarrow> (jstring \<times> jstring list) list" where
  "policy nonce isDev =
     (let self = quoted (js ''self''); none = quoted (js ''none'') in
      [(js ''default-src'', [self]),
       (js ''script-src'', [self, quoted (js ''nonce-'' @ nonce), quoted (js ''strict-dynamic'')] @
          (if isDev then [quoted (js ''unsafe-eval'')] else [])),
       (js ''style-src'', [self, quoted (js ''unsafe-inline'')]),
       (js ''img-src'', [self, js ''blob:'', js ''data:'']),
       (js ''font-src'', [self]),
       (js ''connect-src'', [self] @ (if isDev then [js ''ws:'', js ''wss:''] else [])),
       (js ''object-src'', [none]), (js ''base-uri'', [self]), (js ''form-action'', [self]),
       (js ''frame-ancestors'', [none]), (js ''frame-src'', [none]), (js ''manifest-src'', [self])] @
      (if isDev then [] else [(js ''upgrade-insecure-requests'', [])]))"

lemma directives_policy:
  "csp_directives nonce isDev = map (\<lambda>(n, vs). join_with (js '' '') (n # vs)) (policy nonce isDev)"
  by (simp add: csp_directives_def policy_def Let_def quoted_def js_def)

lemma join_clean: "\<forall>w\<in>set ws. clean w \<Longrightarrow> semi \<notin> set (join_with (js '' '') ws)"
  by (induction ws rule: induct_list012) (auto simp: clean_def js_separators)

lemma parse_policy:
  assumes "\<forall>(n, vs)\<in>set (p # ps). \<forall>w\<in>set (n # vs). clean w \<and> w \<noteq> []"
  shows "parse_csp (join_with (js ''; '') (map (\<lambda>(n, vs). join_with (js '' '') (n # vs)) (p # ps))) = p # ps"
proof -
  let ?d = "\<lambda>(n, vs). join_with (js '' '') (n # vs)"
  have "\<forall>d\<in>set (map ?d (p # ps)). semi \<notin> set d"
    using assms join_clean by (fastforce simp del: join_with.simps)
  then have split: "split_on semi (join_with (js ''; '') (map ?d (p # ps))) = ?d p # map (\<lambda>q. sp # ?d q) ps"
    using split_join [of "?d p" "map ?d ps"] by (simp add: comp_def)
  have words: "words_of (?d q) = fst q # snd q" if "q \<in> set (p # ps)" for q
    using assms that words_join [of "fst q # snd q"] by (cases q) fastforce
  have "List.map_filter (\<lambda>d. case words_of d of [] \<Rightarrow> None | n # vs \<Rightarrow> Some (n, vs)) (map (\<lambda>q. sp # ?d q) qs) = qs"
    if "set qs \<subseteq> set ps" for qs
    using that
  proof (induction qs)
    case (Cons q qs)
    then have "words_of (sp # ?d q) = fst q # snd q" using words [of q] by (simp add: words_space)
    with Cons show ?case by (simp add: map_filter_simps)
  qed (simp add: map_filter_simps)
  from this [of ps] show ?thesis
    using words [of p] unfolding parse_csp_def split by (simp add: map_filter_simps)
qed

lemma parse_csp_policy:
  assumes "clean nonce"
  shows "parse_csp (csp nonce isDev) = policy nonce isDev"
proof -
  obtain p ps where p: "policy nonce isDev = p # ps" by (simp add: policy_def Let_def)
  have "\<forall>(n, vs)\<in>set (policy nonce isDev). \<forall>w\<in>set (n # vs). clean w \<and> w \<noteq> []"
    using assms by (simp add: policy_def Let_def)
  then show ?thesis using parse_policy [of p ps] by (simp add: csp_def directives_policy p)
qed

lemma unat_map_inject: "map unat s = map unat t \<Longrightarrow> s = (t :: jstring)"
  by (rule map_injective) (auto simp: inj_def word_unat_eq_iff)

lemma btoa_inject:
  assumes "btoa u = Some n" and "btoa v = Some n"
  shows "u = v"
proof -
  from assms have bytes: "\<forall>x\<in>set (map unat u). x < 256" "\<forall>x\<in>set (map unat v). x < 256"
    and "b64_encode (map unat u) = b64_encode (map unat v)"
    by (auto simp: btoa_def split: if_splits)
  then have "map unat u = map unat v" using b64_roundtrip by metis
  then show ?thesis by (rule unat_map_inject)
qed

text \<open>The first segment of a path, which is what the dock compares.\<close>

definition first_segment :: "jstring \<Rightarrow> jstring" where
  "first_segment path = takeWhile (\<lambda>c. c \<noteq> of_char CHR ''/'') (tl path)"

definition simple_href :: "jstring \<Rightarrow> bool" where
  "simple_href h = (hd h = of_char CHR ''/'' \<and> h \<noteq> [] \<and> of_char CHR ''/'' \<notin> set (tl h))"

lemma dock_active_segment:
  assumes "simple_href h" and "dock_active path h"
  shows "first_segment path = tl h"
proof -
  obtain t where h: "h = of_char CHR ''/'' # t" and t: "of_char CHR ''/'' \<notin> set t"
    using assms(1) by (cases h) (auto simp: simple_href_def)
  have stop: "takeWhile (\<lambda>c. c \<noteq> of_char CHR ''/'') (t @ of_char CHR ''/'' # r) = t" for r
    using t by (subst takeWhile_append2) auto
  have all: "takeWhile (\<lambda>c. c \<noteq> of_char CHR ''/'') t = t"
    using t by (auto simp: takeWhile_eq_all_conv)
  from assms(2) have "path = h \<or> (\<exists>r. path = h @ js ''/'' @ r)"
    by (auto simp: dock_active_def starts_with_prefix prefix_def)
  then show ?thesis
  proof
    assume "path = h"
    then show ?thesis using all h by (simp add: first_segment_def)
  next
    assume "\<exists>r. path = h @ js ''/'' @ r"
    then obtain r where "path = of_char CHR ''/'' # t @ of_char CHR ''/'' # r" using h by (auto simp: js_def)
    then show ?thesis using stop h by (simp add: first_segment_def)
  qed
qed

lemma same_key_short:
  assumes "distinct (map fst xs)" and "\<And>d e. d \<in> set xs \<Longrightarrow> e \<in> set xs \<Longrightarrow> fst d = fst e"
  shows "length xs \<le> 1"
proof (cases xs rule: remdups_adj.cases)
  case (3 x y zs)
  with assms show ?thesis by auto
qed auto

lemma dock_hrefs: "\<forall>d\<in>set (dockItems @ dockManage). simple_href (fst d)" "distinct (map fst (dockItems @ dockManage))"
  by code_simp+

section \<open>Properties\<close>

text \<open>
  C16. The policy the browser enforces: for every UUID the proxy answers with a header that a
  browser reads as the intended table whatever the nonce is; scripts need the nonce of this
  very request, inline and evaluated code are refused in production, framing and plug-ins are
  refused always; the page sees the same nonce, so its own inline script runs; and different
  UUIDs give different nonces.
\<close>

theorem csp_enforced:
  assumes "\<forall>c\<in>set uuid. unat c < 256"
  shows "\<exists>q' h n. proxy uuid isDev q = Some (q', h) \<and> layout_nonce q' = Some n \<and>
    header q' ''content-security-policy'' = Some h \<and> parse_csp h = policy n isDev \<and>
    csp_sources h ''script-src'' = Some ([quoted (js ''self''), quoted (js ''nonce-'' @ n), quoted (js ''strict-dynamic'')] @
       (if isDev then [quoted (js ''unsafe-eval'')] else [])) \<and>
    csp_sources h ''frame-ancestors'' = Some [quoted (js ''none'')] \<and> csp_sources h ''object-src'' = Some [quoted (js ''none'')] \<and>
    (\<forall>v. btoa v = Some n \<longrightarrow> v = uuid)"
proof -
  from assms obtain n where n: "btoa uuid = Some n" by (simp add: btoa_def)
  have parse: "parse_csp (csp n isDev) = policy n isDev" by (rule parse_csp_policy [OF btoa_clean [OF n]])
  then have sources: "csp_sources (csp n isDev) name = map_of (policy n isDev) (js name)" for name by (simp add: csp_sources_def)
  let ?h = "csp n isDev" and ?q = "set_header ''content-security-policy'' (csp n isDev) (set_header ''x-nonce'' n q)"
  have "proxy uuid isDev q = Some (?q, ?h)" using n by (simp add: proxy_def Let_def)
  moreover have "layout_nonce ?q = Some n" "header ?q ''content-security-policy'' = Some ?h" by (simp_all add: layout_nonce_def)
  moreover have "csp_sources ?h ''script-src'' = Some ([quoted (js ''self''), quoted (js ''nonce-'' @ n), quoted (js ''strict-dynamic'')] @
       (if isDev then [quoted (js ''unsafe-eval'')] else []))"
    "csp_sources ?h ''frame-ancestors'' = Some [quoted (js ''none'')]" "csp_sources ?h ''object-src'' = Some [quoted (js ''none'')]"
    by (simp_all add: sources policy_def Let_def)
  moreover have "\<forall>v. btoa v = Some n \<longrightarrow> v = uuid" using btoa_inject [OF _ n] by blast
  ultimately show ?thesis using parse by blast
qed

theorem csp_enforced_witness:
  "\<exists>q' h n. proxy (js ''36b8f84d-df4e-4d49-b662-bcde71a8764f'') False \<lparr>rq_method = js ''GET'', rq_url = js ''/'', rq_headers = [], rq_body = None\<rparr>
      = Some (q', h) \<and> layout_nonce q' = Some n \<and>
    csp_sources h ''script-src'' = Some [quoted (js ''self''), quoted (js ''nonce-'' @ n), quoted (js ''strict-dynamic'')]"
proof -
  have "\<forall>c\<in>set (js ''36b8f84d-df4e-4d49-b662-bcde71a8764f''). unat c < 256" by code_simp
  from csp_enforced [OF this, of False "\<lparr>rq_method = js ''GET'', rq_url = js ''/'', rq_headers = [], rq_body = None\<rparr>"]
  show ?thesis by auto
qed

text \<open>
  The policy is on every page and the API stays out of its way: every destination of the
  dock and every page of the site map is matched by the proxy unless it is only prefetched,
  and a path that is rewritten to the backend is never matched and keeps its path there.
\<close>

theorem pages_covered:
  assumes "header q ''next-router-prefetch'' = None" and "header q ''purpose'' \<noteq> Some (js ''prefetch'')"
  shows "(\<forall>path\<in>set (map fst (dockItems @ dockManage) @ sitemap_paths). proxy_matches path q) \<and>
    (\<forall>path target dest. api_rewrite target path = Some dest \<longrightarrow> \<not> proxy_matches path q \<and> dest = target @ path)"
proof -
  have "\<forall>path\<in>set (map fst (dockItems @ dockManage) @ sitemap_paths).
      starts_with path (js ''/'') \<and> \<not> excluded_path (drop 1 path)" by code_simp
  moreover have "excluded_path (drop 1 path)" if "path = js ''/api'' \<or> starts_with path (js ''/api/'')" for path
  proof -
    from that obtain r where "path = js ''/api'' @ r" by (auto simp: starts_with_prefix prefix_def js_def)
    then have "drop 1 path = js ''api'' @ r" by (simp add: js_def)
    then show ?thesis by (simp add: excluded_path_def)
  qed
  ultimately show ?thesis using assms by (auto simp: proxy_matches_def api_rewrite_def split: if_splits)
qed

theorem pages_covered_witness:
  "let q = \<lparr>rq_method = js ''GET'', rq_url = js ''/compose'', rq_headers = [(js ''purpose'', js ''navigate'')], rq_body = None\<rparr> in
   proxy_matches (js ''/compose'') q \<and> \<not> proxy_matches (js ''/api/v1/auth/me'') q"
proof -
  let ?q = "\<lparr>rq_method = js ''GET'', rq_url = js ''/compose'', rq_headers = [(js ''purpose'', js ''navigate'')], rq_body = None\<rparr>"
  have q: "header ?q ''next-router-prefetch'' = None" "header ?q ''purpose'' \<noteq> Some (js ''prefetch'')"
    by (simp_all add: header_def obj_get_def)
  have "js ''/compose'' \<in> set (map fst (dockItems @ dockManage) @ sitemap_paths)" by code_simp
  moreover have "api_rewrite [] (js ''/api/v1/auth/me'') = Some (js ''/api/v1/auth/me'')" by code_simp
  ultimately show ?thesis using pages_covered [OF q] unfolding Let_def by blast
qed

text \<open>The dock marks at most one destination as the current page, and a destination on its own page and the pages below it.\<close>

theorem dock_one_active:
  "length (filter (\<lambda>d. dock_active path (fst d)) (dockItems @ dockManage)) \<le> 1 \<and>
   (\<forall>d\<in>set (dockItems @ dockManage). dock_active (fst d) (fst d) \<and>
      (fst d \<noteq> js ''/'' \<longrightarrow> dock_active (fst d @ js ''/'' @ r) (fst d)))"
proof -
  let ?hit = "filter (\<lambda>d. dock_active path (fst d)) (dockItems @ dockManage)"
  have "fst d = fst e" if "d \<in> set ?hit" "e \<in> set ?hit" for d e
  proof -
    from that dock_hrefs have "simple_href (fst d)" "simple_href (fst e)" "dock_active path (fst d)" "dock_active path (fst e)" by auto
    then have "tl (fst d) = tl (fst e)" "hd (fst d) = hd (fst e)" "fst d \<noteq> []" "fst e \<noteq> []"
      using dock_active_segment by (auto simp: simple_href_def) metis+
    then show ?thesis by (metis list.expand)
  qed
  moreover have "distinct (map fst ?hit)" using dock_hrefs(2) by (rule distinct_map_filter)
  ultimately have "length ?hit \<le> 1" by (intro same_key_short)
  then show ?thesis by (auto simp: dock_active_def starts_with_prefix)
qed

text \<open>The rules for crawlers leave out the settings page of the application and allow its home page.\<close>

theorem robots_misses_settings:
  "(js ''/settings'') \<in> fst ` set dockManage \<and> crawlable (js ''/settings'') \<and>
   (js ''/'') \<in> fst ` set dockItems \<and> crawlable (js ''/'') \<and> js ''/'' \<in> set sitemap_paths"
  by code_simp

text \<open>Images: a source of the policy is the page's own origin or a scheme.\<close>

definition img_allowed :: "jstring \<Rightarrow> jstring \<Rightarrow> jstring \<Rightarrow> bool" where
  "img_allowed h origin url =
     (case csp_sources h ''img-src'' of
        None \<Rightarrow> True
      | Some sources \<Rightarrow> list_ex (\<lambda>s. if s = quoted (js ''self'') then starts_with url (origin @ js ''/'') else starts_with url s) sources)"

text \<open>So the image of a link card, which is loaded from the linked site, is refused.\<close>

theorem remote_image_blocked:
  assumes "clean nonce" and "starts_with url (js ''https://'')" and "\<not> starts_with url (origin @ js ''/'')"
  shows "\<not> img_allowed (csp nonce isDev) origin url"
proof -
  from assms(2) obtain r where "url = js ''https://'' @ r" by (auto simp: starts_with_prefix prefix_def)
  then have "\<not> starts_with url (js ''blob:'')" "\<not> starts_with url (js ''data:'')" by (auto simp: js_def starts_with_def)
  moreover have "csp_sources (csp nonce isDev) ''img-src'' = Some [quoted (js ''self''), js ''blob:'', js ''data:'']"
    by (simp add: csp_sources_def parse_csp_policy [OF assms(1)] policy_def Let_def)
  moreover have "js ''blob:'' \<noteq> quoted (js ''self'')" "js ''data:'' \<noteq> quoted (js ''self'')" by code_simp+
  ultimately show ?thesis using assms(3) by (simp add: img_allowed_def)
qed

end
