(* ===== verification/Previews.thy ===== *)
theory Previews
  imports MobileRefines Wallet
begin

text \<open>
  What the user sees of a post before it is sent, and the small widgets around it: the
  previews of both clients (\<^verbatim>\<open>web/src/features/composer/post-preview.tsx\<close>,
  \<^verbatim>\<open>mobile/src/features/compose/post-preview.tsx\<close>), the media picker
  (\<^verbatim>\<open>media-attach.tsx\<close>), the link tagging preview (\<^verbatim>\<open>utm-preview.tsx\<close>), the upload button
  (\<^verbatim>\<open>web/src/features/media/upload-button.tsx\<close>) and the texts of the wallet page
  (\<^verbatim>\<open>web/src/features/wallet/wallet-screen.tsx\<close>). The URL parser is a parameter: the host name
  of a text, or nothing when it is not a URL.
\<close>

section \<open>Previews of a post\<close>

definition remove_first :: "jchar \<Rightarrow> jstring \<Rightarrow> jstring" where
  "remove_first c s = takeWhile (\<lambda>d. d \<noteq> c) s @ drop 1 (dropWhile (\<lambda>d. d \<noteq> c) s)"

abbreviation at_sign :: jchar where
  "at_sign \<equiv> hd (js ''@'')"

text \<open>\<open>(display_name || handle || "?").replace("@", "").charAt(0)\<close>.\<close>

definition preview_initial :: "channel \<Rightarrow> jstring" where
  "preview_initial ch =
     take 1 (remove_first at_sign
       (if truthy (ch_display_name ch) then ch_display_name ch else if truthy (ch_handle ch) then ch_handle ch else js ''?''))"

text \<open>\<open>new URL(url).hostname.replace(/^www\\./, "")\<close>, or the text itself when it does not parse.\<close>

definition safeDomain :: "(jstring \<Rightarrow> jstring option) \<Rightarrow> jstring \<Rightarrow> jstring" where
  "safeDomain hostname url =
     (case hostname url of
        None \<Rightarrow> url
      | Some h \<Rightarrow> if starts_with h (js ''www.'') then drop 4 h else h)"

datatype media_cell = Video_cell jstring | Image_cell jstring jstring

definition media_cells :: "(jstring \<Rightarrow> jstring) \<Rightarrow> media_meta list \<Rightarrow> media_cell list" where
  "media_cells url media = map (\<lambda>m. if mm_kind m = Video then Video_cell (mm_media_id m)
     else Image_cell (mm_media_id m) (url (mm_media_id m))) (take 4 media)"

definition XMediaGrid :: "jstring \<Rightarrow> jstring \<Rightarrow> media_meta list \<Rightarrow> media_cell list" where
  "XMediaGrid origin ws media = media_cells (mediaDownloadURL origin ws) media"

record link_card =
  lk_image :: "jstring option"
  lk_domain :: jstring
  lk_title :: jstring
  lk_description :: "jstring option"

text \<open>The card while its metadata is loading or there, and nothing when the load failed.\<close>

definition XLinkCard :: "(jstring \<Rightarrow> jstring option) \<Rightarrow> bool \<Rightarrow> link_preview option \<Rightarrow> jstring \<Rightarrow> link_card option" where
  "XLinkCard hostname isError preview url =
     (if isError then None
      else Some \<lparr>lk_image = (case map_option lp_image preview of Some i \<Rightarrow> if truthy i then Some i else None | None \<Rightarrow> None),
        lk_domain = safeDomain hostname url,
        lk_title = (case map_option lp_title preview of Some t \<Rightarrow> if truthy t then t else url | None \<Rightarrow> url),
        lk_description = (case map_option lp_description preview of Some d \<Rightarrow> if truthy d then Some d else None | None \<Rightarrow> None)\<rparr>)"

record x_preview =
  xp_initial :: jstring
  xp_name :: jstring
  xp_handle :: jstring
  xp_body :: "jstring option"   \<comment> \<open>\<open>None\<close> is the placeholder\<close>
  xp_media :: "media_cell list"
  xp_link :: "jstring option"

definition XPreview :: "jstring \<Rightarrow> jstring \<Rightarrow> channel \<Rightarrow> jstring \<Rightarrow> media_meta list \<Rightarrow> x_preview" where
  "XPreview origin ws ch body media =
     \<lparr>xp_initial = preview_initial ch, xp_name = ch_display_name ch, xp_handle = atHandle (ch_handle ch),
      xp_body = (if truthy body then Some body else None), xp_media = XMediaGrid origin ws media,
      xp_link = preview_link media body\<rparr>"

datatype post_preview = No_preview | X_preview x_preview | Plain_preview jstring jstring

definition PostPreview :: "jstring \<Rightarrow> jstring \<Rightarrow> channel option \<Rightarrow> jstring \<Rightarrow> media_meta list \<Rightarrow> post_preview" where
  "PostPreview origin ws ch body media =
     (case ch of
        None \<Rightarrow> No_preview
      | Some c \<Rightarrow> if ch_platform c = js ''twitter'' then X_preview (XPreview origin ws c body media)
                 else Plain_preview (ch_display_name c) body)"

text \<open>The preview of the editor: \<open>previewChannel\<close> with the text meant for it.\<close>

definition editor_preview :: "jstring \<Rightarrow> jstring \<Rightarrow> channel list \<Rightarrow> composer \<Rightarrow> post_preview" where
  "editor_preview origin ws channels c =
     PostPreview origin ws (previewChannel channels c) (preview_body channels c) (cs_media (co_state c))"

text \<open>The mobile card, and the one of the compose screen: it takes the handle of the first selected channel, if any.\<close>

definition mob_PostPreview ::
  "(jstring \<Rightarrow> jstring) \<Rightarrow> jstring \<Rightarrow> 'k session \<Rightarrow> jstring \<Rightarrow> jstring option \<Rightarrow> jstring \<Rightarrow> media_meta list \<Rightarrow> x_preview" where
  "mob_PostPreview toUpperCase origin session ws handle body media =
     (let named = (\<lambda>f other. case handle of Some h \<Rightarrow> if truthy h then f h else js other | None \<Rightarrow> js other);
          name = named (\<lambda>h. if starts_with h (js ''@'') then drop 1 h else h) ''Your account'' in
      \<lparr>xp_initial = toUpperCase (take 1 name), xp_name = name,
       xp_handle = named (\<lambda>h. if starts_with h (js ''@'') then h else js ''@'' @ h) ''@you'',
       xp_body = (if length (trim body) > 0 then Some body else None),
       xp_media = media_cells (\<lambda>m. rq_url (mediaSource origin session ws m)) media,
       xp_link = (if media = [] then firstURL body else None)\<rparr>)"

definition mob_link_domain :: "(jstring \<Rightarrow> jstring option) \<Rightarrow> x_preview \<Rightarrow> jstring option" where
  "mob_link_domain hostname x = map_option (safeDomain hostname) (xp_link x)"

definition mob_editor_preview ::
  "(jstring \<Rightarrow> jstring) \<Rightarrow> jstring \<Rightarrow> 'k session \<Rightarrow> jstring option \<Rightarrow> channel list \<Rightarrow> mob_compose \<Rightarrow> x_preview" where
  "mob_editor_preview toUpperCase origin session active channels s =
     mob_PostPreview toUpperCase origin session (nullish active [])
       (case mob_selectedChannels channels s of [] \<Rightarrow> None | ch # _ \<Rightarrow> Some (ch_handle ch)) (mk_body s) (mk_media s)"

section \<open>The media picker\<close>

text \<open>The dialog: it loads the library only while it is open, and picking an asset closes it.\<close>

record media_attach =
  ma_open :: bool
  ma_attached :: "media_meta list"

datatype attach_event = Ma_open_change bool | Ma_pick asset | Ma_remove jstring

fun MediaAttach :: "asset list \<Rightarrow> media_attach \<Rightarrow> attach_event \<Rightarrow> media_attach" where
  "MediaAttach assets s (Ma_open_change b) = s\<lparr>ma_open := b\<rparr>"
| "MediaAttach assets s (Ma_pick a) =
     (if ma_open s \<and> a \<in> set assets then \<lparr>ma_open = False, ma_attached = pick_media a (ma_attached s)\<rparr> else s)"
| "MediaAttach assets s (Ma_remove m) = s\<lparr>ma_attached := remove_media m (ma_attached s)\<rparr>"

definition attach_query :: "jstring \<Rightarrow> media_attach \<Rightarrow> (asset list api_result, asset list) query_hook" where
  "attach_query ws s = useMedia (if ma_open s then Some ws else None)"

definition chip_text :: "media_meta \<Rightarrow> jstring" where
  "chip_text m = media_kind_name (mm_kind m) @ [0x20, 0xB7, 0x20] @ formatBytes (nat (mm_bytes m))"

section \<open>Link tagging\<close>

record utm_preview =
  up_source :: jstring
  up_campaign :: jstring
  up_result :: "jstring option"
  up_error :: "json option"
  up_pending :: bool

definition utm_init :: utm_preview where
  "utm_init = \<lparr>up_source = js ''postal'', up_campaign = [], up_result = None, up_error = None, up_pending = False\<rparr>"

datatype utm_event = Up_source jstring | Up_campaign jstring | Up_run | Up_settled "thrown + jstring"

fun UtmPreview :: "jstring \<Rightarrow> utm_preview \<Rightarrow> utm_event \<Rightarrow> utm_preview \<times> (jstring \<times> jstring obj option) list" where
  "UtmPreview text s (Up_source x) = (s\<lparr>up_source := x\<rparr>, [])"
| "UtmPreview text s (Up_campaign x) = (s\<lparr>up_campaign := x\<rparr>, [])"
| "UtmPreview text s Up_run =
     (if utm_disabled (up_pending s) text then (s, [])
      else (s\<lparr>up_error := None, up_pending := True\<rparr>, [(text, Some (utm_params (up_source s) (up_campaign s)))]))"
| "UtmPreview text s (Up_settled r) =
     (if \<not> up_pending s then (s, [])
      else case r of
             Inl e \<Rightarrow> (s\<lparr>up_error := Some (thrown_message e), up_pending := False\<rparr>, [])
           | Inr x \<Rightarrow> (s\<lparr>up_result := Some x, up_pending := False\<rparr>, []))"

section \<open>Uploading\<close>

text \<open>
  The button is disabled while the last upload is under way, the file input behind it is not; so
  uploads can overlap. \<open>ub_running\<close> are the uploads that have not settled, the last one first;
  \<open>ub_latest\<close> is the one \<open>upload.isPending\<close> follows; progress is the fraction last reported.
\<close>

record upload_button =
  ub_progress :: "rat option"
  ub_error :: "json option"
  ub_running :: "nat list"
  ub_latest :: "nat option"

definition upload_init :: upload_button where
  "upload_init = \<lparr>ub_progress = None, ub_error = None, ub_running = [], ub_latest = None\<rparr>"

datatype upload_event = Ub_pick "nat option" | Ub_progress nat rat | Ub_settled nat "thrown + asset"

fun UploadButton :: "upload_button \<Rightarrow> upload_event \<Rightarrow> upload_button \<times> nat list" where
  "UploadButton s (Ub_pick None) = (s, [])"
| "UploadButton s (Ub_pick (Some i)) =
     (if i \<in> set (ub_running s) then (s, [])
      else (s\<lparr>ub_error := None, ub_progress := Some 0, ub_running := i # ub_running s, ub_latest := Some i\<rparr>, [i]))"
| "UploadButton s (Ub_progress i p) = (if i \<in> set (ub_running s) then s\<lparr>ub_progress := Some p\<rparr> else s, [])"
| "UploadButton s (Ub_settled i r) =
     (if i \<notin> set (ub_running s) then (s, [])
      else (s\<lparr>ub_error := (case r of Inl e \<Rightarrow> Some (thrown_message e) | Inr _ \<Rightarrow> ub_error s),
             ub_progress := None, ub_running := remove1 i (ub_running s),
             ub_latest := (if ub_latest s = Some i then None else ub_latest s)\<rparr>, []))"

record upload_view =
  uv_disabled :: bool
  uv_label :: jstring
  uv_bar :: "int option"
  uv_alert :: "json option"

definition upload_shown :: "upload_button \<Rightarrow> upload_view" where
  "upload_shown s =
     \<lparr>uv_disabled = (ub_latest s \<noteq> None),
      uv_label = (if ub_latest s \<noteq> None then js ''Uploading'' @ [0x2026] else js ''Upload''),
      uv_bar = map_option (\<lambda>p. js_round (double (p * 100))) (ub_progress s),
      uv_alert = (case ub_error s of Some e \<Rightarrow> if json_truthy e then Some e else None | None \<Rightarrow> None)\<rparr>"

text \<open>Uploads by the button alone: a file is picked only when the button is not disabled.\<close>

fun picks :: "upload_event \<Rightarrow> bool" where
  "picks (Ub_pick f) = True"
| "picks _ = False"

fun upload_run :: "upload_button \<Rightarrow> upload_event list \<Rightarrow> upload_button" where
  "upload_run s [] = s"
| "upload_run s (e # es) =
     upload_run (if picks e \<and> uv_disabled (upload_shown s) then s else fst (UploadButton s e)) es"

section \<open>The wallet page\<close>

datatype banner_kind = Banner_success | Banner_canceled

definition wallet_banner :: "jstring option \<Rightarrow> banner_kind option" where
  "wallet_banner status =
     (if status = Some (js ''success'') then Some Banner_success
      else if status = Some (js ''canceled'') then Some Banner_canceled else None)"

definition wallet_balance :: "wallet option \<Rightarrow> int \<times> jstring" where
  "wallet_balance w =
     (let b = (case w of None \<Rightarrow> 0 | Some x \<Rightarrow> wl_balance x)
      in (b, creditsToUSD b @ js '' of publishing power''))"

definition buy_disabled :: "wallet_form \<Rightarrow> bool" where
  "buy_disabled f = (wf_pending f \<or> belowMin f)"

definition buy_label :: "(rat \<Rightarrow> jstring) \<Rightarrow> wallet_form \<Rightarrow> jstring" where
  "buy_label toLocaleString f =
     (if wf_pending f then js ''Opening checkout''
      else js ''Buy '' @ show_int (credits f) @ js '' credits for '' @
           cu_symbol (CURRENCY (wf_provider f)) @ toLocaleString (numericAmount f))"

text \<open>The top-up panel: the providers with their check marks, the amount and what it buys, the presets, the two texts below and the buttons.\<close>

record topup_panel =
  tp_providers :: "(topup_provider \<times> jstring \<times> jstring \<times> bool) list"
  tp_amount_label :: jstring
  tp_symbol :: jstring
  tp_limits :: "nat \<times> nat"
  tp_amount :: jstring
  tp_red :: bool
  tp_worth :: jstring
  tp_presets :: "(nat \<times> jstring \<times> bool) list"
  tp_minimum :: jstring
  tp_alert :: "json option"
  tp_buy :: "jstring \<times> bool"
  tp_dev :: "bool option"   \<comment> \<open>the development button, with whether it is disabled\<close>

definition topup_view :: "(rat \<Rightarrow> jstring) \<Rightarrow> bool \<Rightarrow> wallet_form \<Rightarrow> topup_panel" where
  "topup_view toLocaleString production f =
     (let c = CURRENCY (wf_provider f) in
      \<lparr>tp_providers = map (\<lambda>(k, l, n). (k, l, n, wf_provider f = k)) PROVIDERS,
       tp_amount_label = js ''Amount ('' @ cu_code c @ js '')'',
       tp_symbol = cu_symbol c,
       tp_limits = (cu_min c, cu_step c),
       tp_amount = wf_amount f,
       tp_red = belowMin f,
       tp_worth = js ''= '' @ show_int (credits f) @ js '' credits'',
       tp_presets = map (\<lambda>n. (n, cu_symbol c @ toLocaleString (of_nat n), numericAmount f = of_nat n)) (cu_presets c),
       tp_minimum = js ''Minimum '' @ cu_symbol c @ toLocaleString (of_nat (cu_min c)) @ js ''. Rate: $1 = '' @
         [0x20A6] @ toLocaleString NGN_PER_USD @ js ''.'',
       tp_alert = (case wf_error f of Some e \<Rightarrow> if json_truthy e then Some e else None | None \<Rightarrow> None),
       tp_buy = (buy_label toLocaleString f, buy_disabled f),
       tp_dev = (if production then None else Some (wf_pending f))\<rparr>)"

record wallet_page =
  wp_banner :: "banner_kind option"
  wp_balance :: "int \<times> jstring"
  wp_tiers :: "(jstring \<times> int) list"
  wp_topup :: topup_panel
  wp_empty :: bool
  wp_rows :: "ledger_entry list"

text \<open>Nothing but a spinner until there is a workspace and its wallet has been loaded or has failed to load.\<close>

definition wallet_view ::
  "(rat \<Rightarrow> jstring) \<Rightarrow> bool \<Rightarrow> jstring option \<Rightarrow> bool \<Rightarrow> jstring option \<Rightarrow> wallet option \<Rightarrow> ledger_entry list option
   \<Rightarrow> wallet_form \<Rightarrow> wallet_page option" where
  "wallet_view toLocaleString production active isPending status w ledger f =
     (if active = None \<or> isPending then None
      else Some \<lparr>wp_banner = wallet_banner status, wp_balance = wallet_balance w, wp_tiers = tiers w,
        wp_topup = topup_view toLocaleString production f,
        wp_empty = (case ledger of None \<Rightarrow> True | Some xs \<Rightarrow> xs = []),
        wp_rows = (case ledger of None \<Rightarrow> [] | Some xs \<Rightarrow> xs)\<rparr>)"

section \<open>What the widgets guarantee\<close>

lemma mediaSource_url: "rq_url (mediaSource origin session ws m) = mediaDownloadURL origin ws m"
  by (simp add: mediaSource_def mediaDownloadURL_def with_bearer_def plain_get_def split: option.split)

lemma selected_abs: "selectedChannels channels (abs_state s) = mob_selectedChannels channels s"
  by (simp add: selectedChannels_def mob_selectedChannels_def abs_state_def)

lemma trim_Nil [simp]: "trim [] = []"
  by (simp add: trim_def)

lemma card_domain:
  "map_option lk_domain (Option.bind u (XLinkCard hostname False p)) = map_option (safeDomain hostname) u"
  by (cases u) (simp_all add: XLinkCard_def)

lemma editor_preview_sim:
  assumes "sim s c" and "mob_selectedChannels channels s = ch # rest"
  shows "editor_preview origin ws channels c = PostPreview origin ws (Some ch) (mk_body s) (mk_media s)"
proof -
  from assms have "previewChannel channels c = Some ch"
    by (simp add: previewChannel_def sim_def selected_abs)
  then show ?thesis
    using assms(1) by (simp add: editor_preview_def preview_body_def sim_def abs_state_def bodyFor_def)
qed



text \<open>
  The button of the wallet page buys what it says: its text names the credits of the entered
  amount in the chosen currency, pressing it while it is enabled starts exactly one top-up, of
  those credits with that provider, and pressing it while it is disabled starts none.
\<close>

theorem buy_as_labelled:
  "tp_buy (topup_view toLocaleString production f) =
     (if wf_pending f then js ''Opening checkout''
      else js ''Buy '' @ show_int (credits f) @ js '' credits for '' @ tp_symbol (topup_view toLocaleString production f) @
           toLocaleString (numericAmount f),
      buy_disabled f) \<and>
   tp_worth (topup_view toLocaleString production f) = js ''= '' @ show_int (credits f) @ js '' credits'' \<and>
   snd (wallet_step production f Wf_buy) = (if buy_disabled f then [] else [Cmd_topup (wf_provider f) (credits f)])"
  by (auto simp: topup_view_def buy_label_def buy_disabled_def startTopup_def topup_cmds_def belowMin_def credits_def Let_def)

text \<open>Through the button uploads never overlap, and a bar is shown exactly while one is running.\<close>

definition upload_inv :: "upload_button \<Rightarrow> bool" where
  "upload_inv s = (ub_running s = (case ub_latest s of None \<Rightarrow> [] | Some i \<Rightarrow> [i]) \<and>
     (ub_progress s = None \<longleftrightarrow> ub_latest s = None))"

lemma upload_inv_step:
  assumes "upload_inv s" and "\<And>f. e = Ub_pick f \<Longrightarrow> ub_latest s = None"
  shows "upload_inv (fst (UploadButton s e))"
proof (cases "(s, e)" rule: UploadButton.cases)
  case (2 s' i)
  then have "ub_latest s = None" using assms(2) by simp
  with assms(1) 2 show ?thesis by (simp add: upload_inv_def)
qed (use assms(1) in \<open>auto simp: upload_inv_def split: option.splits\<close>)

lemma upload_inv_run: "upload_inv s \<Longrightarrow> upload_inv (upload_run s es)"
proof (induction es arbitrary: s)
  case (Cons e es)
  have "upload_inv (fst (UploadButton s e))" if "\<not> (picks e \<and> uv_disabled (upload_shown s))"
    using that by (intro upload_inv_step [OF Cons.prems]) (auto simp: upload_shown_def)
  with Cons show ?case by simp
qed simp

text \<open>
  Uploads started with the upload button do not overlap: whatever the order of picks,
  progress reports and results, at most one is running, and the page shows a progress bar, the
  word Uploading and a disabled button exactly while it is.
\<close>

theorem upload_one_by_one:
  "let s = upload_run upload_init es; v = upload_shown s in
     length (ub_running s) \<le> 1 \<and> uv_disabled v = (ub_running s \<noteq> []) \<and>
     (uv_bar v = None \<longleftrightarrow> ub_running s = []) \<and> (uv_label v = js ''Upload'' \<longleftrightarrow> ub_running s = [])"
proof -
  have "upload_inv (upload_run upload_init es)"
    by (rule upload_inv_run) (simp add: upload_inv_def upload_init_def)
  then show ?thesis by (auto simp: upload_inv_def upload_shown_def Let_def js_def split: option.splits)
qed

text \<open>
  The file input itself stays usable during an upload: picking a second file there and finishing
  the first one takes the bar away while the second is still being sent.
\<close>

theorem upload_overlap:
  "let s = fst (UploadButton (fst (UploadButton (fst (UploadButton upload_init (Ub_pick (Some 0))))
             (Ub_pick (Some 1)))) (Ub_settled 0 (Inr a))) in
     ub_running s = [1] \<and> uv_bar (upload_shown s) = None \<and> uv_disabled (upload_shown s)"
  by (simp add: upload_init_def upload_shown_def Let_def)

text \<open>A wallet that could not be loaded is shown as a balance of zero.\<close>

theorem failed_wallet_shows_zero:
  "\<exists>v. wallet_view toLocaleString production (Some ws) False status None ledger f = Some v \<and> fst (wp_balance v) = 0"
  by (simp add: wallet_view_def wallet_balance_def Let_def)

end
