(* ===== verification/Navigation.thy ===== *)
theory Navigation
  imports AuthFlow
begin

text \<open>
  Where a user ends up: the session guards of both clients with the pages they guard
  (\<^verbatim>\<open>web/src/features/auth/auth-panel.tsx\<close>, \<^verbatim>\<open>auth-guard.tsx\<close>, the route groups under
  \<^verbatim>\<open>web/src/app\<close> and \<^verbatim>\<open>mobile/src/app\<close>), sign-out, and the cold start of the mobile app
  (\<^verbatim>\<open>use-bootstrap.ts\<close>, \<^verbatim>\<open>_layout.tsx\<close>). A guard names the page it sends the user to;
  following redirects is a loop that might not end, so it is a partial function here. What the
  guards of a client promise is the locale \<open>session_routes\<close>, interpreted for both.
\<close>

section \<open>The web pages\<close>

definition web_auth_pages :: "jstring list" where
  "web_auth_pages = map js [''/login'', ''/signup'', ''/reset'', ''/reset/confirm'', ''/verify-email'']"

definition web_app_pages :: "jstring list" where
  "web_app_pages = map js [''/'', ''/compose'', ''/calendar'', ''/media'', ''/channels'', ''/analytics'', ''/wallet'',
     ''/integrations'', ''/settings'', ''/oauth/callback'']"

text \<open>The effect of \<open>AuthPanel\<close>, which wraps every page of the auth group.\<close>

definition AuthPanel :: "user option \<Rightarrow> effect list" where
  "AuthPanel user = (if user \<noteq> None then [Navigate (js ''/'')] else [])"

definition web_guard :: "bool \<Rightarrow> user option \<Rightarrow> jstring \<Rightarrow> effect list" where
  "web_guard isPending user path =
     (if path \<in> set web_app_pages then snd (AuthGuard isPending user)
      else if path \<in> set web_auth_pages then AuthPanel user else [])"

definition web_redirect :: "user option \<Rightarrow> jstring \<Rightarrow> jstring option" where
  "web_redirect user path = (case web_guard False user path of Navigate q # _ \<Rightarrow> Some q | _ \<Rightarrow> None)"

section \<open>The mobile pages\<close>

definition mob_auth_routes :: "jstring list" where
  "mob_auth_routes = map js [''/login'', ''/signup'', ''/reset'']"

definition mob_tab_routes :: "jstring list" where
  "mob_tab_routes = map js [''/'', ''/compose'', ''/calendar'', ''/channels'', ''/more'', ''/more/analytics'',
     ''/more/members'', ''/more/wallet'', ''/more/settings'']"

definition MoreMenu_ITEMS :: "(jstring \<times> jstring) list" where
  "MoreMenu_ITEMS = map (\<lambda>(h, l). (js h, js l)) [(''/more/analytics'', ''Analytics''), (''/more/members'', ''Members''),
     (''/more/wallet'', ''Wallet''), (''/more/settings'', ''Settings'')]"

datatype auth_view = Auth_splash | Auth_redirect jstring | Auth_stack

definition AuthLayout :: "bool \<Rightarrow> user option \<Rightarrow> auth_view" where
  "AuthLayout isPending user =
     (if isPending then Auth_splash else if user \<noteq> None then Auth_redirect (js ''/'') else Auth_stack)"

datatype app_view = View_splash | View_redirect jstring | View_auth jstring | View_tabs jstring | View_unmatched

text \<open>Nothing but the splash until the bootstrap has settled; then the layout of the route's group.\<close>

definition SessionGate :: "bool \<Rightarrow> bool \<Rightarrow> user option \<Rightarrow> jstring \<Rightarrow> app_view" where
  "SessionGate ready isPending user path =
     (if \<not> ready then View_splash
      else if path \<in> set mob_auth_routes
      then (case AuthLayout isPending user of
              Auth_splash \<Rightarrow> View_splash | Auth_redirect q \<Rightarrow> View_redirect q | Auth_stack \<Rightarrow> View_auth path)
      else if path \<in> set mob_tab_routes
      then (case TabLayout isPending user of
              Tab_splash \<Rightarrow> View_splash | Tab_redirect q \<Rightarrow> View_redirect q | Tab_tabs \<Rightarrow> View_tabs path)
      else View_unmatched)"

definition mob_redirect :: "user option \<Rightarrow> jstring \<Rightarrow> jstring option" where
  "mob_redirect user path = (case SessionGate True False user path of View_redirect q \<Rightarrow> Some q | _ \<Rightarrow> None)"

section \<open>Following redirects\<close>

text \<open>The pages visited from a page on, in order; \<open>None\<close> when the redirects never end.\<close>

partial_function (option) follow :: "(jstring \<Rightarrow> jstring option) \<Rightarrow> jstring \<Rightarrow> jstring list option" where
  "follow redirect path =
     (case redirect path of
        None \<Rightarrow> Some [path]
      | Some q \<Rightarrow> Option.bind (follow redirect q) (\<lambda>ps. Some (path # ps)))"

section \<open>Sign-out and cold start\<close>

text \<open>\<open>signOut\<close> of the home and the settings screen: the call, then the login page; a rejected call is unhandled.\<close>

definition mob_signOut :: "'k secure_store \<Rightarrow> thrown + response \<Rightarrow> 'k session \<Rightarrow> effect list \<times> 'k session \<times> user option cache_op list" where
  "mob_signOut ss r s =
     (case mob_logout ss r s of
        (Inr _, s', ops) \<Rightarrow> ([Navigate (js ''/login'')], s', ops)
      | (Inl e, s', ops) \<Rightarrow> ([Unhandled e], s', ops))"

text \<open>\<open>useBootstrap\<close>: ready once the refresh has settled, unless the root was unmounted before.\<close>

record bootstrap =
  bs_ready :: bool
  bs_active :: bool

datatype bootstrap_event = Bs_mount | Bs_settled | Bs_unmount

fun useBootstrap :: "bootstrap \<Rightarrow> bootstrap_event \<Rightarrow> bootstrap \<times> bool" where
  "useBootstrap s Bs_mount = (s\<lparr>bs_active := True\<rparr>, True)"   \<comment> \<open>starts one refresh\<close>
| "useBootstrap s Bs_settled = (if bs_active s then s\<lparr>bs_ready := True\<rparr> else s, False)"
| "useBootstrap s Bs_unmount = (s\<lparr>bs_active := False\<rparr>, False)"

definition bootstrap_init :: bootstrap where
  "bootstrap_init = \<lparr>bs_ready = False, bs_active = False\<rparr>"

text \<open>
  \<open>useMe\<close> on the mobile client; \<open>decode\<close> is the generated client, which turns a response into
  its \<open>{ data, error, response }\<close>. A query that failed has no data.
\<close>

definition me_request :: "jstring \<Rightarrow> request" where
  "me_request origin = plain_get (origin @ js ''/api/v1/auth/me'')"

definition me_data :: "(response \<Rightarrow> user api_result) \<Rightarrow> thrown + response \<Rightarrow> user option" where
  "me_data decode r =
     (case r of
        Inl e \<Rightarrow> None
      | Inr res \<Rightarrow> (case q_decode mob_useMe (decode res) of Inl e \<Rightarrow> None | Inr u \<Rightarrow> u))"

text \<open>
  Opening the app at its home page: the refresh, then \<open>useMe\<close>, then the redirects. The result is
  what was on screen, one view after the other, with the user, the session and the world at the end.
\<close>

definition cold_start :: "jstring \<Rightarrow> 'k secure_store \<Rightarrow> 'w fetch \<Rightarrow> jstring \<Rightarrow> (response \<Rightarrow> user api_result) \<Rightarrow> 'k session \<Rightarrow> 'w
    \<Rightarrow> app_view list option \<times> 'k session \<times> 'w" where
  "cold_start origin ss fetch rid decode s w =
     (let home = js ''/'';
          b1 = fst (useBootstrap bootstrap_init Bs_mount);
          (v, s1, w1) = mobile_refreshSession origin ss fetch s w;
          b2 = fst (useBootstrap b1 Bs_settled);
          (r, s2, w2) = mobile_apiFetch origin ss fetch rid (me_request origin) s1 w1;
          user = me_data decode r
      in (map_option (\<lambda>visited. [SessionGate (bs_ready b1) True None home, SessionGate (bs_ready b2) True None home] @
              map (SessionGate (bs_ready b2) False user) visited)
            (follow (mob_redirect user) home),
          s2, w2))"

section \<open>The contract of the guards\<close>

locale session_routes =
  fixes redirect :: "user option \<Rightarrow> jstring \<Rightarrow> jstring option"
    and protected :: "jstring list"
    and guest :: "jstring list"
    and login :: jstring
    and home :: jstring
  assumes signed_out: "redirect None p = (if p \<in> set protected then Some login else None)"
    and signed_in: "redirect (Some u) p = (if p \<in> set guest then Some home else None)"
    and apart: "login \<in> set guest" "login \<notin> set protected" "home \<in> set protected" "home \<notin> set guest"
begin

lemma redirect_once: "redirect user p = Some q \<Longrightarrow> redirect user q = None"
  using apart by (cases user) (auto simp: signed_out signed_in split: if_splits)

lemma redirect_wf: "wf {(q, p). redirect user p = Some q}"
proof (rule wf_subset)
  show "{(q, p). redirect user p = Some q} \<subseteq> measure (\<lambda>p. if redirect user p = None then 0 else 1)"
    using redirect_once by auto
qed simp

lemma follow_stops: "redirect user p = None \<Longrightarrow> follow (redirect user) p = Some [p]"
  by (simp add: follow.simps)

lemma follow_ends:
  "follow (redirect user) p =
     Some (case user of
             None \<Rightarrow> if p \<in> set protected then [p, login] else [p]
           | Some u \<Rightarrow> if p \<in> set guest then [p, home] else [p])"
proof (cases "redirect user p")
  case None
  then show ?thesis
    using follow_stops by (auto simp: signed_out signed_in split: option.splits if_splits)
next
  case (Some q)
  then have "follow (redirect user) p = Some [p, q]"
    using follow_stops [OF redirect_once] by (subst follow.simps) simp
  with Some show ?thesis by (cases user) (auto simp: signed_out signed_in split: if_splits)
qed

end

lemmas web_pages = web_auth_pages_def web_app_pages_def js_def
lemmas mob_pages = mob_auth_routes_def mob_tab_routes_def js_def

interpretation web_routes: session_routes web_redirect web_app_pages web_auth_pages "js ''/login''" "js ''/''"
proof unfold_locales
  have "p \<notin> set web_app_pages" if "p \<in> set web_auth_pages" for p
    using that unfolding web_auth_pages_def by (auto simp: web_pages)
  then show "web_redirect (Some u) p = (if p \<in> set web_auth_pages then Some (js ''/'') else None)" for u p
    by (auto simp: web_redirect_def web_guard_def AuthGuard_def AuthPanel_def)
qed (auto simp: web_redirect_def web_guard_def AuthGuard_def AuthPanel_def web_pages)

interpretation mob_routes: session_routes mob_redirect mob_tab_routes mob_auth_routes "js ''/login''" "js ''/''"
proof unfold_locales
  have "p \<notin> set mob_tab_routes" if "p \<in> set mob_auth_routes" for p
    using that unfolding mob_auth_routes_def by (auto simp: mob_pages)
  then show "mob_redirect None p = (if p \<in> set mob_tab_routes then Some (js ''/login'') else None)"
    "mob_redirect (Some u) p = (if p \<in> set mob_auth_routes then Some (js ''/'') else None)" for u p
    by (auto simp: mob_redirect_def SessionGate_def AuthLayout_def TabLayout_def)
qed (auto simp: mob_pages)

section \<open>Properties\<close>

text \<open>
  C13. Redirects end: on both clients the guards' redirects form a well-founded relation, so
  following them from any page stops, after one redirect at most. A signed-out user stops on the
  login page when the page needs a session and stays otherwise; a signed-in user stops on the
  home page when the page is for guests and stays otherwise.
\<close>

theorem redirects_terminate:
  "wf {(q, p). web_redirect user p = Some q} \<and> wf {(q, p). mob_redirect user p = Some q} \<and>
   follow (web_redirect user) path =
     Some (case user of
             None \<Rightarrow> if path \<in> set web_app_pages then [path, js ''/login''] else [path]
           | Some u \<Rightarrow> if path \<in> set web_auth_pages then [path, js ''/''] else [path]) \<and>
   follow (mob_redirect user) path =
     Some (case user of
             None \<Rightarrow> if path \<in> set mob_tab_routes then [path, js ''/login''] else [path]
           | Some u \<Rightarrow> if path \<in> set mob_auth_routes then [path, js ''/''] else [path])"
  by (intro conjI web_routes.redirect_wf mob_routes.redirect_wf web_routes.follow_ends mob_routes.follow_ends)

text \<open>
  The links of account emails do not work for a signed-in user: the pages that verify an
  email address and that set a new password are pages of the auth group, whose panel sends every
  signed-in user to the home page, so that neither the outcome of the verification nor the form
  for the new password stays on screen.
\<close>

theorem emailed_links_redirected:
  "list_all (\<lambda>path. web_guard isPending (Some u) path = [Navigate (js ''/'')] \<and>
       follow (web_redirect (Some u)) path = Some [path, js ''/''])
     [js ''/verify-email'', js ''/reset/confirm'']"
  unfolding web_routes.follow_ends by (simp add: web_guard_def AuthPanel_def web_pages)

text \<open>What a cold start shows, by the user \<open>useMe\<close> finds: two splashes, then the tabs or the login page.\<close>

lemma cold_start_views:
  "cold_start origin ss fetch rid decode s w =
     (let (v, s1, w1) = mobile_refreshSession origin ss fetch s w;
          (r, s2, w2) = mobile_apiFetch origin ss fetch rid (me_request origin) s1 w1
      in (Some ([View_splash, View_splash] @
                (case me_data decode r of
                   None \<Rightarrow> [View_redirect (js ''/login''), View_auth (js ''/login'')]
                 | Some u \<Rightarrow> [View_tabs (js ''/'')])), s2, w2))"
proof -
  have "js ''/'' \<in> set mob_tab_routes" "js ''/'' \<notin> set mob_auth_routes" "js ''/login'' \<in> set mob_auth_routes"
    by (simp_all add: mob_pages)
  then have "map (SessionGate True False user) (the (follow (mob_redirect user) (js ''/''))) =
      (case user of None \<Rightarrow> [View_redirect (js ''/login''), View_auth (js ''/login'')] | Some u \<Rightarrow> [View_tabs (js ''/'')])"
    "SessionGate True True None (js ''/'') = View_splash" for user
    unfolding mob_routes.follow_ends
    by (simp_all add: SessionGate_def AuthLayout_def TabLayout_def split: option.split)
  then show ?thesis
    unfolding mob_routes.follow_ends cold_start_def
    by (auto simp: bootstrap_init_def SessionGate_def Let_def split: prod.splits option.splits)
qed

text \<open>
  C14. A signed-in user opens the app signed in: with a refresh token in the Keystore that the
  server exchanges, and a server that then answers the request for the account made with the new
  access token, a cold start shows the splash and then the home tab, and never the login page.
\<close>

theorem cold_start_restores:
  assumes stored: "getRefreshToken ss s = Some rt" "truthy rt"
    and refreshed: "fetch (mobile_refresh_request origin rt) w = (Inr rr, w1)" "rs_ok rr"
      "body_token ''access_token'' (rs_json rr) = Some acc" "truthy acc"
    and me: "fetch (set_header ''X-Request-Id'' rid (with_bearer (Some acc) (me_request origin))) w1 = (Inr mr, w2)" "rs_ok mr"
    and decoded: "ar_status (decode mr) = rs_status mr" "ar_data (decode mr) = Some (Some u)"
  shows "\<exists>s2. cold_start origin ss fetch rid decode s w = (Some [View_splash, View_splash, View_tabs (js ''/'')], s2, w2) \<and>
    getAccessToken s2 = Some acc"
proof -
  let ?s1 = "saveSession ss acc (body_token ''refresh_token'' (rs_json rr)) s"
  have "mobile_refreshSession origin ss fetch s w = (True, ?s1, w1)"
    using stored refreshed by (intro mobile_refresh_success)
  moreover have "mobile_apiFetch origin ss fetch rid (me_request origin) ?s1 w1 = (Inr mr, ?s1, w2)"
    using me by (simp add: mobile_apiFetch_def getAccessToken_def mobile_finish_def rs_ok_def)
  moreover have "me_data decode (Inr mr) = Some u"
    using me(2) decoded by (simp add: me_data_def mob_useMe_def when_data_def status_ok_def rs_ok_def)
  ultimately show ?thesis by (simp add: cold_start_views getAccessToken_def)
qed

text \<open>A server that hands out tokens and knows the account that goes with them.\<close>

definition sample_user :: user where
  "sample_user = \<lparr>us_id = js ''u1'', us_email = js ''a@b.c'', us_email_verified = True, us_status = js ''active'', us_created_at = []\<rparr>"

definition sample_decode :: "response \<Rightarrow> user api_result" where
  "sample_decode res = \<lparr>ar_data = (if rs_ok res then Some (Some sample_user) else None), ar_error = None, ar_status = rs_status res\<rparr>"

theorem cold_start_restores_witness:
  "\<exists>s2. cold_start (js ''http://h'') map_store bearer_server (js ''r'') sample_decode stale_session 0 =
     (Some [View_splash, View_splash, View_tabs (js ''/'')], s2, 2) \<and> getAccessToken s2 = Some (js ''a2'')"
proof -
  let ?me = "set_header ''X-Request-Id'' (js ''r'') (with_bearer (Some (js ''a2'')) (me_request (js ''http://h'')))"
  obtain rr where rr: "bearer_server (mobile_refresh_request (js ''http://h'') (js ''r1'')) 0 = (Inr rr, 1)" "rs_ok rr"
      "body_token ''access_token'' (rs_json rr) = Some (js ''a2'')"
  proof -
    have "str_includes (rq_url (mobile_refresh_request (js ''http://h'') (js ''r1''))) (js ''/auth/refresh'')" by code_simp
    then show thesis using that by (auto simp: bearer_server_def rs_ok_def body_token_def obj_get_def js_def)
  qed
  have "\<not> str_includes (js ''http://h/api/v1/auth/me'') (js ''/auth/refresh'')" by code_simp
  moreover have "rq_url ?me = js ''http://h/api/v1/auth/me''" "header ?me ''Authorization'' = Some (js ''Bearer a2'')"
    by code_simp+
  ultimately obtain mr where mr: "bearer_server ?me 1 = (Inr mr, 2)" "rs_ok mr"
    by (simp add: bearer_server_def rs_ok_def)
  have "getRefreshToken map_store stale_session = Some (js ''r1'')" "truthy (js ''r1'')" "truthy (js ''a2'')"
    by (simp_all add: getRefreshToken_def map_store_def stale_session_def)
  then show ?thesis
    using cold_start_restores [of map_store stale_session "js ''r1''" bearer_server "js ''http://h''" 0 rr 1 "js ''a2''" "js ''r''" mr 2
        sample_decode sample_user] rr mr by (simp add: sample_decode_def)
qed

text \<open>
  Without a connection a signed-in user is sent to the login page: when every request of a
  cold start is rejected, the app shows the login page, although the tokens are untouched in the
  Keystore. A failed request for the account is not told apart from a missing session.
\<close>

theorem cold_start_offline:
  assumes "\<And>q w. \<exists>m w'. fetch q w = (Inl m, w')"
  shows "\<exists>w'. cold_start origin ss fetch rid decode s w =
    (Some [View_splash, View_splash, View_redirect (js ''/login''), View_auth (js ''/login'')], s, w')"
proof -
  have "\<exists>w1. mobile_refreshSession origin ss fetch s w = (False, s, w1)"
    using assms [of "mobile_refresh_request origin (nullish (getRefreshToken ss s) [])" w]
    by (auto simp: mobile_refreshSession_def)
  then obtain w1 where "mobile_refreshSession origin ss fetch s w = (False, s, w1)" ..
  moreover obtain e w2 where "mobile_apiFetch origin ss fetch rid (me_request origin) s w1 = (Inl e, s, w2)"
    using assms [of "set_header ''X-Request-Id'' rid (with_bearer (getAccessToken s) (me_request origin))" w1]
    by (auto simp: mobile_apiFetch_def)
  ultimately show ?thesis by (auto simp: cold_start_views me_data_def)
qed

theorem cold_start_offline_witness:
  "\<exists>w'. cold_start (js ''http://h'') map_store (\<lambda>q w. (Inl (js ''Network request failed''), Suc w)) (js ''r'') sample_decode stale_session (0 :: nat) =
     (Some [View_splash, View_splash, View_redirect (js ''/login''), View_auth (js ''/login'')], stale_session, w')"
  by (rule cold_start_offline) blast

text \<open>
  Signing out leaves the app: once the server has answered, whatever it says, the tokens are
  gone from memory and the Keystore, the cached account is empty, and the user ends on the login
  page (provided the Keystore can delete); a call that never reached the server changes nothing.
\<close>

theorem sign_out_leaves:
  assumes "keystore_laws ss" and "fst (ss_delete ss REFRESH_KEY (se_keys s))"
  shows "\<exists>s'. mob_signOut ss (Inr res) s = ([Navigate (js ''/login'')], s', [SetData authKeys_me None, RemoveAll]) \<and>
    getAccessToken s' = None \<and> getRefreshToken ss s' = None \<and>
    follow (mob_redirect None) (js ''/login'') = Some [js ''/login''] \<and>
    mob_signOut ss (Inl e) s = ([Unhandled e], s, [])"
proof -
  have "getAccessToken (clearSession ss s) = None"
    by (simp add: clearSession_def setRefreshToken_def setAccessToken_def getAccessToken_def)
  moreover have "getRefreshToken ss (clearSession ss s) = None"
    using assms by (simp add: clearSession_def setRefreshToken_def setAccessToken_def getRefreshToken_def keystore_laws_def)
  ultimately show ?thesis
    unfolding mob_routes.follow_ends by (simp add: mob_signOut_def mob_logout_def mob_pages)
qed

theorem sign_out_leaves_witness:
  "\<exists>s'. mob_signOut map_store (Inr \<lparr>rs_status = 500, rs_json = None, rs_request_id = None\<rparr>) stale_session =
     ([Navigate (js ''/login'')], s', [SetData authKeys_me None, RemoveAll]) \<and> getRefreshToken map_store s' = None"
  using sign_out_leaves [of map_store stale_session "\<lparr>rs_status = 500, rs_json = None, rs_request_id = None\<rparr>" "JsError []"]
    map_store_laws by (auto simp: map_store_def)

end
