(* ===== verification/MobileScreens.thy ===== *)
theory MobileScreens
  imports AuthFlow Members Insights
begin

text \<open>
  The screens of the mobile app around the composer: channels
  (\<^verbatim>\<open>mobile/src/app/(tabs)/channels.tsx\<close>), calendar rows (\<^verbatim>\<open>calendar.tsx\<close>), members with
  their channel access (\<^verbatim>\<open>more/members.tsx\<close>, \<^verbatim>\<open>features/members/member-channel-access.tsx\<close>),
  analytics, home and settings. Native alerts are the confirmation of a destructive call here;
  their rows keep the contract \<open>confirmed_action\<close> of the web dialogs. The access editor is
  shown to be the web one.
\<close>

section \<open>Alerts\<close>

text \<open>
  A row with \<open>Alert.alert\<close>: pressing its button opens the alert unless the call is running, both
  buttons of the alert close it, and the destructive one starts the call with \<open>mutate\<close>, whose
  failure is not shown. The alert is modal, so a call cannot start while it is open.
\<close>

fun alert_confirm :: "remote \<Rightarrow> confirm_state \<Rightarrow> confirm_event \<Rightarrow> confirm_state \<times> remote list" where
  "alert_confirm call s (Open_change next) =
     (if next then (if cf_pending s then s else s\<lparr>cf_open := True\<rparr>) else s\<lparr>cf_open := False\<rparr>, [])"
| "alert_confirm call s Confirm_click =
     (if confirm_enabled s then (s\<lparr>cf_open := False, cf_pending := True\<rparr>, [call]) else (s, []))"
| "alert_confirm call s (Settled_with r) = (s\<lparr>cf_pending := False\<rparr>, [])"

definition mob_onDisconnect :: "jstring \<Rightarrow> channel \<Rightarrow> confirm_state \<Rightarrow> confirm_event \<Rightarrow> confirm_state \<times> remote list" where
  "mob_onDisconnect ws ch = alert_confirm (m_call (mob_useDisconnectChannel ws) (ch_id ch))"

definition mob_onCancelJob :: "jstring \<Rightarrow> job \<Rightarrow> confirm_state \<Rightarrow> confirm_event \<Rightarrow> confirm_state \<times> remote list" where
  "mob_onCancelJob ws j s e =
     (if jb_status j = Scheduled \<or> (\<exists>r. e = Settled_with r)
      then alert_confirm (m_call (mob_useCancelJob ws) (jb_id j)) s e else (s, []))"

section \<open>The channels screen\<close>

fun mob_STATUS :: "channel_status \<Rightarrow> jstring \<times> tone" where
  "mob_STATUS Active = (js ''Active'', Success)"
| "mob_STATUS Expired = (js ''Expired'', Warning)"
| "mob_STATUS Revoked = (js ''Revoked'', Danger)"

record connected_row =
  cr_name :: jstring
  cr_line :: jstring
  cr_pill :: "jstring \<times> tone"
  cr_alert :: jstring

definition ConnectedRow :: "channel \<Rightarrow> connected_row" where
  "ConnectedRow ch =
     \<lparr>cr_name = ch_display_name ch,
      cr_line = js ''@'' @ ch_handle ch @ [0x20, 0xB7, 0x20] @ pi_label (mobile_platformInfo (ch_platform ch)),
      cr_pill = mob_STATUS (ch_status ch),
      cr_alert = js ''Disconnect @'' @ ch_handle ch @ js ''?''\<rparr>"

text \<open>
  A platform's row: a press runs \<open>useConnectFlow\<close>, whose two calls make the button busy; it is not
  busy while the browser is open between them. Only an error is shown.
\<close>

record connect_row =
  cn_error :: "json option"
  cn_connecting :: bool
  cn_completing :: bool

definition flow_pending :: "connect_row \<Rightarrow> bool" where
  "flow_pending s = (cn_connecting s \<or> cn_completing s)"

datatype connect_row_event = Cn_press | Cn_browser | Cn_exchange | Cn_result connect_result

fun ConnectRow :: "connect_row \<Rightarrow> connect_row_event \<Rightarrow> connect_row \<times> bool" where
  "ConnectRow s Cn_press =
     (if flow_pending s then (s, False) else (s\<lparr>cn_error := None, cn_connecting := True\<rparr>, True))"
| "ConnectRow s Cn_browser = (s\<lparr>cn_connecting := False\<rparr>, False)"
| "ConnectRow s Cn_exchange = (s\<lparr>cn_completing := True\<rparr>, False)"
| "ConnectRow s (Cn_result r) =
     (let ended = s\<lparr>cn_connecting := False, cn_completing := False\<rparr>
      in (case r of Connect_error m \<Rightarrow> ended\<lparr>cn_error := Some m\<rparr> | _ \<Rightarrow> ended, False))"

datatype platform_row = Manual_row jstring | Oauth_row jstring bool

definition connect_label :: "bool \<Rightarrow> jstring" where
  "connect_label has_one = (if has_one then js ''Add another'' else js ''Connect'')"

record channels_screen =
  cs_spinner :: bool
  cs_failed :: bool
  cs_none :: bool
  cs_rows :: "connected_row list"
  cs_platforms :: "platform_row list"

definition ChannelsScreen :: "jstring option \<Rightarrow> bool \<Rightarrow> bool \<Rightarrow> channel list option \<Rightarrow> channels_screen" where
  "ChannelsScreen active isPending isError channels =
     (let connectedPlatforms = map ch_platform (nullish channels []) in
      \<lparr>cs_spinner = (active = None \<or> isPending), cs_failed = isError, cs_none = (channels = Some []),
       cs_rows = (if active = None then [] else map ConnectedRow (nullish channels [])),
       cs_platforms = (if active = None then []
         else map (\<lambda>p. if pi_manual p then Manual_row (pi_key p) else Oauth_row (pi_key p) (pi_key p \<in> set connectedPlatforms))
                mobile_PLATFORMS)\<rparr>)"

section \<open>Channel access of a member\<close>

definition MemberChannelAccess :: "bool \<Rightarrow> bool \<times> jstring" where
  "MemberChannelAccess was_open =
     (let now_open = \<not> was_open in (now_open, if now_open then js ''Hide channel access'' else js ''Channel access''))"

definition AccessLoader :: "bool \<Rightarrow> channel_access option \<Rightarrow> access_editor option" where
  "AccessLoader isPending access = (if isPending then None else map_option access_init access)"

definition mob_access_toggle :: "jstring \<Rightarrow> jstring list \<Rightarrow> jstring list" where
  "mob_access_toggle i cur = (if i \<in> set cur then filter (\<lambda>x. x \<noteq> i) cur else cur @ [i])"

fun mob_Editor :: "(bool \<times> jstring list \<Rightarrow> remote) \<Rightarrow> channel list \<Rightarrow> access_editor \<Rightarrow> access_event \<Rightarrow> access_editor \<times> remote list" where
  "mob_Editor call channels s (Ae_restrict v) = (s\<lparr>ae_restricted := v, ae_saved := False\<rparr>, [])"
| "mob_Editor call channels s (Ae_toggle i) =
     (if ae_restricted s \<and> (\<exists>c\<in>set channels. ch_id c = i)
      then s\<lparr>ae_saved := False, ae_selected := mob_access_toggle i (ae_selected s)\<rparr> else s, [])"
| "mob_Editor call channels s Ae_save =
     (if ae_pending s then (s, [])
      else (s\<lparr>ae_error := None, ae_saved := False, ae_pending := True\<rparr>,
            [call (ae_restricted s, if ae_restricted s then ae_selected s else [])]))"
| "mob_Editor call channels s (Ae_settled r) =
     (if \<not> ae_pending s then (s, [])
      else (case r of
              Inl e \<Rightarrow> s\<lparr>ae_error := Some (thrown_message e), ae_pending := False\<rparr>
            | Inr _ \<Rightarrow> s\<lparr>ae_saved := True, ae_pending := False\<rparr>, []))"

datatype access_body = Access_everywhere | Access_no_channels | Access_boxes "(jstring \<times> jstring \<times> jstring \<times> bool) list"

definition access_body_shown :: "channel list \<Rightarrow> access_editor \<Rightarrow> access_body" where
  "access_body_shown channels s =
     (if \<not> ae_restricted s then Access_everywhere
      else if channels = [] then Access_no_channels
      else Access_boxes (map (\<lambda>c. (ch_id c, js ''@'' @ ch_handle c, ch_platform c, ch_id c \<in> set (ae_selected s))) channels))"

section \<open>Members\<close>

fun roleTone :: "role \<Rightarrow> tone" where
  "roleTone Owner = Accent"
| "roleTone Admin = Success"
| "roleTone _ = Neutral"

record member_row =
  mr_name :: jstring
  mr_count :: jstring
  mr_tone :: tone
  mr_access :: bool

definition mob_MemberRow :: "bool \<Rightarrow> bool \<Rightarrow> member \<Rightarrow> member_row" where
  "mob_MemberRow isYou canManage m =
     \<lparr>mr_name = take 8 (mb_user_id m) @ (if isYou then js '' (you)'' else []),
      mr_count = show_nat (length (mb_permissions m)) @ js '' capabilities'',
      mr_tone = roleTone (mb_role m),
      mr_access = mob_access_shown canManage m\<rparr>"

record members_screen =
  ms_spinner :: bool
  ms_failed :: bool
  ms_rows :: "member_row list"
  ms_form :: bool
  ms_feed :: bool

definition members_shown :: "jstring option \<Rightarrow> bool \<Rightarrow> bool \<Rightarrow> member list option \<Rightarrow> user option \<Rightarrow> members_screen" where
  "members_shown active isPending isError members me =
     (let canManage = mob_canManage members me in
      \<lparr>ms_spinner = (active = None \<or> isPending), ms_failed = isError,
       ms_rows = map (\<lambda>m. mob_MemberRow (Some (mb_user_id m) = map_option us_id me) canManage m) (nullish members []),
       ms_form = canManage, ms_feed = (canManage \<and> active \<noteq> None)\<rparr>)"

section \<open>Calendar, analytics, home and settings\<close>

definition mob_job_line :: "channel list \<Rightarrow> job \<Rightarrow> jstring" where
  "mob_job_line channels j = js ''@'' @ handleFor channels (jb_channel_id j) @
     (if jb_status j = Failed \<and> truthy_opt (jb_last_error j) then js '' - '' @ nullish (jb_last_error j) [] else [])"

record calendar_part =
  cp_spinner :: bool
  cp_failed :: bool
  cp_none :: bool
  cp_days :: "(jstring \<times> (jstring \<times> jstring \<times> tone \<times> bool) list) list"

definition CalendarScreen :: "(jstring \<Rightarrow> jstring) \<Rightarrow> (job list \<Rightarrow> job list) \<Rightarrow> jstring option \<Rightarrow> bool \<Rightarrow> bool
    \<Rightarrow> job list option \<Rightarrow> channel list \<Rightarrow> calendar_part" where
  "CalendarScreen dayKey sort_by_time active isPending isError jobs channels =
     \<lparr>cp_spinner = (active = None \<or> isPending), cp_failed = isError, cp_none = (jobs = Some []),
      cp_days = map (\<lambda>(day, dayJobs). (day, map (\<lambda>j. (jb_id j, mob_job_line channels j, JOB_TONE (jb_status j), jb_status j = Scheduled)) dayJobs))
                  (mob_calendar dayKey sort_by_time jobs)\<rparr>"

record analytics_row =
  an_handle :: jstring
  an_excerpt :: "jstring option"
  an_metrics :: "(jstring \<times> int) list"

record analytics_part =
  ap_spinner :: bool
  ap_empty :: "bool option"   \<comment> \<open>no rows; with whether anything was published\<close>
  ap_rows :: "analytics_row list"

definition AnalyticsScreen :: "(int obj \<Rightarrow> int obj) \<Rightarrow> jstring option \<Rightarrow> bool \<Rightarrow> post_metrics list option \<Rightarrow> channel list
    \<Rightarrow> post list \<Rightarrow> analytics_part" where
  "AnalyticsScreen by_name active isPending rows channels posts =
     \<lparr>ap_spinner = (active = None \<or> isPending),
      ap_empty = (if rows = Some [] then Some (list_ex (\<lambda>p. po_status p = js ''published'') posts) else None),
      ap_rows = map (\<lambda>r. \<lparr>an_handle = js ''@'' @ handleFor channels (pm_channel_id r),
           an_excerpt = (case mob_excerptFor posts (pm_post_id r) of Some t \<Rightarrow> if truthy t then Some t else None | None \<Rightarrow> None),
           an_metrics = by_name (pm_metrics r)\<rparr>) (nullish rows [])\<rparr>"

text \<open>The account card of home and settings: the pill, and the note to verify the address.\<close>

definition account_pill :: "user option \<Rightarrow> jstring \<times> tone" where
  "account_pill user =
     (case user of
        Some u \<Rightarrow> if us_email_verified u then (js ''Verified'', Success) else (js ''Unverified'', Warning)
      | None \<Rightarrow> (js ''Unverified'', Warning))"

definition HomeScreen :: "user option \<Rightarrow> jstring \<times> (jstring \<times> tone) \<times> bool" where
  "HomeScreen user =
     (case user of None \<Rightarrow> [] | Some u \<Rightarrow> us_email u, account_pill user,
      \<not> (case user of None \<Rightarrow> False | Some u \<Rightarrow> us_email_verified u))"

section \<open>Lemmas\<close>

lemma alert_confirm_laws:
  "snd (alert_confirm call s e) = (if e = Confirm_click \<and> confirm_enabled s then [call] else [])"
  "cf_pending (fst (alert_confirm call s e)) =
     (if snd (alert_confirm call s e) \<noteq> [] then True else cf_pending s \<and> \<not> (\<exists>r. e = Settled_with r))"
  by (cases e; simp add: confirm_enabled_def)+

lemma alert_confirm_silent: "cf_error (fst (alert_confirm call s e)) = cf_error s"
  by (cases e) auto

interpretation mob_disconnect: confirmed_action "mob_onDisconnect ws ch" "m_call (mob_useDisconnectChannel ws) (ch_id ch)" True
  for ws ch
  by unfold_locales (simp_all only: mob_onDisconnect_def alert_confirm_laws simp_thms)

interpretation mob_cancel: confirmed_action "mob_onCancelJob ws j" "m_call (mob_useCancelJob ws) (jb_id j)" "jb_status j = Scheduled"
  for ws j
proof unfold_locales
  fix s e
  show "snd (mob_onCancelJob ws j s e) =
      (if e = Confirm_click \<and> confirm_enabled s \<and> jb_status j = Scheduled then [m_call (mob_useCancelJob ws) (jb_id j)] else [])"
    by (auto simp: mob_onCancelJob_def alert_confirm_laws)
  show "cf_pending (fst (mob_onCancelJob ws j s e)) =
      (if snd (mob_onCancelJob ws j s e) \<noteq> [] then True else cf_pending s \<and> \<not> (\<exists>r. e = Settled_with r))"
    unfolding mob_onCancelJob_def by (auto simp: alert_confirm_laws)
qed

lemma runs_silent: "cf_error (fst (runs (mob_onDisconnect ws ch) s es)) = cf_error s"
  by (induction es arbitrary: s) (auto simp: case_prod_beta mob_onDisconnect_def alert_confirm_silent)

lemma mob_Editor_step: "mob_Editor call channels s e = ChannelAccessEditor call channels s e"
  by (cases e) (auto simp: toggle_access_def toggle_def mob_access_toggle_def access_payload_def image_iff)

lemma mob_Editor_runs: "runs (mob_Editor call channels) s es = runs (ChannelAccessEditor call channels) s es"
  by (induction es arbitrary: s) (simp_all add: mob_Editor_step del: mob_Editor.simps)

section \<open>Properties\<close>

text \<open>
  Alerts guard destructive calls on mobile as the dialogs do on the web: over any sequence of
  presses and answers the channel row and the job row send nothing but their own call on their own
  item, at most one per confirmation, never two in flight, and a job that is not scheduled is never
  canceled; the call is the one the web sends. Unlike the web, a failed disconnection leaves no
  message on screen.
\<close>

theorem mobile_alerts_confirm:
  "set (snd (runs (mob_onDisconnect ws ch) confirm_init es)) \<subseteq> {m_call (useDisconnectChannel ws) (ch_id ch)} \<and>
   length (snd (runs (mob_onDisconnect ws ch) confirm_init es)) \<le> min (confirmations es) (1 + settlements es) \<and>
   set (snd (runs (mob_onCancelJob ws j) confirm_init es)) \<subseteq> {m_call (useCancelJob ws) (jb_id j)} \<and>
   length (snd (runs (mob_onCancelJob ws j) confirm_init es)) \<le>
     (if jb_status j = Scheduled then min (confirmations es) (1 + settlements es) else 0) \<and>
   cf_error (fst (runs (mob_onDisconnect ws ch) confirm_init es)) = None"
proof -
  have same: "m_call (mob_useDisconnectChannel ws) i = m_call (useDisconnectChannel ws) i"
    "m_call (mob_useCancelJob ws) i = m_call (useCancelJob ws) i" for i
    by (simp_all add: mob_mutation_defs mutation_hook_defs)
  note calls = mob_disconnect.runs_calls [of ws ch confirm_init es] mob_cancel.runs_calls [of ws j confirm_init es]
  note bounds = mob_disconnect.runs_in_flight [of ws ch confirm_init es] mob_cancel.runs_in_flight [of ws j confirm_init es]
    mob_disconnect.runs_confirmed [of ws ch confirm_init es] mob_cancel.runs_confirmed [of ws j confirm_init es]
  have "length (snd (runs (mob_onDisconnect ws ch) confirm_init es)) \<le> min (confirmations es) (1 + settlements es)"
    "length (snd (runs (mob_onCancelJob ws j) confirm_init es)) \<le>
      (if jb_status j = Scheduled then min (confirmations es) (1 + settlements es) else 0)"
    using bounds by (simp_all add: confirm_init_def split: if_splits)
  with calls show ?thesis unfolding same by (simp add: runs_silent confirm_init_def)
qed

text \<open>A mobile request is a web request at the API's origin, but for the headers.\<close>

definition same_put :: "jstring \<Rightarrow> remote \<Rightarrow> remote \<Rightarrow> bool" where
  "same_put origin a b =
     (case (a, b) of
        (Direct p, Direct q) \<Rightarrow> rq_method p = rq_method q \<and> rq_url p = origin @ rq_url q \<and> rq_body p = rq_body q
      | _ \<Rightarrow> False)"

lemma access_same_put:
  "same_put origin (m_call (mob_useSetMemberChannels origin ws u) p) (m_call (useSetMemberChannels csrf ws u) p)"
  by (cases p) (simp add: same_put_def mob_useSetMemberChannels_def useSetMemberChannels_def with_csrf_def set_header_def
      split: option.split)

lemma editor_calls:
  assumes "\<And>p. R (call1 p) (call2 p)"
  shows "fst (runs (ChannelAccessEditor call1 channels) s es) = fst (runs (ChannelAccessEditor call2 channels) s es) \<and>
    list_all2 R (snd (runs (ChannelAccessEditor call1 channels) s es)) (snd (runs (ChannelAccessEditor call2 channels) s es))"
proof (induction es arbitrary: s)
  case (Cons e es)
  have "fst (ChannelAccessEditor call1 channels s e) = fst (ChannelAccessEditor call2 channels s e)"
    "list_all2 R (snd (ChannelAccessEditor call1 channels s e)) (snd (ChannelAccessEditor call2 channels s e))"
    using assms by (cases e; simp)+
  with Cons.IH [of "fst (ChannelAccessEditor call2 channels s e)"] show ?case
    by (auto simp: case_prod_beta intro: list_all2_appendI)
qed simp

text \<open>
  The channel access editors of the two clients are the same: from the same access list, any
  sequence of switches, boxes, saves and answers leaves both editors with the same restriction,
  selection, error and Saved mark, and both send the same payloads with the same method to the
  same address; only the headers differ, the web request carrying the CSRF token.
\<close>

theorem access_editors_agree:
  "let m = runs (mob_Editor (m_call (mob_useSetMemberChannels origin ws u)) channels) (access_init a) es;
       w = runs (ChannelAccessEditor (m_call (useSetMemberChannels csrf ws u)) channels) (access_init a) es
   in fst m = fst w \<and> list_all2 (same_put origin) (snd m) (snd w)"
  using editor_calls [of "same_put origin" "m_call (mob_useSetMemberChannels origin ws u)" "m_call (useSetMemberChannels csrf ws u)",
      OF access_same_put] by (simp add: mob_Editor_runs Let_def)

text \<open>
  The mobile screens write two at-signs before a stored X handle: the backend stores X
  handles with their at-sign, and where the web puts exactly one in front, the channel row, its
  alert, the calendar row and the access editor put one more.
\<close>

theorem mobile_double_at:
  assumes "ch_handle ch = js ''@'' @ name"
  shows "take 2 (cr_line (ConnectedRow ch)) = js ''@@'' \<and>
    cr_alert (ConnectedRow ch) = js ''Disconnect @@'' @ name @ js ''?'' \<and>
    (jb_channel_id j = ch_id ch \<longrightarrow> take 2 (mob_job_line (ch # channels) j) = js ''@@'') \<and>
    access_body_shown [ch] (access_init \<lparr>ca_restricted = True, ca_allowed = []\<rparr>) =
      Access_boxes [(ch_id ch, js ''@@'' @ name, ch_platform ch, False)] \<and>
    atHandle (ch_handle ch) = js ''@'' @ name"
  using assms by (auto simp: ConnectedRow_def mob_job_line_def handleFor_def access_body_shown_def access_init_def js_set_def
      atHandle_def js_def starts_with_def)

theorem mobile_double_at_witness:
  "cr_alert (ConnectedRow (sample_account\<lparr>ch_handle := js ''@postal''\<rparr>)) = js ''Disconnect @@postal?''"
proof -
  have "ch_handle (sample_account\<lparr>ch_handle := js ''@postal''\<rparr>) = js ''@'' @ js ''postal''" by (simp add: js_def)
  from mobile_double_at [OF this, THEN conjunct2, THEN conjunct1] have
    "cr_alert (ConnectedRow (sample_account\<lparr>ch_handle := js ''@postal''\<rparr>)) = js ''Disconnect @@'' @ js ''postal'' @ js ''?''"
    .
  then show ?thesis by (simp add: js_def)
qed

end
