(* ===== verification/Primitives.thy ===== *)
theory Primitives
  imports Confirm
begin

text \<open>
  The building blocks of both user interfaces that carry behaviour: the labelled input with its
  hint, error and password toggle (\<^verbatim>\<open>web/src/ui/primitives/form-field.tsx\<close>,
  \<^verbatim>\<open>mobile/src/ui/form-field.tsx\<close>), the mobile button and status badge, the colour theme
  (\<^verbatim>\<open>theme-toggle.tsx\<close>, \<^verbatim>\<open>stores/theme.ts\<close>, \<^verbatim>\<open>use-palette.ts\<close>, \<^verbatim>\<open>tokens.ts\<close>) and the
  settings page of the web client with its account card.
\<close>

section \<open>Colours\<close>

record palette =
  pl_surface :: jstring
  pl_elevated :: jstring
  pl_fg :: jstring
  pl_fgMuted :: jstring
  pl_fgSubtle :: jstring
  pl_accent :: jstring
  pl_accentSoft :: jstring
  pl_accentFg :: jstring
  pl_danger :: jstring
  pl_success :: jstring
  pl_warning :: jstring
  pl_separator :: jstring
  pl_vibrancyPanel :: jstring
  pl_vibrancyDock :: jstring

datatype scheme = Light | Dark

fun palettes :: "scheme \<Rightarrow> palette" where
  "palettes Light =
     \<lparr>pl_surface = js ''#f3f5f9'', pl_elevated = js ''#ffffff'', pl_fg = js ''#1e2433'', pl_fgMuted = js ''#5c6577'',
      pl_fgSubtle = js ''#828b9d'', pl_accent = js ''#2f6bef'', pl_accentSoft = js ''#5e8df5'', pl_accentFg = js ''#ffffff'',
      pl_danger = js ''#d93a34'', pl_success = js ''#1ba35d'', pl_warning = js ''#bb7d18'', pl_separator = js ''#e0e3ea'',
      pl_vibrancyPanel = js ''rgba(255,255,255,0.86)'', pl_vibrancyDock = js ''rgba(252,253,255,0.78)''\<rparr>"
| "palettes Dark =
     \<lparr>pl_surface = js ''#15171f'', pl_elevated = js ''#222633'', pl_fg = js ''#e8eaf0'', pl_fgMuted = js ''#a3a9b9'',
      pl_fgSubtle = js ''#747b8d'', pl_accent = js ''#5d87ff'', pl_accentSoft = js ''#4a72e8'', pl_accentFg = js ''#ffffff'',
      pl_danger = js ''#f05547'', pl_success = js ''#36c97c'', pl_warning = js ''#e8a23d'',
      pl_separator = js ''rgba(255,255,255,0.13)'',
      pl_vibrancyPanel = js ''rgba(34,38,51,0.85)'', pl_vibrancyDock = js ''rgba(34,38,51,0.78)''\<rparr>"

datatype ThemePreference = Pref_system | Pref_light | Pref_dark

definition theme_init :: ThemePreference where
  "theme_init = Pref_system"

text \<open>The mobile scheme; the system's may be unknown.\<close>

definition usePalette :: "ThemePreference \<Rightarrow> scheme option \<Rightarrow> palette \<times> scheme" where
  "usePalette preference system =
     (let sch = (case preference of
                   Pref_system \<Rightarrow> if system = Some Dark then Dark else Light
                 | Pref_light \<Rightarrow> Light
                 | Pref_dark \<Rightarrow> Dark)
      in (palettes sch, sch))"

definition THEMES :: "(ThemePreference \<times> jstring) list" where
  "THEMES = [(Pref_system, js ''System''), (Pref_light, js ''Light''), (Pref_dark, js ''Dark'')]"

text \<open>The web toggle; \<open>resolvedTheme\<close> is what the theme library shows for the stored choice.\<close>

definition ThemeToggle :: "scheme option \<Rightarrow> ThemePreference" where
  "ThemeToggle resolvedTheme = (if resolvedTheme = Some Dark then Pref_light else Pref_dark)"

section \<open>Badge and button\<close>

definition pill_color :: "palette \<Rightarrow> tone \<Rightarrow> jstring" where
  "pill_color p t = (case t of Accent \<Rightarrow> pl_accent p | Success \<Rightarrow> pl_success p | Warning \<Rightarrow> pl_warning p
     | Danger \<Rightarrow> pl_danger p | Neutral \<Rightarrow> pl_fgMuted p)"

text \<open>Background, dot and text colour.\<close>

definition mob_StatusPill :: "palette \<Rightarrow> tone \<Rightarrow> jstring \<times> jstring \<times> jstring" where
  "mob_StatusPill p t = (let color = pill_color p t in (color @ js ''22'', color, color))"

datatype button_variant = Primary | Secondary | Ghost | Danger_button

record mobile_button =
  bt_background :: jstring
  bt_textColor :: jstring
  bt_disabled :: bool
  bt_spinner :: bool
  bt_faded :: bool

definition mob_Button :: "palette \<Rightarrow> button_variant \<Rightarrow> bool \<Rightarrow> bool \<Rightarrow> mobile_button" where
  "mob_Button p variant disabled loading =
     \<lparr>bt_background = (case variant of Primary \<Rightarrow> pl_accent p | Danger_button \<Rightarrow> pl_danger p | Secondary \<Rightarrow> pl_elevated p
        | Ghost \<Rightarrow> js ''transparent''),
      bt_textColor = (if variant = Primary \<or> variant = Danger_button then pl_accentFg p else pl_fg p),
      bt_disabled = (disabled \<or> loading), bt_spinner = loading, bt_faded = disabled\<rparr>"

definition button_press :: "mobile_button \<Rightarrow> ('s \<Rightarrow> 's) \<Rightarrow> 's \<Rightarrow> 's" where
  "button_press b onPress s = (if bt_disabled b then s else onPress s)"

section \<open>The labelled input\<close>

text \<open>\<open>v && x\<close>; the class name helper that joins such parts is a parameter of the field.\<close>

definition when_set :: "jstring option \<Rightarrow> jstring \<Rightarrow> jstring option" where
  "when_set v x = (if truthy_opt v then Some x else None)"

record form_field =
  ff_masked :: bool
  ff_toggle :: "jstring option"
  ff_hint :: "jstring option"
  ff_error :: "jstring option"
  ff_invalid :: bool
  ff_describedBy :: "jstring option"
  ff_ids :: "jstring list"   \<comment> \<open>ids of the lines that are rendered\<close>

definition FormField :: "(jstring option list \<Rightarrow> jstring) \<Rightarrow> jstring \<Rightarrow> jstring option \<Rightarrow> jstring option \<Rightarrow> jstring option \<Rightarrow> bool \<Rightarrow> form_field" where
  "FormField cn fieldId type error hint revealed =
     (let errorId = fieldId @ js ''-error''; hintId = fieldId @ js ''-hint'';
          isPassword = (type = Some (js ''password''));
          shown_hint = (if truthy_opt hint \<and> \<not> truthy_opt error then hint else None);
          shown_error = (if truthy_opt error then error else None);
          described = cn [when_set error errorId, when_set hint hintId] in
      \<lparr>ff_masked = (isPassword \<and> \<not> revealed),
       ff_toggle = (if isPassword then Some (if revealed then js ''Hide password'' else js ''Show password'') else None),
       ff_hint = shown_hint, ff_error = shown_error, ff_invalid = truthy_opt error,
       ff_describedBy = (if described = [] then None else Some described),
       ff_ids = (if shown_hint \<noteq> None then [hintId] else []) @ (if shown_error \<noteq> None then [errorId] else [])\<rparr>)"

record mob_form_field =
  mf_masked :: bool
  mf_toggle :: "jstring option"
  mf_hint :: "jstring option"
  mf_error :: "jstring option"
  mf_border :: jstring

definition mob_FormField :: "palette \<Rightarrow> bool \<Rightarrow> jstring option \<Rightarrow> jstring option \<Rightarrow> bool \<Rightarrow> bool \<Rightarrow> mob_form_field" where
  "mob_FormField p secureTextEntry error hint focused revealed =
     \<lparr>mf_masked = (secureTextEntry \<and> \<not> revealed),
      mf_toggle = (if secureTextEntry then Some (if revealed then js ''Hide password'' else js ''Show password'') else None),
      mf_hint = (if truthy_opt hint \<and> \<not> truthy_opt error then hint else None),
      mf_error = (if truthy_opt error then error else None),
      mf_border = (if truthy_opt error then pl_danger p else if focused then pl_accent p else pl_separator p)\<rparr>"

section \<open>The settings page\<close>

datatype settings_tab = Tab_account | Tab_members

definition settings_TABS :: "(settings_tab \<times> jstring) list" where
  "settings_TABS = [(Tab_account, js ''Account''), (Tab_members, js ''Members'')]"

datatype settings_part = Part_spinner | Part_account workspace | Part_members jstring | Part_no_workspace

definition SettingsPage :: "workspace option \<Rightarrow> bool \<Rightarrow> settings_tab \<Rightarrow> settings_part list" where
  "SettingsPage active isLoading tab =
     (if isLoading then [Part_spinner] else []) @
     (case active of
        Some w \<Rightarrow> [case tab of Tab_account \<Rightarrow> Part_account w | Tab_members \<Rightarrow> Part_members (wk_id w)]
      | None \<Rightarrow> if isLoading then [] else [Part_no_workspace])"

record account_panel =
  ac_spinner :: bool
  ac_user :: "(jstring \<times> (jstring \<times> tone) \<times> jstring) option"
  ac_workspace :: "jstring \<times> jstring"

definition AccountPanel :: "(jstring \<Rightarrow> jstring) \<Rightarrow> bool \<Rightarrow> user option \<Rightarrow> workspace \<Rightarrow> account_panel" where
  "AccountPanel format isPending user w =
     \<lparr>ac_spinner = isPending,
      ac_user = map_option (\<lambda>u. (us_email u,
        if us_email_verified u then (js ''Verified'', Success) else (js ''Unverified'', Warning), format (us_created_at u))) user,
      ac_workspace = (wk_name w, wk_plan w)\<rparr>"

section \<open>Properties\<close>

text \<open>
  Form fields behave alike on both clients: for the same kind of field, hint, error and
  reveal state both show or mask the text, offer the same toggle, and show the same single line,
  the error if there is one and the hint otherwise; a text is masked only in a password field
  that is not revealed.
\<close>

theorem form_fields_agree:
  "let w = FormField cn i type error hint revealed;
       m = mob_FormField p (type = Some (js ''password'')) error hint focused revealed
   in ff_masked w = mf_masked m \<and> ff_toggle w = mf_toggle m \<and> ff_hint w = mf_hint m \<and> ff_error w = mf_error m \<and>
      (ff_hint w = None \<or> ff_error w = None) \<and> (ff_invalid w \<longleftrightarrow> ff_error w \<noteq> None) \<and>
      ff_masked (FormField cn i type error hint (\<not> revealed)) = (type = Some (js ''password'') \<and> revealed)"
  by (auto simp: FormField_def mob_FormField_def Let_def truthy_opt_def split: option.splits)

text \<open>
  A field with an error and a hint is described by an element that is not there: the input
  names the ids of both lines, but the hint is not rendered while the error is.
\<close>

theorem hint_reference_dangles:
  assumes "truthy_opt error" and "truthy_opt hint" and "\<And>a b. cn [Some a, Some b] = a @ js '' '' @ b"
  shows "ff_describedBy (FormField cn i type error hint revealed) = Some (i @ js ''-error '' @ i @ js ''-hint'') \<and>
    i @ js ''-hint'' \<notin> set (ff_ids (FormField cn i type error hint revealed))"
  using assms by (auto simp: FormField_def Let_def when_set_def js_def)

text \<open>
  The theme follows the user's choice: the library shows the system's scheme until a choice
  is made, and pressing the toggle always changes what is shown, whatever the system says; the
  mobile palette is the one of the scheme that the same choice gives on the web.
\<close>

definition resolved :: "ThemePreference \<Rightarrow> scheme \<Rightarrow> scheme" where
  "resolved theme system = (case theme of Pref_system \<Rightarrow> system | Pref_light \<Rightarrow> Light | Pref_dark \<Rightarrow> Dark)"

theorem theme_follows_choice:
  "resolved theme_init system = system \<and>
   resolved (ThemeToggle (Some (resolved theme system))) system \<noteq> resolved theme system \<and>
   resolved (ThemeToggle (Some (resolved (ThemeToggle (Some (resolved theme system))) system))) system = resolved theme system \<and>
   usePalette theme (Some system) = (palettes (resolved theme system), resolved theme system) \<and>
   snd (usePalette Pref_system None) = Light"
  by (cases theme; cases system) (simp_all add: theme_init_def resolved_def ThemeToggle_def usePalette_def)

text \<open>
  Badges have valid colours: a badge's background is its colour with two more hexadecimal
  digits of opacity, and this is a colour with eight digits for every tone in both schemes,
  because none of the colours a badge uses is written in another notation.
\<close>

definition hex_digit :: "jchar \<Rightarrow> bool" where
  "hex_digit c = (0x30 \<le> c \<and> c \<le> 0x39 \<or> 0x61 \<le> c \<and> c \<le> 0x66)"

definition hex_color :: "nat \<Rightarrow> jstring \<Rightarrow> bool" where
  "hex_color n s = (length s = Suc n \<and> hd s = hd (js ''#'') \<and> list_all hex_digit (tl s))"

theorem pill_colors_valid:
  "hex_color 8 (fst (mob_StatusPill (palettes sch) t)) \<and> hex_color 6 (fst (snd (mob_StatusPill (palettes sch) t)))"
  by (cases sch; cases t; simp add: mob_StatusPill_def pill_color_def hex_color_def hex_digit_def Let_def js_def)

end
