(* ===== verification/Dashboards.thy ===== *)
theory Dashboards
  imports Insights "HOL-Library.Multiset"
begin

text \<open>
  What the screens show of the data they have loaded: the publish dialogs of both clients, the
  slots list, a job's row, the overview widgets, the analytics table and the media library
  (\<^verbatim>\<open>schedule-dialog.tsx\<close>, \<^verbatim>\<open>publish-sheet.tsx\<close>, \<^verbatim>\<open>slots-manager.tsx\<close>, \<^verbatim>\<open>job-item.tsx\<close>,
  \<^verbatim>\<open>overview-widgets.tsx\<close>, \<^verbatim>\<open>analytics-screen.tsx\<close>, \<^verbatim>\<open>media-panel.tsx\<close>, \<^verbatim>\<open>asset-tile.tsx\<close>).
  A load is its pending flag with the data, if any; texts of times are the host's.
\<close>

section \<open>The publish dialogs\<close>

record publish_view =
  pv_result :: "jstring option"
  pv_modes :: "(schedule_mode \<times> bool) list"
  pv_time :: bool
  pv_alert :: "(json \<times> bool) option"   \<comment> \<open>the message, with whether it points to the wallet\<close>
  pv_submit :: "jstring \<times> bool"   \<comment> \<open>label and whether it is disabled\<close>

definition out_of_credits :: "thrown \<Rightarrow> bool" where
  "out_of_credits e = (thrown_code e = Some (JStr (js ''insufficient_credits'')))"

definition ScheduleDialog_view :: "schedule_dialog \<Rightarrow> publish_view option" where
  "ScheduleDialog_view s =
     (if \<not> sd_open s then None
      else case sd_scheduled s of
             Some n \<Rightarrow> Some \<lparr>pv_result = Some (scheduled_text n), pv_modes = [], pv_time = False, pv_alert = None,
                             pv_submit = (js ''Done'', False)\<rparr>
           | None \<Rightarrow> Some \<lparr>pv_result = None,
                            pv_modes = map (\<lambda>m. (m, sd_mode s = m)) [Mode_now, Mode_slots, Mode_time],
                            pv_time = (sd_mode s = Mode_time),
                            pv_alert = map_option (\<lambda>e. (thrown_message e, wallet_link s)) (sd_error s),
                            pv_submit = (submit_label s, submit_disabled s)\<rparr>)"

definition mob_scheduled_text :: "nat \<Rightarrow> jstring" where
  "mob_scheduled_text n = show_nat n @ js '' job'' @ (if n = 1 then [] else js ''s'') @ js '' created. Track them on the Calendar.''"

text \<open>On mobile a pending button shows a spinner in place of its label.\<close>

definition PublishSheet_view :: "publish_sheet \<Rightarrow> publish_view" where
  "PublishSheet_view s =
     (case ps_scheduled s of
        Some n \<Rightarrow> \<lparr>pv_result = Some (mob_scheduled_text n), pv_modes = [], pv_time = False, pv_alert = None,
                    pv_submit = (js ''Done'', False)\<rparr>
      | None \<Rightarrow> \<lparr>pv_result = None, pv_modes = map (\<lambda>m. (m, ps_mode s = m)) [Mode_now, Mode_slots, Mode_time],
                  pv_time = (ps_mode s = Mode_time),
                  pv_alert = map_option (\<lambda>e. (thrown_message e, out_of_credits e)) (ps_error s),
                  pv_submit = (if ps_pending s then [] else if ps_mode s = Mode_now then js ''Publish now'' else js ''Schedule'',
                               ps_pending s)\<rparr>)"

section \<open>Slots and jobs\<close>

record slots_view =
  sv_channels :: "(jstring \<times> jstring) list"
  sv_spinner :: bool
  sv_none :: bool
  sv_rows :: "(jstring \<times> bool) list"   \<comment> \<open>text of a slot and whether it can be deleted\<close>
  sv_add :: "jstring \<times> bool"
  sv_alert :: "json option"

text \<open>A day outside the week reads \<open>undefined\<close>.\<close>

definition day_name :: "nat \<Rightarrow> jstring" where
  "day_name d = (if d < length DAYS then DAYS ! d else js ''undefined'')"

definition SlotsManager_view :: "channel list \<Rightarrow> bool \<Rightarrow> slot list option \<Rightarrow> slots_manager \<Rightarrow> slots_view" where
  "SlotsManager_view channels isPending slots s =
     \<lparr>sv_channels = map (\<lambda>c. (ch_id c, atHandle (ch_handle c) @ js '' ('' @ ch_platform c @ js '')'')) channels,
      sv_spinner = isPending, sv_none = (slots = Some []),
      sv_rows = map (\<lambda>sl. (day_name (sl_day_of_week sl) @ js '' at '' @ sl_time_of_day sl, \<not> sm_removing s)) (nullish slots []),
      sv_add = (if sm_creating s then js ''Adding'' @ [0x2026] else js ''Add slot'', add_disabled s),
      sv_alert = (case sm_error s of Some e \<Rightarrow> if json_truthy e then Some e else None | None \<Rightarrow> None)\<rparr>"

record job_item =
  ji_line :: jstring
  ji_tone :: tone
  ji_cancel :: bool
  ji_warning :: jstring

definition JobItem_view :: "channel option \<Rightarrow> job \<Rightarrow> job_item" where
  "JobItem_view ch j =
     \<lparr>ji_line = job_line ch j, ji_tone = JOB_TONE (jb_status j), ji_cancel = (jb_status j = Scheduled),
      ji_warning = js ''It won't be published to '' @
        (case ch of Some c \<Rightarrow> atHandle (ch_handle c) | None \<Rightarrow> js ''its channel'') @ js ''. The draft itself is kept.''\<rparr>"

section \<open>The overview\<close>

record 'r widget =
  wd_spinner :: bool
  wd_empty :: bool
  wd_rows :: "'r list"

record overview =
  ov_jobs :: "(job \<times> jstring) widget"
  ov_drafts :: "jstring option widget"   \<comment> \<open>\<open>None\<close> reads (no text)\<close>
  ov_channels :: "(jstring \<times> tone) widget"
  ov_summary :: "jstring option"

definition draft_text :: "post \<Rightarrow> jstring option" where
  "draft_text p = (case po_variants p of Some (v # _) \<Rightarrow> if truthy (va_body v) then Some (va_body v) else None | _ \<Rightarrow> None)"

definition OverviewWidgets :: "(job list \<Rightarrow> job list) \<Rightarrow> jstring option \<Rightarrow> bool \<times> job list option \<Rightarrow> bool \<times> post list option
    \<Rightarrow> bool \<times> channel list option \<Rightarrow> overview option" where
  "OverviewWidgets sort_by_time active jobs posts channels =
     (if active = None then None
      else let next_jobs = upcoming sort_by_time (snd jobs); drafts = dashboard_drafts (snd posts);
               chs = nullish (snd channels) [] in
        Some \<lparr>ov_jobs = \<lparr>wd_spinner = fst jobs, wd_empty = (\<not> fst jobs \<and> next_jobs = []),
                wd_rows = map (\<lambda>j. (j, channel_label chs (jb_channel_id j))) next_jobs\<rparr>,
              ov_drafts = \<lparr>wd_spinner = fst posts, wd_empty = (\<not> fst posts \<and> drafts = []), wd_rows = map draft_text drafts\<rparr>,
              ov_channels = \<lparr>wd_spinner = fst channels, wd_empty = (\<not> fst channels \<and> chs = []),
                wd_rows = map (\<lambda>c. (atHandle (ch_handle c), if ch_status c = Active then Success else Warning)) (take 4 chs)\<rparr>,
              ov_summary = (if chs = [] then None else Some (channels_summary chs))\<rparr>)"

section \<open>The analytics table and the media library\<close>

record table_row =
  tr_excerpt :: jstring
  tr_channel :: jstring
  tr_numbers :: jstring
  tr_selected :: bool

definition AnalyticsTable :: "((jstring \<times> int) list \<Rightarrow> (jstring \<times> int) list) \<Rightarrow> analytics_screen \<Rightarrow> post list option
    \<Rightarrow> channel list option \<Rightarrow> post_metrics list option \<Rightarrow> table_row list" where
  "AnalyticsTable by_name s posts channels rows =
     map (\<lambda>r. \<lparr>tr_excerpt = post_excerpt (nullish posts []) (pm_post_id r),
                tr_channel = channel_label (nullish channels []) (pm_channel_id r),
                tr_numbers = metrics_text by_name (pm_metrics r),
                tr_selected = (an_selectedPostId s = Some (pm_post_id r))\<rparr>) (nullish rows [])"

datatype tile_preview = Tile_video | Tile_image jstring jstring

record asset_tile =
  at_preview :: tile_preview
  at_caption :: jstring

definition AssetTile :: "jstring \<Rightarrow> jstring \<Rightarrow> asset \<Rightarrow> asset_tile" where
  "AssetTile origin ws a =
     \<lparr>at_preview = (if as_kind a = Video then Tile_video
        else Tile_image (mediaDownloadURL origin ws (as_id a)) (media_kind_name (as_kind a) @ js '' asset ('' @ as_mime a @ js '')'')),
      at_caption = as_mime a @ [0x20, 0xB7, 0x20] @ formatBytes (nat (as_bytes a))\<rparr>"

record media_panel =
  mp_spinner :: bool
  mp_failed :: bool
  mp_none :: bool
  mp_tiles :: "asset_tile list"

definition MediaPanel :: "jstring \<Rightarrow> jstring option \<Rightarrow> bool \<Rightarrow> bool \<Rightarrow> asset list option \<Rightarrow> media_panel option" where
  "MediaPanel origin active isPending isError assets =
     (case active of
        None \<Rightarrow> None
      | Some ws \<Rightarrow> Some \<lparr>mp_spinner = isPending, mp_failed = isError, mp_none = (assets = Some []),
                          mp_tiles = map (AssetTile origin ws) (nullish assets [])\<rparr>)"

section \<open>Properties\<close>

text \<open>
  The publish dialogs of the clients agree: on the same choice, with the local time of the web
  form denoting the instant picked on mobile, pressing the button sends the same request at the
  same time on both, or on neither; both offer the same three modes with the same one chosen, both
  show the field for a time in the same mode, and both show the same error, pointing to the wallet
  in the same case.
\<close>

theorem publish_dialogs_agree:
  assumes "sd_open s" and "sd_mode s = ps_mode p" and "sd_pending s = ps_pending p" and "sd_scheduled s = ps_scheduled p"
    and "sd_error s = ps_error p" and "sd_mode s = Mode_time \<Longrightarrow> sd_when s \<noteq> [] \<and> ck_local ck (sd_when s) = Some (ps_when p)"
  shows "snd (schedule_step ck postId s (Sd_submit now)) = snd (PublishSheet (ck_iso ck) postId p (Ps_submit now)) \<and>
    (\<exists>v. ScheduleDialog_view s = Some v \<and> pv_modes v = pv_modes (PublishSheet_view p) \<and> pv_time v = pv_time (PublishSheet_view p) \<and>
       pv_alert v = pv_alert (PublishSheet_view p) \<and> snd (pv_submit v) = snd (pv_submit (PublishSheet_view p)) \<and>
       (pv_result v = None) = (pv_result (PublishSheet_view p) = None))"
proof -
  have "snd (schedule_step ck postId s (Sd_submit now)) = snd (PublishSheet (ck_iso ck) postId p (Ps_submit now))"
    using assms by (cases "ps_mode p")
      (auto simp: form_shown_def submit_disabled_def schedule_request_def publish_request_def)
  moreover have "submit_disabled s = ps_pending p" using assms by (auto simp: submit_disabled_def)
  ultimately show ?thesis
    using assms(1-5) by (cases "ps_scheduled p")
      (auto simp: ScheduleDialog_view_def PublishSheet_view_def wallet_link_def out_of_credits_def split: option.splits)
qed

theorem publish_dialogs_agree_witness:
  "\<exists>s p. sd_mode s = Mode_time \<and> snd (schedule_step utc_clock (js ''p'') s (Sd_submit 5)) =
     snd (PublishSheet (ck_iso utc_clock) (js ''p'') p (Ps_submit 5)) \<and>
     snd (PublishSheet (ck_iso utc_clock) (js ''p'') p (Ps_submit 5)) \<noteq> []"
proof -
  let ?s = "schedule_init\<lparr>sd_open := True, sd_mode := Mode_time, sd_when := js ''2026''\<rparr>"
  let ?p = "\<lparr>ps_mode = Mode_time, ps_when = 4, ps_picker = False, ps_error = None, ps_scheduled = None, ps_pending = False\<rparr>"
  have "snd (schedule_step utc_clock (js ''p'') ?s (Sd_submit 5)) = snd (PublishSheet (ck_iso utc_clock) (js ''p'') ?p (Ps_submit 5))"
    by (rule publish_dialogs_agree [THEN conjunct1]) (simp_all add: schedule_init_def utc_clock_def)
  then show ?thesis by (intro exI [of _ ?s] exI [of _ ?p]) simp
qed

text \<open>
  The overview is sound: it lists scheduled jobs, drafts and channels that were loaded, at most
  five jobs, five drafts and four channels, whatever the sorting by time does beyond permuting.
\<close>

theorem overview_sound:
  assumes "\<And>l. mset (sort_by_time l) = mset l" and "OverviewWidgets sort_by_time active jobs posts channels = Some v"
  shows "list_all (\<lambda>(j, _). jb_status j = Scheduled \<and> j \<in> set (nullish (snd jobs) [])) (wd_rows (ov_jobs v)) \<and>
    length (wd_rows (ov_jobs v)) \<le> 5 \<and> length (wd_rows (ov_drafts v)) \<le> 5 \<and> length (wd_rows (ov_channels v)) \<le> 4"
proof -
  have "set (sort_by_time l) = set l" for l by (rule mset_eq_setD [OF assms(1)])
  then have "list_all (\<lambda>j. jb_status j = Scheduled \<and> j \<in> set (nullish (snd jobs) [])) (upcoming sort_by_time (snd jobs))"
    by (auto simp: upcoming_def list_all_iff dest: in_set_takeD)
  moreover have "length (upcoming sort_by_time (snd jobs)) \<le> 5" "length (dashboard_drafts (snd posts)) \<le> 5"
    by (simp_all add: upcoming_def dashboard_drafts_def)
  moreover have "wd_rows (ov_jobs v) = map (\<lambda>j. (j, channel_label (nullish (snd channels) []) (jb_channel_id j))) (upcoming sort_by_time (snd jobs))"
    "wd_rows (ov_drafts v) = map draft_text (dashboard_drafts (snd posts))" "length (wd_rows (ov_channels v)) \<le> 4"
    using assms(2) by (auto simp: OverviewWidgets_def Let_def split: if_splits)
  ultimately show ?thesis by (simp add: list.pred_map comp_def)
qed

text \<open>A failed load is shown as an empty workspace: no jobs, no drafts and no accounts, and no error.\<close>

theorem failed_loads_look_empty:
  "\<exists>v. OverviewWidgets sort_by_time (Some ws) (False, None) (False, None) (False, None) = Some v \<and>
     (sort_by_time [] = [] \<longrightarrow> wd_empty (ov_jobs v)) \<and> wd_empty (ov_drafts v) \<and> wd_empty (ov_channels v)"
  by (simp add: OverviewWidgets_def Let_def upcoming_def dashboard_drafts_def)

text \<open>A slot is listed without its time zone, so that slots of different zones look alike.\<close>

theorem slot_zone_hidden:
  assumes "sl_day_of_week a = sl_day_of_week b" and "sl_time_of_day a = sl_time_of_day b"
  shows "sv_rows (SlotsManager_view channels isPending (Some [a]) s) = sv_rows (SlotsManager_view channels isPending (Some [b]) s)"
  using assms by (simp add: SlotsManager_view_def)

end
