(* ===== verification/MobileFlight.thy ===== *)
theory MobileFlight
  imports MobileClient
begin

text \<open>
  The concurrent behaviour of \<^verbatim>\<open>mobile/src/api/client.ts\<close>: calls of the typed client,
  of \<open>authedFetch\<close> (\<^verbatim>\<open>mobile/src/data/governance.ts\<close>), of the bootstrap hook and of
  sign-in and sign-out, interleaved at their \<open>await\<close>s. They share the session store, whose
  Keystore part is read and written asynchronously, and the module variable \<open>refreshing\<close>.
  Every rule of \<open>mf_step\<close> is the code between two consecutive \<open>await\<close>s. The Keystore is
  the parameter \<open>ss\<close>; \<open>net\<close> relates the requests sent so far and a request to the outcomes its
  \<open>fetch\<close> may have; \<open>grant\<close> says which token pairs a login may return.
\<close>

section \<open>States\<close>

text \<open>Where the function behind \<open>refreshing\<close> stands.\<close>

datatype stage =
    Reading                    \<comment> \<open>awaiting \<open>getRefreshToken()\<close>\<close>
  | HasRead "jstring option"
  | Exchanging request         \<comment> \<open>awaiting the response to this request\<close>
  | Parsing response           \<comment> \<open>awaiting \<open>res.json()\<close>\<close>
  | Writing jstring            \<comment> \<open>in \<open>saveSession\<close>, awaiting the write of this token\<close>
  | Written
  | Done bool

datatype client_kind = Typed_client jstring | Direct_client

datatype mcall =
    MIdle
  | MSent client_kind request request              \<comment> \<open>the caller's request and what was sent\<close>
  | MWaiting client_kind request request response nat
  | MRetried client_kind request
  | MFinished "thrown + response"
  | MBoot nat                                      \<comment> \<open>the bootstrap hook, awaiting a refresh\<close>
  | MBooted bool
  | MStoring "jstring option"                      \<comment> \<open>in \<open>setRefreshToken\<close> of sign-in or sign-out\<close>
  | MStored

record 'k mflight =
  mf_session :: "'k session"
  mf_refreshing :: "nat option"
  mf_promise :: "nat \<Rightarrow> stage option"
  mf_next :: nat
  mf_call :: "nat \<Rightarrow> mcall"
  mf_wire :: "(nat option \<times> request) list"

definition mf_init :: "'k session \<Rightarrow> 'k mflight" where
  "mf_init se = \<lparr>mf_session = se, mf_refreshing = None, mf_promise = (\<lambda>_. None), mf_next = 0,
     mf_call = (\<lambda>_. MIdle), mf_wire = []\<rparr>"

section \<open>Steps\<close>

definition mgoto :: "nat \<Rightarrow> mcall \<Rightarrow> 'k mflight \<Rightarrow> 'k mflight" where
  "mgoto i k s = s\<lparr>mf_call := (mf_call s)(i := k)\<rparr>"

definition msend :: "nat option \<Rightarrow> request \<Rightarrow> 'k mflight \<Rightarrow> 'k mflight" where
  "msend who r s = s\<lparr>mf_wire := mf_wire s @ [(who, r)]\<rparr>"

definition mstage :: "nat \<Rightarrow> stage \<Rightarrow> 'k mflight \<Rightarrow> 'k mflight" where
  "mstage p x s = s\<lparr>mf_promise := (mf_promise s)(p \<mapsto> x)\<rparr>"

definition msession :: "('k session \<Rightarrow> 'k session) \<Rightarrow> 'k mflight \<Rightarrow> 'k mflight" where
  "msession f s = s\<lparr>mf_session := f (mf_session s)\<rparr>"

text \<open>A \<open>return\<close> of the refresh function: the \<open>finally\<close> clause, then the promise settles.\<close>

definition mdone :: "nat \<Rightarrow> bool \<Rightarrow> 'k mflight \<Rightarrow> 'k mflight" where
  "mdone p v s = mstage p (Done v) (s\<lparr>mf_refreshing := None\<rparr>)"

text \<open>
  \<open>refreshSession()\<close> up to its first \<open>await\<close>. \<open>getRefreshToken\<close> is an \<open>async\<close> function, so
  the new promise is always in the variable before the \<open>finally\<close> clause can run.
\<close>

definition mf_join :: "'k mflight \<Rightarrow> nat \<times> 'k mflight" where
  "mf_join s =
     (case mf_refreshing s of
        Some p \<Rightarrow> (p, s)
      | None \<Rightarrow> (mf_next s, mstage (mf_next s) Reading
                 (s\<lparr>mf_next := Suc (mf_next s), mf_refreshing := Some (mf_next s)\<rparr>)))"

fun first_request :: "client_kind \<Rightarrow> jstring option \<Rightarrow> request \<Rightarrow> request" where
  "first_request (Typed_client rid) token q = set_header ''X-Request-Id'' rid (with_bearer token q)"
| "first_request Direct_client token q = with_bearer token q"

fun second_request :: "client_kind \<Rightarrow> jstring option \<Rightarrow> request \<Rightarrow> request \<Rightarrow> request" where
  "second_request (Typed_client rid) token q q1 = set_header ''Authorization'' (bearer (nullish token [])) q1"
| "second_request Direct_client token q q1 = with_bearer token q"

fun refresh_exempt :: "client_kind \<Rightarrow> request \<Rightarrow> bool" where
  "refresh_exempt (Typed_client rid) q = mobile_isAuthFlow q"
| "refresh_exempt Direct_client q = False"

text \<open>The end of a call: the typed client logs server errors.\<close>

definition mf_finish :: "nat \<Rightarrow> client_kind \<Rightarrow> response \<Rightarrow> 'k mflight \<Rightarrow> 'k mflight" where
  "mf_finish i k res s =
     mgoto i (MFinished (Inr res))
       (case k of Typed_client rid \<Rightarrow> msession (\<lambda>se. fst (snd (mobile_finish res se ()))) s | Direct_client \<Rightarrow> s)"

text \<open>The code after the first response: the test for 401, and \<open>refreshSession()\<close> up to its \<open>await\<close>.\<close>

definition mf_respond :: "nat \<Rightarrow> client_kind \<Rightarrow> request \<Rightarrow> request \<Rightarrow> response \<Rightarrow> 'k mflight \<Rightarrow> 'k mflight" where
  "mf_respond i k q q1 res s =
     (if rs_status res = 401 \<and> \<not> refresh_exempt k q
      then (case mf_join s of (p, s') \<Rightarrow> mgoto i (MWaiting k q q1 res p) s')
      else mf_finish i k res s)"

type_synonym network = "(nat option \<times> request) list \<Rightarrow> request \<Rightarrow> jstring + response \<Rightarrow> bool"
type_synonym grants = "(nat option \<times> request) list \<Rightarrow> jstring \<Rightarrow> jstring option \<Rightarrow> bool"

inductive mf_step :: "jstring \<Rightarrow> 'k secure_store \<Rightarrow> network \<Rightarrow> grants \<Rightarrow> 'k mflight \<Rightarrow> 'k mflight \<Rightarrow> bool"
  for origin :: jstring and ss :: "'k secure_store" and net :: network and grant :: grants where
  start: "mf_call s i = MIdle \<Longrightarrow> q1 = first_request k (getAccessToken (mf_session s)) q \<Longrightarrow>
    mf_step origin ss net grant s (msend (Some i) q1 (mgoto i (MSent k q q1) s))"
| fails: "mf_call s i = MSent k q q1 \<Longrightarrow> net (mf_wire s) q1 (Inl m) \<Longrightarrow>
    mf_step origin ss net grant s (mgoto i (MFinished (Inl (JsError m))) s)"
| responds: "mf_call s i = MSent k q q1 \<Longrightarrow> net (mf_wire s) q1 (Inr res) \<Longrightarrow>
    mf_step origin ss net grant s (mf_respond i k q q1 res s)"
| gives_up: "mf_call s i = MWaiting k q q1 res p \<Longrightarrow> mf_promise s p = Some (Done False) \<Longrightarrow>
    mf_step origin ss net grant s (mf_finish i k res s)"
| retries: "mf_call s i = MWaiting k q q1 res p \<Longrightarrow> mf_promise s p = Some (Done True) \<Longrightarrow>
    q2 = second_request k (getAccessToken (mf_session s)) q q1 \<Longrightarrow>
    mf_step origin ss net grant s (msend (Some i) q2 (mgoto i (MRetried k q2) s))"
| retry_fails: "mf_call s i = MRetried k q2 \<Longrightarrow> net (mf_wire s) q2 (Inl m) \<Longrightarrow>
    mf_step origin ss net grant s (mgoto i (MFinished (Inl (JsError m))) s)"
| retry_responds: "mf_call s i = MRetried k q2 \<Longrightarrow> net (mf_wire s) q2 (Inr res) \<Longrightarrow>
    mf_step origin ss net grant s (mf_finish i k res s)"
| boots: "mf_call s i = MIdle \<Longrightarrow> mf_join s = (p, s') \<Longrightarrow>
    mf_step origin ss net grant s (mgoto i (MBoot p) s')"
| booted: "mf_call s i = MBoot p \<Longrightarrow> mf_promise s p = Some (Done v) \<Longrightarrow>
    mf_step origin ss net grant s (mgoto i (MBooted v) s)"
| reads: "mf_promise s p = Some Reading \<Longrightarrow>
    mf_step origin ss net grant s (mstage p (HasRead (getRefreshToken ss (mf_session s))) s)"
| no_token: "mf_promise s p = Some (HasRead v) \<Longrightarrow> \<not> truthy_opt v \<Longrightarrow>
    mf_step origin ss net grant s (mdone p False s)"
| presents: "mf_promise s p = Some (HasRead v) \<Longrightarrow> truthy_opt v \<Longrightarrow>
    r = mobile_refresh_request origin (nullish v []) \<Longrightarrow>
    mf_step origin ss net grant s (msend None r (mstage p (Exchanging r) s))"
| exchange_fails: "mf_promise s p = Some (Exchanging r) \<Longrightarrow> net (mf_wire s) r (Inl m) \<Longrightarrow>
    mf_step origin ss net grant s (mdone p False s)"
| exchange_refused: "mf_promise s p = Some (Exchanging r) \<Longrightarrow> net (mf_wire s) r (Inr res) \<Longrightarrow> \<not> rs_ok res \<Longrightarrow>
    mf_step origin ss net grant s (mdone p False s)"
| exchanged: "mf_promise s p = Some (Exchanging r) \<Longrightarrow> net (mf_wire s) r (Inr res) \<Longrightarrow> rs_ok res \<Longrightarrow>
    mf_step origin ss net grant s (mstage p (Parsing res) s)"
| no_access: "mf_promise s p = Some (Parsing res) \<Longrightarrow> \<not> truthy_opt (body_token ''access_token'' (rs_json res)) \<Longrightarrow>
    mf_step origin ss net grant s (mdone p False s)"
| stores: "mf_promise s p = Some (Parsing res) \<Longrightarrow> a = body_token ''access_token'' (rs_json res) \<Longrightarrow> truthy_opt a \<Longrightarrow>
    t = body_token ''refresh_token'' (rs_json res) \<Longrightarrow>
    mf_step origin ss net grant s (mstage p (if truthy_opt t then Writing (nullish t []) else Written)
      (msession (setAccessToken a) s))"
| writes: "mf_promise s p = Some (Writing t) \<Longrightarrow>
    mf_step origin ss net grant s (mstage p Written (msession (setRefreshToken ss (Some t)) s))"
| returns: "mf_promise s p = Some Written \<Longrightarrow>
    mf_step origin ss net grant s (mdone p True s)"
| signs_in: "mf_call s i = MIdle \<Longrightarrow> grant (mf_wire s) a t \<Longrightarrow>
    mf_step origin ss net grant s (mgoto i (if truthy_opt t then MStoring t else MStored)
      (msession (setAccessToken (Some a)) s))"
| signs_out: "mf_call s i = MIdle \<Longrightarrow>
    mf_step origin ss net grant s (mgoto i (MStoring None) (msession (setAccessToken None) s))"
| stored: "mf_call s i = MStoring t \<Longrightarrow>
    mf_step origin ss net grant s (mgoto i MStored (msession (setRefreshToken ss t) s))"

abbreviation mf_steps :: "jstring \<Rightarrow> 'k secure_store \<Rightarrow> network \<Rightarrow> grants \<Rightarrow> 'k mflight \<Rightarrow> 'k mflight \<Rightarrow> bool" where
  "mf_steps origin ss net grant \<equiv> (mf_step origin ss net grant)\<^sup>*\<^sup>*"

section \<open>The invariant\<close>

lemma mf_simps [simp]:
  "mf_session (mgoto i k s) = mf_session s" "mf_refreshing (mgoto i k s) = mf_refreshing s"
  "mf_promise (mgoto i k s) = mf_promise s" "mf_next (mgoto i k s) = mf_next s"
  "mf_wire (mgoto i k s) = mf_wire s" "mf_call (mgoto i k s) = (mf_call s)(i := k)"
  "mf_session (msend w r s) = mf_session s" "mf_refreshing (msend w r s) = mf_refreshing s"
  "mf_promise (msend w r s) = mf_promise s" "mf_next (msend w r s) = mf_next s"
  "mf_wire (msend w r s) = mf_wire s @ [(w, r)]" "mf_call (msend w r s) = mf_call s"
  "mf_session (mstage p x s) = mf_session s" "mf_refreshing (mstage p x s) = mf_refreshing s"
  "mf_promise (mstage p x s) = (mf_promise s)(p \<mapsto> x)" "mf_next (mstage p x s) = mf_next s"
  "mf_wire (mstage p x s) = mf_wire s" "mf_call (mstage p x s) = mf_call s"
  "mf_session (msession f s) = f (mf_session s)" "mf_refreshing (msession f s) = mf_refreshing s"
  "mf_promise (msession f s) = mf_promise s" "mf_next (msession f s) = mf_next s"
  "mf_wire (msession f s) = mf_wire s" "mf_call (msession f s) = mf_call s"
  "mf_session (mdone p v s) = mf_session s" "mf_refreshing (mdone p v s) = None"
  "mf_promise (mdone p v s) = (mf_promise s)(p \<mapsto> Done v)" "mf_next (mdone p v s) = mf_next s"
  "mf_wire (mdone p v s) = mf_wire s" "mf_call (mdone p v s) = mf_call s"
  by (simp_all add: mgoto_def msend_def mstage_def msession_def mdone_def)

lemma mf_finish_simps [simp]:
  "mf_refreshing (mf_finish i k res s) = mf_refreshing s" "mf_promise (mf_finish i k res s) = mf_promise s"
  "mf_next (mf_finish i k res s) = mf_next s" "mf_wire (mf_finish i k res s) = mf_wire s"
  "mf_call (mf_finish i k res s) = (mf_call s)(i := MFinished (Inr res))"
  "se_access (mf_session (mf_finish i k res s)) = se_access (mf_session s)"
  "se_keys (mf_session (mf_finish i k res s)) = se_keys (mf_session s)"
  by (cases k; simp add: mf_finish_def)+

definition mpending :: "'k mflight \<Rightarrow> nat \<Rightarrow> bool" where
  "mpending s p = (case mf_promise s p of None \<Rightarrow> False | Some (Done v) \<Rightarrow> False | Some x \<Rightarrow> True)"

definition mrequests :: "nat option \<Rightarrow> 'k mflight \<Rightarrow> request list" where
  "mrequests who s = map snd (filter (\<lambda>x. fst x = who) (mf_wire s))"

text \<open>How many requests a call has sent at each point, and which promise it waits for.\<close>

fun msends_ok :: "mcall \<Rightarrow> nat \<Rightarrow> bool" where
  "msends_ok (MSent k q q1) n = (n = 1)"
| "msends_ok (MWaiting k q q1 res p) n = (n = 1)"
| "msends_ok (MRetried k q) n = (n = 2)"
| "msends_ok (MFinished x) n = (n \<le> 2)"
| "msends_ok k n = (n = 0)"

fun waits_for :: "mcall \<Rightarrow> nat option" where
  "waits_for (MWaiting k q q1 res p) = Some p"
| "waits_for (MBoot p) = Some p"
| "waits_for k = None"

definition mpromises_ok :: "'k mflight \<Rightarrow> bool" where
  "mpromises_ok s =
     ((\<forall>p. mf_promise s p = None \<longleftrightarrow> mf_next s \<le> p) \<and>
      (\<forall>p. mpending s p \<longleftrightarrow> mf_refreshing s = Some p))"

definition mcalls_ok :: "'k mflight \<Rightarrow> bool" where
  "mcalls_ok s =
     ((\<forall>i p. waits_for (mf_call s i) = Some p \<longrightarrow> p < mf_next s) \<and>
      (\<forall>i. msends_ok (mf_call s i) (length (mrequests (Some i) s))))"

text \<open>The promise in the variable stands at a stage with a given property.\<close>

definition at_stage :: "(stage \<Rightarrow> bool) \<Rightarrow> 'k mflight \<Rightarrow> bool" where
  "at_stage P s = (case mf_refreshing s of None \<Rightarrow> False
     | Some p \<Rightarrow> (case mf_promise s p of None \<Rightarrow> False | Some x \<Rightarrow> P x))"

text \<open>A promise sends its request once; one that is still reading has not sent it.\<close>

fun unsent :: "stage \<Rightarrow> bool" where
  "unsent Reading = True"
| "unsent (HasRead v) = True"
| "unsent x = False"

definition mrefreshes_ok :: "'k mflight \<Rightarrow> bool" where
  "mrefreshes_ok s = (length (mrequests None s) + (if at_stage unsent s then 1 else 0) \<le> mf_next s)"

lemma mrequests_simps [simp]:
  "mrequests w (mgoto i k s) = mrequests w s"
  "mrequests w (mstage p x s) = mrequests w s"
  "mrequests w (msession f s) = mrequests w s"
  "mrequests w (mdone p v s) = mrequests w s"
  "mrequests w (mf_finish i c res s) = mrequests w s"
  "mrequests w (msend u r s) = mrequests w s @ (if u = w then [r] else [])"
  "mrequests w (s\<lparr>mf_refreshing := y\<rparr>) = mrequests w s"
  "mrequests w (s\<lparr>mf_next := n\<rparr>) = mrequests w s"
  by (simp_all add: mrequests_def)

lemma mpending_iff:
  "mpending s p \<longleftrightarrow> mf_promise s p \<noteq> None \<and> (\<forall>v. mf_promise s p \<noteq> Some (Done v))"
  by (simp add: mpending_def split: option.split stage.split)

lemma mpromises_ok_cong:
  assumes "mf_promise s' = mf_promise s" and "mf_next s' = mf_next s" and "mf_refreshing s' = mf_refreshing s"
  shows "mpromises_ok s' = mpromises_ok s"
  using assms by (simp add: mpromises_ok_def mpending_iff)

lemmas mpromises_ok_frame [simp] =
  mpromises_ok_cong [OF mf_simps(3,4,2)] mpromises_ok_cong [OF mf_simps(9,10,8)]
  mpromises_ok_cong [OF mf_simps(21,22,20)] mpromises_ok_cong [OF mf_finish_simps(2,3,1)]

lemma mpending_update [simp]:
  "mpending (mstage p x s) p' = (if p' = p then (\<forall>v. x \<noteq> Done v) else mpending s p')"
  "mpending (mdone p w s) p' = (p' \<noteq> p \<and> mpending s p')"
  "mpending (s\<lparr>mf_next := n\<rparr>) p = mpending s p" "mpending (s\<lparr>mf_refreshing := y\<rparr>) p = mpending s p"
  by (auto simp: mpending_iff)

lemma mpending_facts:
  assumes "mpromises_ok s" and "mf_promise s p = Some y" and "\<And>v. y \<noteq> Done v"
  shows "mf_refreshing s = Some p" and "mpending s p' \<longleftrightarrow> p' = p" and "p < mf_next s"
proof -
  have "mpending s p" using assms(2,3) by (simp add: mpending_iff)
  with assms(1) show "mf_refreshing s = Some p" "mpending s p' \<longleftrightarrow> p' = p" by (auto simp: mpromises_ok_def)
  have "mf_promise s p = None \<longleftrightarrow> mf_next s \<le> p" using assms(1) by (simp add: mpromises_ok_def)
  with assms(2) show "p < mf_next s" by simp
qed

lemma mpromises_ok_update:
  assumes "mpromises_ok s" and "mf_promise s p = Some y" and "\<And>v. y \<noteq> Done v"
  shows "(\<And>v. x \<noteq> Done v) \<Longrightarrow> mpromises_ok (mstage p x s)" and "mpromises_ok (mdone p w s)"
proof -
  have dom: "mf_promise s p' = None \<longleftrightarrow> mf_next s \<le> p'" for p'
    using assms(1) by (simp add: mpromises_ok_def)
  show "mpromises_ok (mstage p x s)" if "\<And>v. x \<noteq> Done v"
    using mpending_facts [OF assms] that unfolding mpromises_ok_def by (auto simp: dom)
  show "mpromises_ok (mdone p w s)"
    using mpending_facts [OF assms] unfolding mpromises_ok_def by (auto simp: dom)
qed

lemma mf_join_ok:
  assumes "mpromises_ok s" and "mf_join s = (p, s')"
  shows "mpromises_ok s' \<and> mpending s' p \<and> p < mf_next s' \<and> mf_next s \<le> mf_next s' \<and>
    mf_call s' = mf_call s \<and> mf_wire s' = mf_wire s \<and> mf_session s' = mf_session s"
proof (cases "mf_refreshing s")
  case (Some p')
  with assms have "p' = p" "s' = s" by (auto simp: mf_join_def)
  moreover have "mpending s p'" using assms(1) Some by (simp add: mpromises_ok_def)
  moreover from this obtain y where "mf_promise s p' = Some y" "\<And>v. y \<noteq> Done v" by (auto simp: mpending_iff)
  then have "p' < mf_next s" using mpending_facts(3) assms(1) by blast
  ultimately show ?thesis using assms(1) by simp
next
  case None
  then have "\<not> mpending s p'" for p' using assms(1) by (simp add: mpromises_ok_def)
  with assms None show ?thesis by (auto simp: mf_join_def mpromises_ok_def split: if_splits)
qed

lemma mf_respond_ok: "mpromises_ok s \<Longrightarrow> mpromises_ok (mf_respond i k q q1 res s)"
  by (auto simp: mf_respond_def split: prod.split dest: mf_join_ok)

lemma mf_step_promises_ok:
  "mf_step origin ss net grant s s' \<Longrightarrow> mpromises_ok s \<Longrightarrow> mpromises_ok s'"
  by (induction rule: mf_step.induct)
     (auto simp: mf_respond_ok dest: mf_join_ok intro: mpromises_ok_update)

interpretation mobile_flight: shared_flight "mf_step origin ss net grant" mpromises_ok mpending mf_refreshing
  for origin ss net grant
  by unfold_locales (auto simp: mf_step_promises_ok, simp add: mpromises_ok_def)

lemma mcalls_ok_goto:
  assumes "mcalls_ok s" and "\<And>p. waits_for k = Some p \<Longrightarrow> p < mf_next s"
    and "\<And>n. msends_ok (mf_call s i) n \<Longrightarrow> msends_ok k n"
  shows "mcalls_ok (mgoto i k s)"
  using assms by (auto simp: mcalls_ok_def)

lemma mcalls_ok_send:
  assumes "mcalls_ok s" and "waits_for k = None"
    and "\<And>n. msends_ok (mf_call s i) n \<Longrightarrow> msends_ok k (Suc n)"
  shows "mcalls_ok (msend (Some i) r (mgoto i k s))"
  using assms by (auto simp: mcalls_ok_def)

lemma mcalls_ok_frame [simp]:
  "mcalls_ok (mstage p x s) = mcalls_ok s"
  "mcalls_ok (msession f s) = mcalls_ok s"
  "mcalls_ok (mdone p v s) = mcalls_ok s"
  "mcalls_ok (msend None r s) = mcalls_ok s"
  by (simp_all add: mcalls_ok_def)

lemma mcalls_ok_join:
  assumes "mpromises_ok s" and "mcalls_ok s" and "mf_join s = (p, s')"
  shows "mcalls_ok s'"
proof -
  from mf_join_ok [OF assms(1,3)] have "mf_call s' = mf_call s" "mf_next s \<le> mf_next s'" "mf_wire s' = mf_wire s" by auto
  with assms(2) show ?thesis unfolding mcalls_ok_def mrequests_def by (metis order.strict_trans2)
qed

lemma mcalls_ok_finish:
  assumes "mcalls_ok s" and "\<And>n. msends_ok (mf_call s i) n \<Longrightarrow> n \<le> 2"
  shows "mcalls_ok (mf_finish i k res s)"
  using assms by (cases k) (auto simp: mf_finish_def intro!: mcalls_ok_goto)

lemma mcalls_ok_respond:
  assumes "mpromises_ok s" and "mcalls_ok s" and "mf_call s i = MSent k q q1"
  shows "mcalls_ok (mf_respond i k q q1 res s)"
proof (cases "rs_status res = 401 \<and> \<not> refresh_exempt k q")
  case True
  obtain p s' where j: "mf_join s = (p, s')" by (metis surj_pair)
  with assms True mcalls_ok_join [OF assms(1,2) j] mf_join_ok [OF assms(1) j] show ?thesis
    by (auto simp: mf_respond_def intro!: mcalls_ok_goto)
qed (use assms in \<open>auto simp: mf_respond_def intro!: mcalls_ok_finish\<close>)

lemma mf_step_calls_ok:
  assumes "mf_step origin ss net grant s s'" and "mpromises_ok s" and "mcalls_ok s"
  shows "mcalls_ok s'"
  using assms
proof (induction rule: mf_step.induct)
  case (boots s i p s')
  then have "mcalls_ok s'" "p < mf_next s'" "mf_call s' = mf_call s"
    using mcalls_ok_join mf_join_ok by blast+
  then show ?case using boots.hyps(1) by (intro mcalls_ok_goto) auto
qed (auto simp: mcalls_ok_respond intro!: mcalls_ok_goto mcalls_ok_send mcalls_ok_finish)

lemma at_stage_frame [simp]:
  "at_stage P (mgoto i k s) = at_stage P s" "at_stage P (msend w r s) = at_stage P s"
  "at_stage P (msession f s) = at_stage P s" "at_stage P (mf_finish i c res s) = at_stage P s"
  "at_stage P (mdone p v s) = False"
  by (simp_all add: at_stage_def split: option.split)

lemma at_stage_now:
  assumes "mpromises_ok s" and "mf_promise s p = Some y" and "\<And>v. y \<noteq> Done v"
  shows "at_stage P s = P y" and "at_stage P (mstage p x s) = P x"
  using mpending_facts(1) [OF assms] assms(2) by (simp_all add: at_stage_def)

lemma mf_join_cases:
  assumes "mf_join s = (p, s')"
  obtains "s' = s" "mf_refreshing s = Some p"
    | "mf_refreshing s = None" "p = mf_next s"
      "s' = mstage p Reading (s\<lparr>mf_next := Suc p, mf_refreshing := Some p\<rparr>)"
  using assms by (auto simp: mf_join_def split: option.splits)

lemma mrefreshes_ok_join: "mrefreshes_ok s \<Longrightarrow> mf_join s = (p, s') \<Longrightarrow> mrefreshes_ok s'"
  by (erule mf_join_cases) (auto simp: mrefreshes_ok_def at_stage_def)

lemma mrefreshes_ok_frame [simp]:
  "mrefreshes_ok (mgoto i k s) = mrefreshes_ok s" "mrefreshes_ok (msession f s) = mrefreshes_ok s"
  "mrefreshes_ok (mf_finish i c res s) = mrefreshes_ok s" "mrefreshes_ok (msend (Some i) r s) = mrefreshes_ok s"
  by (simp_all add: mrefreshes_ok_def)

lemma mrefreshes_ok_respond: "mrefreshes_ok s \<Longrightarrow> mrefreshes_ok (mf_respond i k q q1 res s)"
  by (auto simp: mf_respond_def split: prod.split dest: mrefreshes_ok_join)

lemma mrefreshes_ok_update:
  assumes "mrefreshes_ok s" and "mpromises_ok s" and "mf_promise s p = Some y" and "\<And>v. y \<noteq> Done v"
  shows "(unsent x \<Longrightarrow> unsent y) \<Longrightarrow> mrefreshes_ok (mstage p x s)" and "mrefreshes_ok (mdone p v s)"
    and "unsent y \<Longrightarrow> \<not> unsent x \<Longrightarrow> mrefreshes_ok (msend None r (mstage p x s))"
  using assms(1) at_stage_now [OF assms(2-4)] by (auto simp: mrefreshes_ok_def split: if_splits)

lemma mf_step_refreshes_ok:
  "mf_step origin ss net grant s s' \<Longrightarrow> mpromises_ok s \<Longrightarrow> mrefreshes_ok s \<Longrightarrow> mrefreshes_ok s'"
  by (induction rule: mf_step.induct)
     (auto simp: mrefreshes_ok_respond dest: mrefreshes_ok_join intro!: mrefreshes_ok_update)

lemma mf_reach_ok:
  assumes "mf_steps origin ss net grant (mf_init se) s"
  shows "mpromises_ok s \<and> mcalls_ok s \<and> mrefreshes_ok s"
  using assms
proof (induction rule: rtranclp_induct)
  case base
  show ?case
    by (simp add: mf_init_def mpromises_ok_def mcalls_ok_def mrefreshes_ok_def mpending_def mrequests_def at_stage_def)
next
  case (step s s')
  then show ?case using mf_step_promises_ok mf_step_calls_ok mf_step_refreshes_ok by blast
qed

section \<open>Rotation\<close>

text \<open>The refresh tokens the client has presented, in order.\<close>

definition sent_token :: "request \<Rightarrow> jstring option" where
  "sent_token r =
     (case rq_body r of None \<Rightarrow> None
      | Some v \<Rightarrow> (case json_get v (js ''refresh_token'') of Some (JStr t) \<Rightarrow> Some t | _ \<Rightarrow> None))"

definition presented :: "(nat option \<times> request) list \<Rightarrow> jstring option list" where
  "presented wire = map (\<lambda>x. sent_token (snd x)) (filter (\<lambda>x. fst x = None) wire)"

lemma sent_token_refresh [simp]: "sent_token (mobile_refresh_request origin t) = Some t"
  by (simp add: sent_token_def mobile_refresh_request_def)

lemma presented_snoc [simp]:
  "presented (wire @ [(None, r)]) = presented wire @ [sent_token r]"
  "presented (wire @ [(Some i, r)]) = presented wire"
  by (simp_all add: presented_def)

text \<open>
  What the backend promises (\<^verbatim>\<open>internal/auth/session.go\<close>): while every token was presented once,
  an exchange succeeds with a new pair, whose refresh token was not presented before.
\<close>

definition rotating :: "jstring \<Rightarrow> network \<Rightarrow> bool" where
  "rotating origin net =
     (\<forall>wire t out. distinct (presented wire) \<and> net wire (mobile_refresh_request origin t) out \<longrightarrow>
        (\<exists>res a u. out = Inr res \<and> rs_ok res \<and>
           body_token ''access_token'' (rs_json res) = Some a \<and> truthy a \<and>
           body_token ''refresh_token'' (rs_json res) = Some u \<and> truthy u \<and> Some u \<notin> set (presented wire)))"

definition keystore_reliable :: "'k secure_store \<Rightarrow> bool" where
  "keystore_reliable ss =
     (keystore_laws ss \<and> (\<forall>key v k. fst (ss_set ss key v k)) \<and> (\<forall>key k. fst (ss_delete ss key k)))"

fun exchanged :: "stage \<Rightarrow> bool" where
  "exchanged (Exchanging r) = True"
| "exchanged (Parsing res) = True"
| "exchanged (Writing t) = True"
| "exchanged x = False"

fun stage_ok :: "jstring \<Rightarrow> jstring option set \<Rightarrow> stage \<Rightarrow> bool" where
  "stage_ok origin P (HasRead v) = (\<forall>t. v = Some t \<and> truthy t \<longrightarrow> Some t \<notin> P)"
| "stage_ok origin P (Exchanging r) = (\<exists>t. r = mobile_refresh_request origin t)"
| "stage_ok origin P (Parsing res) =
     (truthy_opt (body_token ''access_token'' (rs_json res)) \<and>
      (\<exists>u. body_token ''refresh_token'' (rs_json res) = Some u \<and> truthy u \<and> Some u \<notin> P))"
| "stage_ok origin P (Writing t) = (truthy t \<and> Some t \<notin> P)"
| "stage_ok origin P x = True"

definition rotation_ok :: "jstring \<Rightarrow> 'k secure_store \<Rightarrow> 'k mflight \<Rightarrow> bool" where
  "rotation_ok origin ss s =
     (distinct (presented (mf_wire s)) \<and>
      (\<forall>p x. mf_promise s p = Some x \<longrightarrow> stage_ok origin (set (presented (mf_wire s))) x) \<and>
      (\<forall>t. getRefreshToken ss (mf_session s) = Some t \<and> truthy t \<and> Some t \<in> set (presented (mf_wire s)) \<longrightarrow>
         at_stage exchanged s) \<and>
      (\<forall>i t. mf_call s i \<noteq> MStoring (Some t)))"

lemma keys_kept [simp]:
  "getRefreshToken ss (setAccessToken a se) = getRefreshToken ss se"
  "getRefreshToken ss (mf_session (mf_finish i k res s)) = getRefreshToken ss (mf_session s)"
  by (simp_all add: getRefreshToken_def setAccessToken_def)

lemma keys_written:
  assumes "keystore_reliable ss"
  shows "truthy t \<Longrightarrow> getRefreshToken ss (setRefreshToken ss (Some t) se) = Some t"
    and "getRefreshToken ss (setRefreshToken ss None se) = None"
  using assms by (simp_all add: getRefreshToken_def setRefreshToken_def keystore_reliable_def keystore_laws_def)

lemma rotation_stage:
  "rotation_ok origin ss s \<Longrightarrow> mf_promise s p = Some x \<Longrightarrow> stage_ok origin (set (presented (mf_wire s))) x"
  unfolding rotation_ok_def by blast

lemma rotation_ok_frame:
  assumes "rotation_ok origin ss s"
  shows "(\<And>t. k \<noteq> MStoring (Some t)) \<Longrightarrow> rotation_ok origin ss (mgoto i k s)"
    and "rotation_ok origin ss (msend (Some i) r s)"
    and "rotation_ok origin ss (msession (setAccessToken a) s)"
    and "rotation_ok origin ss (mf_finish i c res s)"
  using assms by (simp_all add: rotation_ok_def)

lemma rotation_ok_join:
  "rotation_ok origin ss s \<Longrightarrow> mf_join s = (p, s') \<Longrightarrow> rotation_ok origin ss s'"
  by (erule mf_join_cases) (auto simp: rotation_ok_def at_stage_def)

lemma rotation_ok_respond:
  assumes "rotation_ok origin ss s"
  shows "rotation_ok origin ss (mf_respond i k q q1 res s)"
  using assms by (auto simp: mf_respond_def split: prod.split intro!: rotation_ok_frame dest: rotation_ok_join)

text \<open>A stage may change while the stored token stays, unless it leaves the exchange.\<close>

lemma rotation_ok_update:
  assumes "rotation_ok origin ss s" and "mpromises_ok s" and "mf_promise s p = Some y" and "\<And>v. y \<noteq> Done v"
  shows "stage_ok origin (set (presented (mf_wire s))) x \<Longrightarrow> (exchanged y \<Longrightarrow> exchanged x) \<Longrightarrow>
      rotation_ok origin ss (mstage p x s)"
    and "\<not> exchanged y \<Longrightarrow> rotation_ok origin ss (mdone p v s)"
  using assms(1) at_stage_now [OF assms(2-4)] by (auto simp: rotation_ok_def)

lemma rotation_ok_presents:
  assumes "rotation_ok origin ss s" and "mpromises_ok s" and p: "mf_promise s p = Some (HasRead v)" and "truthy_opt v"
    and "r = mobile_refresh_request origin (nullish v [])"
  shows "rotation_ok origin ss (msend None r (mstage p (Exchanging r) s))"
proof -
  from assms(4) obtain t where t: "v = Some t" "truthy t" by (cases v) auto
  with p assms(1) have new: "Some t \<notin> set (presented (mf_wire s))" using rotation_stage by fastforce
  have "mf_promise s p' = Some x \<Longrightarrow> p' \<noteq> p \<Longrightarrow> \<exists>b. x = Done b" for p' x
    using mpending_facts(2) [OF assms(2) p, of p'] by (auto simp: mpending_iff)
  then have "stage_ok origin P x" if "mf_promise s p' = Some x" "p' \<noteq> p" for P p' x
    using that by fastforce
  with assms(1,5) t new at_stage_now(2) [OF assms(2) p, of exchanged "Exchanging r"] show ?thesis
    by (auto simp: rotation_ok_def)
qed

lemma rotation_ok_writes:
  assumes "rotation_ok origin ss s" and "mf_promise s p = Some (Writing t)" and "keystore_reliable ss"
  shows "rotation_ok origin ss (mstage p Written (msession (setRefreshToken ss (Some t)) s))"
proof -
  have "truthy t" "Some t \<notin> set (presented (mf_wire s))" using rotation_stage [OF assms(1,2)] by auto
  with assms(1) show ?thesis by (simp add: rotation_ok_def keys_written(1) [OF assms(3)])
qed

lemma rotation_ok_stored:
  assumes "rotation_ok origin ss s" and "mf_call s i = MStoring t" and "keystore_reliable ss"
  shows "rotation_ok origin ss (mgoto i MStored (msession (setRefreshToken ss t) s))"
proof -
  have "t = None" using assms(1,2) by (cases t) (auto simp: rotation_ok_def)
  with assms(1) show ?thesis by (simp add: rotation_ok_def keys_written(2) [OF assms(3)])
qed

lemma rotating_outcome:
  assumes "rotating origin net" and "rotation_ok origin ss s" and "mf_promise s p = Some (Exchanging r)"
    and "net (mf_wire s) r out"
  shows "\<exists>res. out = Inr res \<and> rs_ok res \<and> stage_ok origin (set (presented (mf_wire s))) (Parsing res)"
proof -
  obtain t where "r = mobile_refresh_request origin t" and "distinct (presented (mf_wire s))"
    using assms(2,3) by (fastforce simp: rotation_ok_def)
  with assms(1,4) show ?thesis unfolding rotating_def by fastforce
qed

lemma mf_step_rotation_ok:
  assumes "mf_step origin ss net grant s s'" and "mpromises_ok s" and "rotation_ok origin ss s"
    and "rotating origin net" and "keystore_reliable ss" and "\<And>wire a t. \<not> grant wire a t"
  shows "rotation_ok origin ss s'"
  using assms(1-3)
proof (induction rule: mf_step.induct)
  case (reads s p)
  then have "stage_ok origin (set (presented (mf_wire s))) (HasRead (getRefreshToken ss (mf_session s)))"
    using at_stage_now(1) [of s p Reading exchanged] by (auto simp: rotation_ok_def)
  with reads show ?case by (auto intro: rotation_ok_update)
next
  case (stores s p res a t)
  then have ok: "stage_ok origin (set (presented (mf_wire s))) (Parsing res)" by (intro rotation_stage)
  have "rotation_ok origin ss (msession (setAccessToken a) s)" by (rule rotation_ok_frame(3) [OF stores.prems(2)])
  then show ?case by (rule rotation_ok_update(1) [of _ _ _ p "Parsing res"]) (use stores ok in auto)
next
  case (exchange_fails s p r m)
  then show ?case using rotating_outcome [OF assms(4)] by blast
next
  case (exchange_refused s p r res)
  then show ?case using rotating_outcome [OF assms(4)] by blast
next
  case (exchanged s p r res)
  then have "stage_ok origin (set (presented (mf_wire s))) (Parsing res)" using rotating_outcome [OF assms(4)] by blast
  with exchanged show ?case by (auto intro: rotation_ok_update)
next
  case (no_access s p res)
  then have "stage_ok origin (set (presented (mf_wire s))) (Parsing res)" by (intro rotation_stage)
  with no_access show ?case by simp
next
  case (stored s i t)
  then show ?case using rotation_ok_stored assms(5) by blast
qed (use assms(5,6) in \<open>auto intro!: rotation_ok_frame rotation_ok_respond rotation_ok_writes
       rotation_ok_presents intro: rotation_ok_update rotation_ok_join\<close>)

section \<open>Progress\<close>

definition net_serial :: "network \<Rightarrow> bool" where
  "net_serial net = (\<forall>wire r. \<exists>out. net wire r out)"

fun finished :: "mcall \<Rightarrow> bool" where
  "finished (MFinished x) = True"
| "finished (MBooted v) = True"
| "finished MStored = True"
| "finished k = False"

text \<open>A promise can settle by steps of its own, which leave the calls where they are.\<close>

definition settles :: "jstring \<Rightarrow> 'k secure_store \<Rightarrow> network \<Rightarrow> grants \<Rightarrow> nat \<Rightarrow> 'k mflight \<Rightarrow> bool" where
  "settles origin ss net grant p s =
     can_reach (mf_step origin ss net grant)
       (\<lambda>s'. mf_call s' = mf_call s \<and> (\<exists>v. mf_promise s' p = Some (Done v))) s"

lemma settles_now: "mf_promise s p = Some (Done v) \<Longrightarrow> settles origin ss net grant p s"
  unfolding settles_def by (rule can_reach_now) blast

lemma settles_step:
  "mf_step origin ss net grant s s' \<Longrightarrow> mf_call s' = mf_call s \<Longrightarrow>
   settles origin ss net grant p s' \<Longrightarrow> settles origin ss net grant p s"
  unfolding settles_def by (simp add: can_reach_step)

definition mf_can_finish :: "jstring \<Rightarrow> 'k secure_store \<Rightarrow> network \<Rightarrow> grants \<Rightarrow> nat \<Rightarrow> 'k mflight \<Rightarrow> bool" where
  "mf_can_finish origin ss net grant i s =
     can_reach (mf_step origin ss net grant) (\<lambda>s'. finished (mf_call s' i)) s"

lemma mf_can_finish_now: "finished (mf_call s i) \<Longrightarrow> mf_can_finish origin ss net grant i s"
  unfolding mf_can_finish_def by (rule can_reach_now)

lemma mf_can_finish_step:
  "mf_step origin ss net grant s s' \<Longrightarrow> mf_can_finish origin ss net grant i s' \<Longrightarrow> mf_can_finish origin ss net grant i s"
  unfolding mf_can_finish_def by (rule can_reach_step)

lemma settles_written:
  assumes "mf_promise s p = Some Written"
  shows "settles origin ss net grant p s"
  by (rule settles_step [OF mf_step.returns [OF assms]]) (auto intro: settles_now)

lemma settles_writing:
  assumes "mf_promise s p = Some (Writing t)"
  shows "settles origin ss net grant p s"
  by (rule settles_step [OF mf_step.writes [OF assms]]) (auto intro: settles_written)

lemma settles_parsing:
  assumes "mf_promise s p = Some (Parsing res)"
  shows "settles origin ss net grant p s"
proof (cases "truthy_opt (body_token ''access_token'' (rs_json res))")
  case False
  show ?thesis by (rule settles_step [OF mf_step.no_access [OF assms False]]) (auto intro: settles_now)
next
  case True
  show ?thesis
    by (rule settles_step [OF mf_step.stores [OF assms refl True refl]])
       (simp_all add: settles_written settles_writing)
qed

lemma settles_exchanging:
  assumes "mf_promise s p = Some (Exchanging r)" and "net_serial net"
  shows "settles origin ss net grant p s"
proof -
  obtain out where out: "net (mf_wire s) r out" using assms(2) unfolding net_serial_def by blast
  show ?thesis
  proof (cases out)
    case (Inl m)
    with out have net: "net (mf_wire s) r (Inl m)" by simp
    show ?thesis
      by (rule settles_step [OF mf_step.exchange_fails [where net = net, OF assms(1) net]]) (auto intro: settles_now)
  next
    case (Inr res)
    with out have net: "net (mf_wire s) r (Inr res)" by simp
    show ?thesis
    proof (cases "rs_ok res")
      case True
      show ?thesis by (rule settles_step [OF mf_step.exchanged [where net = net, OF assms(1) net True]]) (auto intro: settles_parsing)
    next
      case False
      show ?thesis by (rule settles_step [OF mf_step.exchange_refused [where net = net, OF assms(1) net False]]) (auto intro: settles_now)
    qed
  qed
qed

lemma settles_read:
  assumes "mf_promise s p = Some (HasRead v)" and "net_serial net"
  shows "settles origin ss net grant p s"
proof (cases "truthy_opt v")
  case True
  show ?thesis
    by (rule settles_step [OF mf_step.presents [OF assms(1) True refl]]) (auto intro: settles_exchanging [OF _ assms(2)])
next
  case False
  show ?thesis by (rule settles_step [OF mf_step.no_token [OF assms(1) False]]) (auto intro: settles_now)
qed

lemma settles_any:
  assumes "mf_promise s p = Some x" and "net_serial net"
  shows "settles origin ss net grant p s"
proof (cases x)
  case Reading
  then have "mf_promise s p = Some Reading" using assms(1) by simp
  from mf_step.reads [OF this] show ?thesis
    by (rule settles_step) (auto intro: settles_read [OF _ assms(2)])
qed (use assms in \<open>simp_all add: settles_now settles_read settles_exchanging settles_parsing settles_writing settles_written\<close>)

lemma finishes_retried:
  assumes "mf_call s i = MRetried k q2" and "net_serial net"
  shows "mf_can_finish origin ss net grant i s"
proof -
  obtain out where out: "net (mf_wire s) q2 out" using assms(2) unfolding net_serial_def by blast
  show ?thesis
  proof (cases out)
    case (Inl m)
    with out have net: "net (mf_wire s) q2 (Inl m)" by simp
    show ?thesis
      by (rule mf_can_finish_step [OF mf_step.retry_fails [where net = net, OF assms(1) net]])
         (simp add: mf_can_finish_now)
  next
    case (Inr res)
    with out have net: "net (mf_wire s) q2 (Inr res)" by simp
    show ?thesis
      by (rule mf_can_finish_step [OF mf_step.retry_responds [where net = net, OF assms(1) net]])
         (simp add: mf_can_finish_now)
  qed
qed

lemma finishes_settled:
  assumes "waits_for (mf_call s i) = Some p" and "mf_promise s p = Some (Done v)" and "net_serial net"
  shows "mf_can_finish origin ss net grant i s"
proof (cases "mf_call s i")
  case (MWaiting k q q1 res p')
  with assms(1) have w: "mf_call s i = MWaiting k q q1 res p" by simp
  show ?thesis
  proof (cases v)
    case True
    with assms(2) have d: "mf_promise s p = Some (Done True)" by simp
    show ?thesis
      by (rule mf_can_finish_step [OF mf_step.retries [OF w d refl]], rule finishes_retried [OF _ assms(3)]) simp
  next
    case False
    with assms(2) have d: "mf_promise s p = Some (Done False)" by simp
    show ?thesis by (rule mf_can_finish_step [OF mf_step.gives_up [OF w d]]) (simp add: mf_can_finish_now)
  qed
next
  case (MBoot p')
  with assms(1) have b: "mf_call s i = MBoot p" by simp
  show ?thesis by (rule mf_can_finish_step [OF mf_step.booted [OF b assms(2)]]) (simp add: mf_can_finish_now)
qed (use assms(1) in simp_all)

lemma finishes_waiting:
  assumes "mpromises_ok s" and "mcalls_ok s" and "waits_for (mf_call s i) = Some p" and "net_serial net"
  shows "mf_can_finish origin ss net grant i s"
proof -
  have "p < mf_next s" using assms(2,3) by (simp add: mcalls_ok_def)
  moreover have "mf_promise s p = None \<longleftrightarrow> mf_next s \<le> p" using assms(1) by (simp add: mpromises_ok_def)
  ultimately obtain x where "mf_promise s p = Some x" by (cases "mf_promise s p") auto
  then have "settles origin ss net grant p s" using assms(4) by (rule settles_any)
  then show ?thesis unfolding settles_def mf_can_finish_def
    by (rule can_reach_trans)
       (use assms(3) finishes_settled [OF _ _ assms(4), unfolded mf_can_finish_def] in metis)
qed

lemma finishes_sent:
  assumes "mpromises_ok s" and "mcalls_ok s" and "mf_call s i = MSent k q q1" and "net_serial net"
  shows "mf_can_finish origin ss net grant i s"
proof -
  obtain out where out: "net (mf_wire s) q1 out" using assms(4) unfolding net_serial_def by blast
  show ?thesis
  proof (cases out)
    case (Inl m)
    with out have net: "net (mf_wire s) q1 (Inl m)" by simp
    show ?thesis
      by (rule mf_can_finish_step [OF mf_step.fails [where net = net, OF assms(3) net]])
         (simp add: mf_can_finish_now)
  next
    case (Inr res)
    with out have net: "net (mf_wire s) q1 (Inr res)" by simp
    let ?s' = "mf_respond i k q q1 res s"
    have st: "mf_step origin ss net grant s ?s'" by (rule mf_step.responds [where net = net, OF assms(3) net])
    note ok = mf_step_promises_ok [OF st assms(1)] mf_step_calls_ok [OF st assms(1,2)]
    have "finished (mf_call ?s' i) \<or> (\<exists>p. waits_for (mf_call ?s' i) = Some p)"
      by (simp add: mf_respond_def split: prod.split)
    then show ?thesis
      using finishes_waiting [OF ok _ assms(4)] mf_can_finish_now mf_can_finish_step [OF st] by blast
  qed
qed

section \<open>A call on its own\<close>

text \<open>
  The functions of \<open>MobileClient\<close> run one call to its end. Each is a run of the
  interleaved model, step by step: the same requests in the same order, the same
  session, the same result. \<open>traced f\<close> continues the requests already sent.
\<close>

definition sent :: "'k mflight \<Rightarrow> request list" where
  "sent s = map snd (mf_wire s)"

lemma sent_simps [simp]:
  "sent (mgoto i k s) = sent s" "sent (mstage p x s) = sent s" "sent (msession g s) = sent s"
  "sent (mdone p v s) = sent s" "sent (mf_finish i c res s) = sent s" "sent (msend u r s) = sent s @ [r]"
  by (simp_all add: sent_def)

text \<open>A run of the promise \<open>p\<close> alone, to its end.\<close>

definition runs_to :: "jstring \<Rightarrow> 'k secure_store \<Rightarrow> network \<Rightarrow> grants \<Rightarrow> nat \<Rightarrow> 'k mflight \<Rightarrow>
    bool \<Rightarrow> 'k session \<Rightarrow> request list \<Rightarrow> bool" where
  "runs_to origin ss net grant p s v se tr =
     (\<exists>s'. mf_steps origin ss net grant s s' \<and> mf_promise s' p = Some (Done v) \<and> mf_refreshing s' = None \<and>
        mf_call s' = mf_call s \<and> mf_session s' = se \<and> sent s' = tr)"

lemma runs_to_done: "runs_to origin ss net grant p (mdone p v s) v (mf_session s) (sent s)"
  unfolding runs_to_def by (rule exI [of _ "mdone p v s"]) simp

lemma runs_to_step:
  assumes "mf_step origin ss net grant s s1" and "runs_to origin ss net grant p s1 v se tr" and "mf_call s1 = mf_call s"
  shows "runs_to origin ss net grant p s v se tr"
  using assms unfolding runs_to_def by (metis converse_rtranclp_into_rtranclp)

lemma runs_to_end:
  assumes "mf_step origin ss net grant s (mdone p v s)" and "se = mf_session s" and "tr = sent s"
  shows "runs_to origin ss net grant p s v se tr"
  unfolding assms(2,3) by (rule runs_to_step [OF assms(1) runs_to_done]) simp

lemma runs_to_parsing:
  assumes "mf_promise s p = Some (Parsing res)" and "a = body_token ''access_token'' (rs_json res)" and "truthy_opt a"
  shows "runs_to origin ss net grant p s True
    (saveSession ss (nullish a []) (body_token ''refresh_token'' (rs_json res)) (mf_session s)) (sent s)"
proof -
  let ?t = "body_token ''refresh_token'' (rs_json res)"
  let ?s1 = "mstage p (if truthy_opt ?t then Writing (nullish ?t []) else Written) (msession (setAccessToken a) s)"
  let ?se = "saveSession ss (nullish a []) ?t (mf_session s)"
  have a: "a = Some (nullish a [])" using assms(3) by (cases a) auto
  have "runs_to origin ss net grant p ?s1 True ?se (sent s)"
  proof (cases "truthy_opt ?t")
    case True
    then have t: "?t = Some (nullish ?t [])" by (cases ?t) auto
    let ?s2 = "mstage p Written (msession (setRefreshToken ss (Some (nullish ?t []))) ?s1)"
    have "mf_step origin ss net grant ?s1 ?s2" by (rule mf_step.writes) (simp add: True)
    moreover have "runs_to origin ss net grant p ?s2 True ?se (sent s)"
      using a t True by (intro runs_to_end mf_step.returns) (simp_all add: saveSession_def Let_def)
    ultimately show ?thesis by (rule runs_to_step) simp
  next
    case False
    then show ?thesis using a
      by (intro runs_to_end mf_step.returns) (simp_all add: saveSession_def Let_def)
  qed
  then show ?thesis by (rule runs_to_step [OF mf_step.stores [OF assms refl]]) simp
qed

text \<open>What the refresh function makes of the outcome of its request.\<close>

definition exchange_result :: "'k secure_store \<Rightarrow> jstring + response \<Rightarrow> 'k session \<Rightarrow> bool \<times> 'k session" where
  "exchange_result ss out se =
     (case out of
        Inl m \<Rightarrow> (False, se)
      | Inr res \<Rightarrow>
          if rs_ok res \<and> truthy_opt (body_token ''access_token'' (rs_json res))
          then (True, saveSession ss (nullish (body_token ''access_token'' (rs_json res)) [])
                  (body_token ''refresh_token'' (rs_json res)) se)
          else (False, se))"

lemma mobile_refreshSession_exchange:
  assumes "truthy_opt (getRefreshToken ss se)"
  shows "mobile_refreshSession origin ss f se w =
    (case f (mobile_refresh_request origin (nullish (getRefreshToken ss se) [])) w of
       (out, w') \<Rightarrow> (fst (exchange_result ss out se), snd (exchange_result ss out se), w'))"
  using assms by (simp add: mobile_refreshSession_def exchange_result_def split: prod.split sum.split)

lemma runs_to_exchanging:
  assumes p: "mf_promise s p = Some (Exchanging r)" and net: "net (mf_wire s) r out"
  shows "runs_to origin ss net grant p s (fst (exchange_result ss out (mf_session s)))
    (snd (exchange_result ss out (mf_session s))) (sent s)"
proof (cases out)
  case (Inl m)
  with net mf_step.exchange_fails [where net = net, OF p, of m] show ?thesis
    by (intro runs_to_end) (simp_all add: exchange_result_def)
next
  case (Inr res)
  show ?thesis
  proof (cases "rs_ok res")
    case False
    with Inr net mf_step.exchange_refused [where net = net, OF p, of res] show ?thesis
      by (intro runs_to_end) (simp_all add: exchange_result_def)
  next
    case True
    let ?s' = "mstage p (Parsing res) s" and ?a = "body_token ''access_token'' (rs_json res)"
    have st: "mf_step origin ss net grant s ?s'"
      by (rule mf_step.exchanged [where net = net, OF p _ True]) (use net Inr in simp)
    have p': "mf_promise ?s' p = Some (Parsing res)" by simp
    have "runs_to origin ss net grant p ?s' (fst (exchange_result ss out (mf_session s)))
        (snd (exchange_result ss out (mf_session s))) (sent s)"
    proof (cases "truthy_opt ?a")
      case a: True
      show ?thesis using runs_to_parsing [OF p' refl a, of origin ss net grant] Inr True a
        by (simp add: exchange_result_def)
    next
      case False
      show ?thesis using mf_step.no_access [OF p' False] Inr True False
        by (intro runs_to_end) (simp_all add: exchange_result_def)
    qed
    then show ?thesis by (rule runs_to_step [OF st]) simp
  qed
qed

lemma runs_to_refresh:
  assumes "mf_promise s p = Some Reading" and net: "\<And>wire r w. net wire r (fst (f r w))"
    and run: "mobile_refreshSession origin ss (traced f) (mf_session s) (w, sent s) = (v, se, w', tr)"
  shows "runs_to origin ss net grant p s v se tr"
proof -
  let ?v = "getRefreshToken ss (mf_session s)"
  let ?s1 = "mstage p (HasRead ?v) s"
  have p1: "mf_promise ?s1 p = Some (HasRead ?v)" by simp
  have "runs_to origin ss net grant p ?s1 v se tr"
  proof (cases "truthy_opt ?v")
    case False
    with run have "v = False" "se = mf_session s" "tr = sent s" by (simp_all add: mobile_refreshSession_def)
    then show ?thesis using mf_step.no_token [OF p1 False] by (intro runs_to_end) simp_all
  next
    case True
    let ?r = "mobile_refresh_request origin (nullish ?v [])"
    let ?s2 = "msend None ?r (mstage p (Exchanging ?r) ?s1)"
    have "runs_to origin ss net grant p ?s2 v se tr"
      using runs_to_exchanging [where net = net, of ?s2 p ?r "fst (f ?r w)" origin ss grant] net run
      by (simp add: mobile_refreshSession_exchange [OF True])
    then show ?thesis by (rule runs_to_step [OF mf_step.presents [OF p1 True refl]]) simp
  qed
  then show ?thesis by (rule runs_to_step [OF mf_step.reads [OF assms(1)]]) simp
qed

text \<open>The two wrappers as one function of the kind of client, and as the steps see it.\<close>

fun sequential :: "client_kind \<Rightarrow> jstring \<Rightarrow> 'k secure_store \<Rightarrow> 'w fetch \<Rightarrow> request \<Rightarrow> 'k session \<Rightarrow> 'w
    \<Rightarrow> (thrown + response) \<times> 'k session \<times> 'w" where
  "sequential (Typed_client rid) origin ss f q se w = mobile_apiFetch origin ss f rid q se w"
| "sequential Direct_client origin ss f q se w = authedFetch origin ss f q se w"

fun end_call :: "client_kind \<Rightarrow> response \<Rightarrow> 'k session \<Rightarrow> 'k session" where
  "end_call (Typed_client rid) res se = fst (snd (mobile_finish res se ()))"
| "end_call Direct_client res se = se"

lemma mf_session_finish: "mf_session (mf_finish i k res s) = end_call k res (mf_session s)"
  by (cases k) (simp_all add: mf_finish_def)

definition recovered :: "client_kind \<Rightarrow> request \<Rightarrow> request \<Rightarrow> response \<Rightarrow> jstring \<Rightarrow> 'k secure_store \<Rightarrow> 'w fetch \<Rightarrow>
    'k session \<Rightarrow> 'w \<Rightarrow> (thrown + response) \<times> 'k session \<times> 'w" where
  "recovered k q q1 res origin ss f se w =
     (case mobile_refreshSession origin ss f se w of
        (True, se2, w2) \<Rightarrow>
          (case f (second_request k (getAccessToken se2) q q1) w2 of
             (Inl m, w3) \<Rightarrow> (Inl (JsError m), se2, w3)
           | (Inr res2, w3) \<Rightarrow> (Inr res2, end_call k res2 se2, w3))
      | (False, se2, w2) \<Rightarrow> (Inr res, end_call k res se2, w2))"

lemma sequential_eq:
  "sequential k origin ss f q se w =
     (let q1 = first_request k (getAccessToken se) q in
      case f q1 w of
        (Inl m, w1) \<Rightarrow> (Inl (JsError m), se, w1)
      | (Inr res, w1) \<Rightarrow>
          if rs_status res = 401 \<and> \<not> refresh_exempt k q
          then recovered k q q1 res origin ss f se w1
          else (Inr res, end_call k res se, w1))"
proof (cases k)
  case (Typed_client rid)
  show ?thesis unfolding Typed_client
    by (simp add: mobile_apiFetch_def recovered_def Let_def mobile_finish_def split: sum.split prod.split bool.split)
next
  case Direct_client
  show ?thesis unfolding Direct_client
    by (simp add: authedFetch_def recovered_def Let_def split: sum.split prod.split bool.split)
qed

definition completes :: "jstring \<Rightarrow> 'k secure_store \<Rightarrow> network \<Rightarrow> grants \<Rightarrow> nat \<Rightarrow> 'k mflight \<Rightarrow>
    mcall \<Rightarrow> 'k session \<Rightarrow> request list \<Rightarrow> bool" where
  "completes origin ss net grant i s k se tr =
     (\<exists>s'. mf_steps origin ss net grant s s' \<and> mf_call s' = (mf_call s)(i := k) \<and> mf_refreshing s' = None \<and>
        mf_session s' = se \<and> sent s' = tr)"

lemma completes_now:
  "mf_refreshing s = None \<Longrightarrow> mf_call s i = k \<Longrightarrow> se = mf_session s \<Longrightarrow> tr = sent s \<Longrightarrow>
   completes origin ss net grant i s k se tr"
  unfolding completes_def by (rule exI [of _ s]) auto

lemma completes_step:
  assumes "mf_step origin ss net grant s s1" and "completes origin ss net grant i s1 k se tr"
    and "mf_call s1 = (mf_call s)(i := k1)"
  shows "completes origin ss net grant i s k se tr"
  using assms unfolding completes_def by (metis (no_types) converse_rtranclp_into_rtranclp fun_upd_upd)

lemma completes_runs_to:
  assumes "runs_to origin ss net grant p s v se1 tr1"
    and "\<And>s1. mf_promise s1 p = Some (Done v) \<Longrightarrow> mf_refreshing s1 = None \<Longrightarrow> mf_call s1 = mf_call s \<Longrightarrow>
      mf_session s1 = se1 \<Longrightarrow> sent s1 = tr1 \<Longrightarrow> completes origin ss net grant i s1 k se tr"
  shows "completes origin ss net grant i s k se tr"
  using assms unfolding runs_to_def completes_def by (metis (no_types) rtranclp_trans)

lemma completes_retry:
  assumes "mf_call s i = MWaiting k q q1 res p" and "mf_promise s p = Some (Done True)" and "mf_refreshing s = None"
    and net: "\<And>wire r w. net wire r (fst (f r w))" and "q2 = second_request k (getAccessToken (mf_session s)) q q1"
  shows "completes origin ss net grant i s
    (MFinished (case fst (f q2 w) of Inl m \<Rightarrow> Inl (JsError m) | Inr res2 \<Rightarrow> Inr res2))
    (case fst (f q2 w) of Inl m \<Rightarrow> mf_session s | Inr res2 \<Rightarrow> end_call k res2 (mf_session s)) (sent s @ [q2])"
proof -
  let ?s1 = "msend (Some i) q2 (mgoto i (MRetried k q2) s)"
  have c1: "mf_call ?s1 i = MRetried k q2" by simp
  have n: "net (mf_wire ?s1) q2 (fst (f q2 w))" by (rule net)
  have "completes origin ss net grant i ?s1
    (MFinished (case fst (f q2 w) of Inl m \<Rightarrow> Inl (JsError m) | Inr res2 \<Rightarrow> Inr res2))
    (case fst (f q2 w) of Inl m \<Rightarrow> mf_session s | Inr res2 \<Rightarrow> end_call k res2 (mf_session s)) (sent s @ [q2])"
  proof (cases "fst (f q2 w)")
    case (Inl m)
    with n have "net (mf_wire ?s1) q2 (Inl m)" by simp
    from mf_step.retry_fails [where net = net, OF c1 this] show ?thesis
      by (rule completes_step) (simp_all add: completes_now Inl assms(3))
  next
    case (Inr res2)
    with n have "net (mf_wire ?s1) q2 (Inr res2)" by simp
    from mf_step.retry_responds [where net = net, OF c1 this] show ?thesis
      by (rule completes_step) (simp_all add: completes_now Inr assms(3) mf_session_finish)
  qed
  then show ?thesis by (rule completes_step [OF mf_step.retries [OF assms(1,2,5)]]) simp
qed

lemma completes_waiting:
  assumes c: "mf_call s i = MWaiting k q q1 res p" and p: "mf_promise s p = Some Reading"
    and net: "\<And>wire r w. net wire r (fst (f r w))"
    and run: "recovered k q q1 res origin ss (traced f) (mf_session s) (w, sent s) = (x, se, w', tr)"
  shows "completes origin ss net grant i s (MFinished x) se tr"
proof -
  obtain v se1 w1 tr1 where ref:
      "mobile_refreshSession origin ss (traced f) (mf_session s) (w, sent s) = (v, se1, w1, tr1)"
    by (metis surj_pair)
  have "runs_to origin ss net grant p s v se1 tr1"
    by (rule runs_to_refresh [where f = f and net = net, OF p net ref])
  then show ?thesis
  proof (rule completes_runs_to)
    fix s' assume s': "mf_promise s' p = Some (Done v)" "mf_refreshing s' = None" "mf_call s' = mf_call s"
      "mf_session s' = se1" "sent s' = tr1"
    then have c': "mf_call s' i = MWaiting k q q1 res p" using c by simp
    show "completes origin ss net grant i s' (MFinished x) se tr"
    proof (cases v)
      case True
      let ?q2 = "second_request k (getAccessToken se1) q q1"
      from run ref True
      have eqs: "MFinished x = MFinished (case fst (f ?q2 w1) of Inl m \<Rightarrow> Inl (JsError m) | Inr r2 \<Rightarrow> Inr r2)"
          "se = (case fst (f ?q2 w1) of Inl m \<Rightarrow> se1 | Inr r2 \<Rightarrow> end_call k r2 se1)" "tr = tr1 @ [?q2]"
        by (cases "fst (f ?q2 w1)"; auto simp: recovered_def)+
      have d: "mf_promise s' p = Some (Done True)" using s'(1) True by simp
      show ?thesis unfolding eqs
        by (rule completes_retry [where f = f and net = net and w = w1, OF c' d s'(2) net refl,
              of origin ss grant, unfolded s'(4,5)])
    next
      case False
      with run ref have "x = Inr res" "se = end_call k res se1" "tr = tr1" by (auto simp: recovered_def)
      with s' False show ?thesis
        by (intro completes_step [OF mf_step.gives_up [OF c'] completes_now mf_finish_simps(5)])
           (simp_all add: mf_session_finish)
    qed
  qed
qed

lemma completes_respond:
  assumes c: "mf_call s i = MSent k q q1" and free: "mf_refreshing s = None"
    and net: "\<And>wire r w. net wire r (fst (f r w))" and n: "net (mf_wire s) q1 (Inr res)"
    and run: "(if rs_status res = 401 \<and> \<not> refresh_exempt k q
        then recovered k q q1 res origin ss (traced f) (mf_session s) (w, sent s)
        else (Inr res, end_call k res (mf_session s), w, sent s)) = (x, se, w', tr)"
  shows "completes origin ss net grant i s (MFinished x) se tr"
proof (cases "rs_status res = 401 \<and> \<not> refresh_exempt k q")
  case False
  then have resp: "mf_respond i k q q1 res s = mf_finish i k res s" by (auto simp: mf_respond_def)
  have "x = Inr res" "se = end_call k res (mf_session s)" "tr = sent s" using run False by auto
  then show ?thesis
    by (intro completes_step [OF mf_step.responds [where net = net, OF c n, unfolded resp]
          completes_now mf_finish_simps(5)]) (simp_all add: free mf_session_finish)
next
  case True
  let ?p = "mf_next s"
  let ?s' = "mgoto i (MWaiting k q q1 res ?p) (snd (mf_join s))"
  have resp: "mf_respond i k q q1 res s = ?s'" using True free by (simp add: mf_respond_def mf_join_def)
  have s': "mf_promise ?s' ?p = Some Reading" "mf_call ?s' i = MWaiting k q q1 res ?p"
      "mf_call ?s' = (mf_call s)(i := MWaiting k q q1 res ?p)"
    using free by (simp_all add: mf_join_def)
  have "mf_session ?s' = mf_session s" "sent ?s' = sent s" using free by (simp_all add: mf_join_def sent_def)
  then have "recovered k q q1 res origin ss (traced f) (mf_session ?s') (w, sent ?s') = (x, se, w', tr)"
    using run True by simp
  then have "completes origin ss net grant i ?s' (MFinished x) se tr"
    by (rule completes_waiting [where f = f and net = net, OF s'(2,1) net])
  then show ?thesis
    by (rule completes_step [OF mf_step.responds [where net = net, OF c n, unfolded resp]]) (rule s'(3))
qed

lemma completes_call:
  assumes idle: "mf_call s i = MIdle" and free: "mf_refreshing s = None"
    and net: "\<And>wire r w. net wire r (fst (f r w))"
    and run: "sequential k origin ss (traced f) q (mf_session s) (w, sent s) = (x, se, w', tr)"
  shows "completes origin ss net grant i s (MFinished x) se tr"
proof -
  let ?q1 = "first_request k (getAccessToken (mf_session s)) q"
  let ?s1 = "msend (Some i) ?q1 (mgoto i (MSent k q ?q1) s)"
  obtain out w1 where out: "f ?q1 w = (out, w1)" by (metis surj_pair)
  have c1: "mf_call ?s1 i = MSent k q ?q1" and free1: "mf_refreshing ?s1 = None" using free by simp_all
  have n: "net (mf_wire ?s1) ?q1 out" using net [of _ ?q1 w] out by simp
  have "completes origin ss net grant i ?s1 (MFinished x) se tr"
  proof (cases out)
    case (Inl m)
    then have "net (mf_wire ?s1) ?q1 (Inl m)" using n by simp
    note st = mf_step.fails [where net = net, OF c1 this, of origin ss grant]
    have "x = Inl (JsError m)" "se = mf_session s" "tr = sent s @ [?q1]"
      using run out Inl by (auto simp: sequential_eq Let_def)
    then show ?thesis by (intro completes_step [OF st completes_now mf_simps(6)]) (simp_all add: free)
  next
    case (Inr res)
    then have n': "net (mf_wire ?s1) ?q1 (Inr res)" using n by simp
    show ?thesis
      by (rule completes_respond [where f = f and net = net and w = w1 and w' = w', OF c1 free1 net n'])
         (use run out Inr in \<open>auto simp: sequential_eq Let_def split: if_splits\<close>)
  qed
  then show ?thesis by (rule completes_step [OF mf_step.start [OF idle refl]]) simp
qed

section \<open>A sample network\<close>

text \<open>
  A server that rejects every other request and exchanges every refresh token for a longer one
  than any presented before, and a cold start against it: the bootstrap hook and a direct call.
\<close>

definition fresh_token :: "(nat option \<times> request) list \<Rightarrow> jstring" where
  "fresh_token wire = replicate (Suc (sum_list (map (\<lambda>t. length (nullish t [])) (presented wire)))) 97"

definition rotating_server :: network where
  "rotating_server wire r out =
     (out = Inr (if is_mobile_refresh (js ''http://h'') r
        then \<lparr>rs_status = 200, rs_json = Some (JObj [(js ''data'',
                JObj [(js ''access_token'', JStr (js ''a2'')), (js ''refresh_token'', JStr (fresh_token wire))])]),
              rs_request_id = None\<rparr>
        else \<lparr>rs_status = 401, rs_json = None, rs_request_id = None\<rparr>))"

lemma fresh_token_new: "Some (fresh_token wire) \<notin> set (presented wire)"
proof
  assume "Some (fresh_token wire) \<in> set (presented wire)"
  then have "length (nullish (Some (fresh_token wire)) []) \<le> sum_list (map (\<lambda>t. length (nullish t [])) (presented wire))"
    by (intro member_le_sum_list) (auto simp: image_iff intro: bexI [of _ "Some (fresh_token wire)"])
  then show False by (simp add: fresh_token_def)
qed

lemma rotating_server_rotates: "rotating (js ''http://h'') rotating_server"
  unfolding rotating_def rotating_server_def
  using fresh_token_new
  by (simp add: is_mobile_refresh_def mobile_refresh_request_def rs_ok_def body_token_def)
     (simp add: fresh_token_def)

lemma rotating_server_serial: "net_serial rotating_server"
  by (simp add: net_serial_def rotating_server_def)

lemma map_store_reliable: "keystore_reliable map_store"
  using map_store_laws by (simp add: keystore_reliable_def map_store_def)

text \<open>The bootstrap and a direct call that was answered 401 wait for one refresh, which has sent its request.\<close>

definition cold_flight :: "(jstring \<rightharpoonup> jstring) mflight" where
  "cold_flight =
     (let s1 = mgoto 0 (MBoot 0) (snd (mf_join (mf_init stale_session)));
          q1 = first_request Direct_client (getAccessToken (mf_session s1)) mobile_get;
          s2 = msend (Some 1) q1 (mgoto 1 (MSent Direct_client mobile_get q1) s1);
          s3 = mgoto 1 (MWaiting Direct_client mobile_get q1 \<lparr>rs_status = 401, rs_json = None, rs_request_id = None\<rparr> 0) s2;
          s4 = mstage 0 (HasRead (Some (js ''r1''))) s3;
          r = mobile_refresh_request (js ''http://h'') (js ''r1'')
      in msend None r (mstage 0 (Exchanging r) s4))"

lemma cold_flight_reached:
  "mf_steps (js ''http://h'') map_store rotating_server (\<lambda>_ _ _. False) (mf_init stale_session) cold_flight"
proof -
  let ?st = "mf_step (js ''http://h'') map_store rotating_server (\<lambda>_ _ _. False)"
  let ?i = "mf_init stale_session"
  define s1 where "s1 = mgoto 0 (MBoot 0) (snd (mf_join ?i))"
  define q1 where "q1 = first_request Direct_client (getAccessToken (mf_session s1)) mobile_get"
  define s2 where "s2 = msend (Some 1) q1 (mgoto 1 (MSent Direct_client mobile_get q1) s1)"
  define res :: response where "res = \<lparr>rs_status = 401, rs_json = None, rs_request_id = None\<rparr>"
  define s3 where "s3 = mgoto 1 (MWaiting Direct_client mobile_get q1 res 0) s2"
  define s4 where "s4 = mstage 0 (HasRead (Some (js ''r1''))) s3"
  define r where "r = mobile_refresh_request (js ''http://h'') (js ''r1'')"
  have fields: "mf_call s1 1 = MIdle" "mf_refreshing s1 = Some 0" "mf_promise s1 0 = Some Reading"
      "mf_session s1 = stale_session"
    by (simp_all add: s1_def mf_join_def mf_init_def)
  have 1: "?st ?i s1" unfolding s1_def by (rule mf_step.boots) (simp_all add: mf_init_def mf_join_def)
  have 2: "?st s1 s2" unfolding s2_def by (rule mf_step.start [OF fields(1) q1_def])
  have "rq_url q1 = js ''http://h/api/v1/posts''" by (simp add: q1_def with_bearer_def mobile_get_def)
  then have "rotating_server w q1 (Inr res)" for w
    by (simp add: rotating_server_def is_mobile_refresh_def res_def js_append [symmetric])
  then have "?st s2 (mf_respond 1 Direct_client mobile_get q1 res s2)"
    by (intro mf_step.responds) (simp_all add: s2_def)
  moreover have "mf_respond 1 Direct_client mobile_get q1 res s2 = s3"
    by (simp add: mf_respond_def s3_def res_def mf_join_def s2_def fields)
  ultimately have 3: "?st s2 s3" by simp
  have tok: "getRefreshToken map_store (mf_session s3) = Some (js ''r1'')"
    by (simp add: s3_def s2_def fields getRefreshToken_def map_store_def stale_session_def)
  have 4: "?st s3 s4" unfolding s4_def tok [symmetric] by (rule mf_step.reads) (simp add: s3_def s2_def fields)
  have 5: "?st s4 (msend None r (mstage 0 (Exchanging r) s4))"
    by (rule mf_step.presents [of _ _ "Some (js ''r1'')"]) (simp_all add: s4_def r_def)
  have "cold_flight = msend None r (mstage 0 (Exchanging r) s4)"
    by (simp add: cold_flight_def Let_def s1_def s2_def s3_def s4_def q1_def r_def res_def)
  note into = rtranclp.rtrancl_into_rtrancl [where r = ?st]
  show ?thesis unfolding \<open>cold_flight = _\<close>
    by (rule into [OF into [OF into [OF into [OF r_into_rtranclp [where r = ?st, OF 1] 2] 3] 4] 5])
qed

lemma cold_flight_fields [simp]:
  "mf_call cold_flight 0 = MBoot 0" "waits_for (mf_call cold_flight 1) = Some 0" "mf_call cold_flight 2 = MIdle"
  "mf_refreshing cold_flight = Some 0"
  "mf_promise cold_flight 0 = Some (Exchanging (mobile_refresh_request (js ''http://h'') (js ''r1'')))"
  "presented (mf_wire cold_flight) = [Some (js ''r1'')]"
  by (simp_all add: cold_flight_def Let_def mf_join_def mf_init_def)
     (simp add: presented_def sent_token_def mobile_refresh_request_def)

section \<open>Properties\<close>

text \<open>
  C12. Single flight on mobile: however calls of the typed client, direct calls, the bootstrap
  hook, sign-ins and sign-outs interleave, the variable \<open>refreshing\<close> holds a promise exactly
  while that promise is unsettled (so a failed refresh never blocks later ones), at most one is
  unsettled at any time, all who wait for an unsettled refresh wait for the same one, a
  call sends at most two requests of its own, and every promise sends at most one refresh.
\<close>

theorem mobile_single_flight:
  assumes "mf_steps origin ss net grant (mf_init se) s"
  shows "(mf_refreshing s = Some p \<longleftrightarrow> mpending s p) \<and>
    (mpending s p \<and> mpending s p' \<longrightarrow> p = p') \<and>
    (waits_for (mf_call s i) = Some p \<and> waits_for (mf_call s j) = Some p' \<and> mpending s p \<and> mpending s p' \<longrightarrow> p = p') \<and>
    length (mrequests (Some i) s) \<le> 2 \<and> length (mrequests None s) \<le> mf_next s"
proof -
  from mf_reach_ok [OF assms] have ok: "mpromises_ok s" "mcalls_ok s" "mrefreshes_ok s" by auto
  have "msends_ok (mf_call s i) (length (mrequests (Some i) s))" using ok(2) by (simp add: mcalls_ok_def)
  then have "length (mrequests (Some i) s) \<le> 2" by (cases "mf_call s i") auto
  with ok show ?thesis by (auto simp: mpromises_ok_def mrefreshes_ok_def split: if_splits)
qed

theorem mobile_single_flight_witness:
  "waits_for (mf_call cold_flight 0) = Some 0 \<and> waits_for (mf_call cold_flight 1) = Some 0 \<and>
   mpending cold_flight 0 \<and> length (mrequests None cold_flight) \<le> mf_next cold_flight"
  using mobile_single_flight [OF cold_flight_reached, of 0] by (simp del: One_nat_def)

text \<open>
  C3. A refresh token is presented at most once: the backend invalidates a token when it
  exchanges it, so presenting one twice would end the session. As long as exchanges of
  tokens presented once succeed with new pairs, the Keystore resolves and nobody signs in anew, no
  interleaving of calls, direct calls, bootstraps and sign-outs presents the same token twice.
\<close>

theorem refresh_tokens_presented_once:
  assumes "rotating origin net" and "keystore_reliable ss" and "\<And>wire a t. \<not> grant wire a t"
    and "mf_steps origin ss net grant (mf_init se) s"
  shows "distinct (presented (mf_wire s))"
proof -
  have "rotation_ok origin ss s"
    using assms(4)
  proof (induction rule: rtranclp_induct)
    case base
    show ?case by (simp add: mf_init_def rotation_ok_def presented_def)
  next
    case (step s s')
    with mf_reach_ok mf_step_rotation_ok assms(1-3) show ?case by blast
  qed
  then show ?thesis by (simp add: rotation_ok_def)
qed

theorem refresh_tokens_presented_once_witness:
  "presented (mf_wire cold_flight) = [Some (js ''r1'')] \<and> distinct (presented (mf_wire cold_flight))"
  using refresh_tokens_presented_once [OF rotating_server_rotates map_store_reliable _ cold_flight_reached] by simp

text \<open>
  C9. The sequential functions are runs of the interleaved model: when no refresh is under way,
  a call of the typed client or of \<open>authedFetch\<close> that nothing interrupts reaches, by its own
  steps, the result, the session (tokens, Keystore and log) and the requests in the order that
  \<open>mobile_apiFetch\<close> and \<open>authedFetch\<close> compute, with any server whose answers the network
  allows, and leaves the other calls and the variable \<open>refreshing\<close> as they were.
\<close>

theorem sequential_calls_are_runs:
  assumes "mf_call s i = MIdle" and "mf_refreshing s = None" and "\<And>wire r w. net wire r (fst (f r w))"
  shows "(mobile_apiFetch origin ss (traced f) rid q (mf_session s) (w, sent s) = (x, se, w', tr) \<longrightarrow>
      (\<exists>s'. mf_steps origin ss net grant s s' \<and> mf_call s' = (mf_call s)(i := MFinished x) \<and>
         mf_refreshing s' = None \<and> mf_session s' = se \<and> sent s' = tr)) \<and>
    (authedFetch origin ss (traced f) q (mf_session s) (w, sent s) = (x, se, w', tr) \<longrightarrow>
      (\<exists>s'. mf_steps origin ss net grant s s' \<and> mf_call s' = (mf_call s)(i := MFinished x) \<and>
         mf_refreshing s' = None \<and> mf_session s' = se \<and> sent s' = tr))"
  using completes_call [where f = f and net = net and k = "Typed_client rid", OF assms]
    completes_call [where f = f and net = net and k = Direct_client, OF assms]
  unfolding completes_def sequential.simps by blast

theorem sequential_calls_are_runs_witness:
  "\<exists>s'. mf_steps (js ''http://h'') map_store (\<lambda>_ _ _. True) (\<lambda>_ _ _. False) (mf_init stale_session) s' \<and>
     mf_call s' 0 = MFinished (fst (mobile_apiFetch (js ''http://h'') map_store (traced bearer_server) (js ''r'')
       mobile_get stale_session (0, []))) \<and> mf_refreshing s' = None"
proof -
  obtain x se w' tr where run: "mobile_apiFetch (js ''http://h'') map_store (traced bearer_server) (js ''r'')
      mobile_get stale_session (0, []) = (x, se, w', tr)" by (metis surj_pair)
  have i: "mf_call (mf_init stale_session) 0 = MIdle" "mf_refreshing (mf_init stale_session) = None"
      "mf_session (mf_init stale_session) = stale_session" "sent (mf_init stale_session) = []"
    by (simp_all add: mf_init_def sent_def)
  from sequential_calls_are_runs [where f = bearer_server and net = "\<lambda>_ _ _. True" and w = 0, OF i(1,2) TrueI,
      THEN conjunct1, unfolded i(3,4), rule_format, OF run, of "\<lambda>_ _ _. False"]
  show ?thesis unfolding run by auto
qed

text \<open>
  C11. Nobody waits for ever on mobile: when every request is answered or fails, every call,
  bootstrap, sign-in and sign-out that has started can still finish, in every reachable state.
\<close>

theorem mobile_no_lost_waiter:
  assumes "mf_steps origin ss net grant (mf_init se) s" and "net_serial net" and "mf_call s i \<noteq> MIdle"
  shows "mf_can_finish origin ss net grant i s"
proof -
  from mf_reach_ok [OF assms(1)] have ok: "mpromises_ok s" "mcalls_ok s" by auto
  show ?thesis
  proof (cases "mf_call s i")
    case (MStoring t)
    show ?thesis
      by (rule mf_can_finish_step [OF mf_step.stored [OF MStoring]]) (simp add: mf_can_finish_now)
  qed (use assms(2,3) in \<open>simp_all add: mf_can_finish_now finishes_sent [OF ok] finishes_waiting [OF ok] finishes_retried\<close>)
qed

theorem mobile_no_lost_waiter_witness:
  "mf_call cold_flight 0 = MBoot 0 \<and>
   mf_can_finish (js ''http://h'') map_store rotating_server (\<lambda>_ _ _. False) 0 cold_flight"
  using mobile_no_lost_waiter [OF cold_flight_reached rotating_server_serial, of 0] by simp

text \<open>
  Signing out can be undone: when a refresh is under way, a sign-out that completes before the
  response arrives is followed by a session: the response's tokens are stored over the empty
  store, and the next cold start finds the user signed in.
\<close>

theorem sign_out_undone:
  assumes "keystore_reliable ss" and "mf_promise s p = Some (Exchanging r)" and "mf_call s i = MIdle"
    and "net (mf_wire s) r (Inr res)" and "rs_ok res"
    and "body_token ''access_token'' (rs_json res) = Some a" and "truthy a"
    and "body_token ''refresh_token'' (rs_json res) = Some t" and "truthy t"
  shows "\<exists>s'. mf_steps origin ss net grant s s' \<and> mf_call s' i = MStored \<and>
    getAccessToken (mf_session s') = Some a \<and> getRefreshToken ss (mf_session s') = Some t"
proof -
  let ?s1 = "mgoto i (MStoring None) (msession (setAccessToken None) s)"
  let ?s2 = "mgoto i MStored (msession (setRefreshToken ss None) ?s1)"
  have 1: "mf_step origin ss net grant s ?s1" by (rule mf_step.signs_out [OF assms(3)])
  have 2: "mf_step origin ss net grant ?s1 ?s2" by (rule mf_step.stored) simp
  have "runs_to origin ss net grant p ?s2 True (saveSession ss a (Some t) (mf_session ?s2)) (sent ?s2)"
    using runs_to_exchanging [where net = net, of ?s2 p r "Inr res" origin ss grant] assms
    by (simp add: exchange_result_def)
  then obtain s' where s': "mf_steps origin ss net grant ?s2 s'" "mf_call s' = mf_call ?s2"
      "mf_session s' = saveSession ss a (Some t) (mf_session ?s2)" unfolding runs_to_def by blast
  have "mf_steps origin ss net grant s s'" using 1 2 s'(1) by (meson converse_rtranclp_into_rtranclp)
  moreover have "getRefreshToken ss (mf_session s') = Some t"
    using assms(1,9) s'(3) keys_written(1) by (simp add: saveSession_def Let_def)
  ultimately show ?thesis using s' by (intro exI [of _ s']) (simp add: getAccessToken_def)
qed

theorem sign_out_undone_witness:
  "\<exists>s'. mf_steps (js ''http://h'') map_store rotating_server (\<lambda>_ _ _. False) cold_flight s' \<and>
     mf_call s' 2 = MStored \<and> getAccessToken (mf_session s') = Some (js ''a2'')"
proof -
  let ?r = "mobile_refresh_request (js ''http://h'') (js ''r1'')"
  obtain res where res: "rotating_server (mf_wire cold_flight) ?r (Inr res)" "rs_ok res"
      "body_token ''access_token'' (rs_json res) = Some (js ''a2'')" "truthy (js ''a2'')"
      "body_token ''refresh_token'' (rs_json res) = Some (fresh_token (mf_wire cold_flight))"
      "truthy (fresh_token (mf_wire cold_flight))"
    by (simp add: rotating_server_def is_mobile_refresh_def mobile_refresh_request_def rs_ok_def body_token_def)
       (simp add: fresh_token_def)
  from sign_out_undone [where net = rotating_server, OF map_store_reliable cold_flight_fields(5,3) res,
      of "js ''http://h''" "\<lambda>_ _ _. False"] show ?thesis by blast
qed

end
