(* ===== verification/Editors.thy ===== *)
theory Editors
  imports Previews Dashboards Screens MobileScreens
begin

text \<open>
  What the editing screens render, and what is sent when their buttons are pressed: the web composer
  (\<^verbatim>\<open>web/src/features/composer/composer.tsx\<close>, \<^verbatim>\<open>channel-picker.tsx\<close>, \<^verbatim>\<open>variant-editor.tsx\<close>,
  \<^verbatim>\<open>media-attach.tsx\<close>, \<^verbatim>\<open>utm-preview.tsx\<close>, \<^verbatim>\<open>drafts-list.tsx\<close>), the mobile one
  (\<^verbatim>\<open>mobile/src/features/compose/compose-screen.tsx\<close>) with its list of posts, the calendar page
  (\<^verbatim>\<open>calendar-screen.tsx\<close>), the integrations page, the Telegram forms and the mobile wallet. A view is a
  record of what is on the page: texts, marks, and which buttons can be pressed. Texts of dates are
  the host's; styling and sentences that are always there are left out.
\<close>

section \<open>The web composer\<close>

text \<open>A channel in the picker: label, check mark, and whether it is off.\<close>

record chip =
  cp_id :: jstring
  cp_label :: jstring
  cp_on :: bool
  cp_disabled :: bool
  cp_tip :: "jstring option"

definition ChannelPicker :: "channel list \<Rightarrow> jstring list \<Rightarrow> chip list" where
  "ChannelPicker channels selected =
     map (\<lambda>c. \<lparr>cp_id = ch_id c, cp_label = atHandle (ch_handle c), cp_on = (ch_id c \<in> set selected),
                cp_disabled = (ch_status c \<noteq> Active),
                cp_tip = (if ch_status c \<noteq> Active
                  then Some (js ''Reconnect this account on the Channels page to publish.'') else None)\<rparr>) channels"

record variant_editor =
  ve_label :: jstring
  ve_value :: jstring
  ve_counter :: "jstring option"
  ve_invalid :: bool

definition VariantEditor :: "jstring \<Rightarrow> jstring \<Rightarrow> nat option \<Rightarrow> variant_editor" where
  "VariantEditor label value limit =
     \<lparr>ve_label = label, ve_value = value, ve_counter = counter_text limit value, ve_invalid = over_limit limit value\<rparr>"

text \<open>The text box of the open tab; a tab whose channel is gone has none.\<close>

definition composer_editor :: "channel list \<Rightarrow> composer \<Rightarrow> variant_editor option" where
  "composer_editor channels c =
     (if co_tab c = all_tab
      then Some (VariantEditor (js ''Post text'') (cs_masterBody (co_state c)) (editor_limit channels c))
      else map_option (\<lambda>ch. VariantEditor (js ''Text for '' @ atHandle (ch_handle ch)) (bodyFor (co_state c) (co_tab c))
               (editor_limit channels c)) (map_get ch_id channels (co_tab c)))"

text \<open>The shortener under it, only for a text with a link: its button, and its error with the way to the set-up page.\<close>

definition shorten_panel :: "composer \<Rightarrow> ((jstring \<times> bool) \<times> (json \<times> bool) option) option" where
  "shorten_panel c =
     (if firstURL (editingBody c) = None then None
      else Some ((if co_shortening c \<noteq> None then js ''Shortening'' else js ''Shorten links'', co_shortening c \<noteq> None),
                 map_option (\<lambda>e. (thrown_message e, thrown_code e = Some (JStr (js ''integration_not_configured''))))
                   (co_shortenError c)))"

fun tier_text :: "cost_tier \<Rightarrow> jstring" where
  "tier_text Link_posts = js ''link posts''"
| "tier_text Media_posts = js ''media posts''"
| "tier_text Plain_posts = js ''plain posts''"

definition notice_text :: "int option \<times> cost_tier \<times> int option \<Rightarrow> jstring" where
  "notice_text n =
     (case n of (cost, tier, other) \<Rightarrow>
        js ''Publishing to X costs '' @ (case cost of None \<Rightarrow> [] | Some x \<Rightarrow> show_int x) @ js '' credits per channel for '' @
        tier_text tier @ (case other of None \<Rightarrow> [] | Some x \<Rightarrow> js '' (plain posts cost '' @ show_int x @ js '')'') @
        js ''. Other platforms are free.'')"

definition pill_text :: "bool \<Rightarrow> jstring" where
  "pill_text valid = (if valid then js ''Ready'' else js ''Needs changes'')"

definition shown_error :: "json option \<Rightarrow> json option" where
  "shown_error e = (case e of Some m \<Rightarrow> if json_truthy m then Some m else None | None \<Rightarrow> None)"

record composer_view =
  cv_chips :: "chip list"
  cv_tabs :: "(jstring \<times> jstring \<times> bool) list"
  cv_editor :: "variant_editor option"
  cv_reset :: bool
  cv_media :: "jstring list"
  cv_shorten :: "((jstring \<times> bool) \<times> (json \<times> bool) option) option"
  cv_notice :: "jstring option"
  cv_alert :: "json option"
  cv_verdicts :: "(jstring \<times> (jstring \<times> jstring) list) option"
  cv_save :: "jstring \<times> bool"
  cv_hint :: bool
  cv_preview :: post_preview

definition Composer_view :: "jstring \<Rightarrow> jstring \<Rightarrow> wallet option \<Rightarrow> channel list \<Rightarrow> composer \<Rightarrow> composer_view" where
  "Composer_view origin ws wallet channels c =
     \<lparr>cv_chips = ChannelPicker channels (cs_selected (co_state c)),
      cv_tabs = tab_items channels c,
      cv_editor = composer_editor channels c,
      cv_reset = (co_tab c \<noteq> all_tab \<and> editor_shown channels c \<and> overridden c),
      cv_media = map chip_text (cs_media (co_state c)),
      cv_shorten = shorten_panel c,
      cv_notice = map_option notice_text (cost_notice wallet channels (co_state c)),
      cv_alert = shown_error (co_error c),
      cv_verdicts = map_option (\<lambda>vs. (js ''Draft saved. '' @ (if all_valid vs then js ''All channels look good.'' else []),
          map (\<lambda>v. (pill_text (fst (verdict_row channels v)), snd (verdict_row channels v))) vs)) (co_verdicts c),
      cv_save = (save_label c, save_disabled c),
      cv_hint = (cs_selected (co_state c) = []),
      cv_preview = editor_preview origin ws channels c\<rparr>"

section \<open>The mobile composer\<close>

definition mob_chips :: "channel list \<Rightarrow> mob_compose \<Rightarrow> chip list" where
  "mob_chips channels s =
     map (\<lambda>c. \<lparr>cp_id = ch_id c, cp_label = js ''@'' @ ch_handle c, cp_on = (ch_id c \<in> set (mk_selected s)),
                cp_disabled = (ch_status c \<noteq> Active), cp_tip = None\<rparr>) channels"

definition mob_counter :: "channel list \<Rightarrow> mob_compose \<Rightarrow> (jstring \<times> bool) option" where
  "mob_counter channels s =
     map_option (\<lambda>r. if r < 0 then (show_int (- r) @ js '' over'', True) else (show_int r @ js '' left'', False))
       (mob_remaining channels s)"

definition mob_tier :: "mob_compose \<Rightarrow> cost_tier" where
  "mob_tier s = (if firstURL (mk_body s) \<noteq> None then Link_posts else if mk_media s \<noteq> [] then Media_posts else Plain_posts)"

definition mob_verdict_row :: "channel list \<Rightarrow> variant_validation \<Rightarrow> jstring \<times> jstring" where
  "mob_verdict_row channels v =
     (pill_text (vv_valid v),
      (case map_get ch_id channels (vv_channel_id v) of
         Some ch \<Rightarrow> js ''@'' @ ch_handle ch | None \<Rightarrow> take 8 (vv_channel_id v)) @
      (if \<not> vv_valid v \<and> truthy_opt (vv_message v) then js '' - '' @ nullish (vv_message v) [] else []))"

text \<open>The items of a list joined with a separator, as \<open>join\<close> does.\<close>

fun join_with :: "jstring \<Rightarrow> jstring list \<Rightarrow> jstring" where
  "join_with sep [] = []"
| "join_with sep [x] = x"
| "join_with sep (x # xs) = x @ sep @ join_with sep xs"

record mob_compose_view =
  kv_new :: bool
  kv_none :: bool
  kv_chips :: "chip list"
  kv_counter :: "(jstring \<times> bool) option"
  kv_text :: jstring
  kv_thumbs :: "media_cell list"
  kv_attaching :: bool
  kv_preview :: x_preview
  kv_notice :: "jstring option"
  kv_warning :: "jstring option"
  kv_alert :: "json option"
  kv_verdicts :: "(jstring \<times> jstring) list option"
  kv_save :: "jstring \<times> bool"

text \<open>Every attachment has a thumbnail here; the preview shows the first four.\<close>

definition ComposeScreen_view :: "(jstring \<Rightarrow> jstring) \<Rightarrow> jstring \<Rightarrow> 'k session \<Rightarrow> jstring option \<Rightarrow> wallet option \<Rightarrow> channel list
    \<Rightarrow> mob_compose \<Rightarrow> mob_compose_view" where
  "ComposeScreen_view toUpperCase origin session active wallet channels s =
     \<lparr>kv_new = truthy_opt (mk_postId s),
      kv_none = (channels = []),
      kv_chips = mob_chips channels s,
      kv_counter = mob_counter channels s,
      kv_text = mk_body s,
      kv_thumbs = map (\<lambda>m. if mm_kind m = Video then Video_cell (mm_media_id m)
          else Image_cell (mm_media_id m) (rq_url (mediaSource origin session (nullish active []) (mm_media_id m)))) (mk_media s),
      kv_attaching = mk_uploading s,
      kv_preview = mob_editor_preview toUpperCase origin session active channels s,
      kv_notice = (if mob_cost_shown wallet channels s
        then Some (notice_text (mob_xCost wallet s, mob_tier s, None)) else None),
      kv_warning = (if mob_missingMedia channels s
        then Some (join_with (js '' and '') (mob_mediaRequiredBy channels s) @
          js '' need an image or video. Attach media or deselect.'') else None),
      kv_alert = shown_error (mk_error s),
      kv_verdicts = map_option (map (mob_verdict_row channels)) (mk_verdicts s),
      kv_save = (if mk_phase s \<noteq> Not_saving then [] else if truthy_opt (mk_postId s) then js ''Update draft'' else js ''Save draft'',
                 mob_save_disabled channels s)\<rparr>"

section \<open>The lists of posts\<close>

record draft_row =
  dr_text :: jstring
  dr_meta :: jstring
  dr_pill :: "(jstring \<times> tone) option"
  dr_publish :: bool

definition DraftRow :: "(jstring \<Rightarrow> jstring) \<Rightarrow> post \<Rightarrow> draft_row" where
  "DraftRow toLocaleDateString p =
     \<lparr>dr_text = (if truthy (draft_excerpt p) then draft_excerpt p else js ''Saved post''),
      dr_meta = (case draft_channel_count p of None \<Rightarrow> []
          | Some n \<Rightarrow> show_nat n @ js '' channel'' @ (if n = 1 then [] else js ''s'') @ [0x20, 0xB7, 0x20]) @
        toLocaleDateString (po_created_at p),
      dr_pill = Some (po_status p, if draft_publishable p then Neutral else Accent),
      dr_publish = draft_publishable p\<rparr>"

definition mob_DraftRow :: "(jstring \<Rightarrow> jstring) \<Rightarrow> post \<Rightarrow> draft_row" where
  "mob_DraftRow toLocaleDateString p =
     \<lparr>dr_text = (if truthy (draft_excerpt p) then draft_excerpt p else js ''Saved post''),
      dr_meta = po_status p @ [0x20, 0xB7, 0x20] @ toLocaleDateString (po_created_at p),
      dr_pill = None, dr_publish = (po_status p = js ''draft'')\<rparr>"

text \<open>
  The mobile list: the post whose publish sheet is open, and the post whose deletion the alert asks
  about. The alert is modal; its Delete starts the call with \<open>mutate\<close>, and no row is disabled while a
  deletion runs.
\<close>

record drafts_card =
  dk_publishing :: "jstring option"
  dk_alert :: "jstring option"

datatype drafts_event = Dk_edit post | Dk_publish post | Dk_close_sheet | Dk_delete post | Dk_keep | Dk_confirm

datatype drafts_effect = Edit_post post | Delete_post remote

fun DraftsCard :: "jstring \<Rightarrow> post list option \<Rightarrow> drafts_card \<Rightarrow> drafts_event \<Rightarrow> drafts_card \<times> drafts_effect list" where
  "DraftsCard ws posts s (Dk_edit p) =
     (s, if dk_alert s = None \<and> p \<in> set (nullish posts []) then [Edit_post p] else [])"
| "DraftsCard ws posts s (Dk_publish p) =
     (if dk_alert s = None \<and> p \<in> set (nullish posts []) \<and> po_status p = js ''draft''
      then s\<lparr>dk_publishing := Some (po_id p)\<rparr> else s, [])"
| "DraftsCard ws posts s Dk_close_sheet = (s\<lparr>dk_publishing := None\<rparr>, [])"
| "DraftsCard ws posts s (Dk_delete p) =
     (if dk_alert s = None \<and> p \<in> set (nullish posts []) then s\<lparr>dk_alert := Some (po_id p)\<rparr> else s, [])"
| "DraftsCard ws posts s Dk_keep = (s\<lparr>dk_alert := None\<rparr>, [])"
| "DraftsCard ws posts s Dk_confirm =
     (case dk_alert s of
        None \<Rightarrow> (s, [])
      | Some i \<Rightarrow> (s\<lparr>dk_alert := None\<rparr>, [Delete_post (m_call (mob_useDeletePost ws) i)]))"

record drafts_card_view =
  dv_spinner :: bool
  dv_none :: bool
  dv_rows :: "draft_row list"
  dv_sheet :: "jstring option"

definition DraftsCard_view :: "(jstring \<Rightarrow> jstring) \<Rightarrow> bool \<Rightarrow> post list option \<Rightarrow> drafts_card \<Rightarrow> drafts_card_view" where
  "DraftsCard_view toLocaleDateString isPending posts s =
     \<lparr>dv_spinner = isPending, dv_none = (posts = Some []), dv_rows = map (mob_DraftRow toLocaleDateString) (nullish posts []),
      dv_sheet = (if truthy_opt (dk_publishing s) then dk_publishing s else None)\<rparr>"

section \<open>The calendar page\<close>

text \<open>What is used of the date library beyond \<open>dates\<close>: \<open>format\<close>, the month of a day, and the current time.\<close>

record 'd formats =
  fm_text :: "jstring \<Rightarrow> 'd \<Rightarrow> jstring"
  fm_sameMonth :: "'d \<Rightarrow> 'd \<Rightarrow> bool"
  fm_now :: 'd

record day_cell =
  dy_number :: jstring
  dy_label :: jstring
  dy_outside :: bool
  dy_selected :: bool
  dy_today :: bool
  dy_lines :: "(jstring \<times> tone) list"
  dy_more :: "nat option"

definition day_cell_of :: "'d dates \<Rightarrow> 'd formats \<Rightarrow> channel list \<Rightarrow> job list \<Rightarrow> 'd calendar \<Rightarrow> 'd \<Rightarrow> day_cell" where
  "day_cell_of dt fm channels jobs s day =
     (let dayJobs = jobsOn dt jobs day in
      \<lparr>dy_number = fm_text fm (js ''d'') day,
       dy_label = fm_text fm (js ''d MMMM'') day @ js '', '' @ show_nat (length dayJobs) @ js '' scheduled'',
       dy_outside = (\<not> fm_sameMonth fm day (ca_cursor s)),
       dy_selected = (case ca_selectedDay s of None \<Rightarrow> False | Some d \<Rightarrow> isSameDay dt day d),
       dy_today = isSameDay dt day (fm_now fm),
       dy_lines = map (\<lambda>j. (fm_text fm (js ''HH:mm'') (dt_parse dt (jb_run_at j)) @ js '' '' @
           (case map_get ch_id channels (jb_channel_id j) of Some c \<Rightarrow> atHandle (ch_handle c) | None \<Rightarrow> []),
           JOB_TONE (jb_status j))) (fst (month_cell dt jobs day)),
       dy_more = (if snd (month_cell dt jobs day) > 0 then Some (snd (month_cell dt jobs day)) else None)\<rparr>)"

datatype calendar_page =
    Month_page "jstring list" "day_cell list"
  | Week_page "(jstring \<times> job_item list) list" bool   \<comment> \<open>and whether the empty text is shown\<close>

record calendar_screen_view =
  cl_title :: jstring
  cl_tabs :: "(jstring \<times> bool) list"
  cl_spinner :: bool
  cl_failed :: bool
  cl_page :: "calendar_page option"
  cl_detail :: "(jstring \<times> job_item list) option"   \<comment> \<open>the day picked in the month view\<close>
  cl_slots :: bool

definition job_items :: "channel list \<Rightarrow> job list \<Rightarrow> job_item list" where
  "job_items channels = map (\<lambda>j. JobItem_view (map_get ch_id channels (jb_channel_id j)) j)"

definition CalendarScreen_view :: "'d dates \<Rightarrow> 'd formats \<Rightarrow> jstring option \<Rightarrow> bool \<Rightarrow> bool \<Rightarrow> job list option \<Rightarrow> channel list option
    \<Rightarrow> 'd calendar \<Rightarrow> calendar_screen_view option" where
  "CalendarScreen_view dt fm active isPending isError jobs channels s =
     (let chs = nullish channels []; days = calendar_days dt s; loaded = nullish jobs [];
          heading = fm_text fm (js ''EEEE d MMMM'') in
      if active = None then None
      else Some
        \<lparr>cl_title = (if ca_view s = Month then fm_text fm (js ''MMMM yyyy'') (ca_cursor s)
            else fm_text fm (js ''d MMM'') (rangeStart dt s) @ [0x20, 0x2013, 0x20] @ fm_text fm (js ''d MMM yyyy'') (rangeEnd dt s)),
         cl_tabs = [(js ''month'', ca_view s = Month), (js ''week'', ca_view s = Week)],
         cl_spinner = isPending,
         cl_failed = isError,
         cl_page = (case jobs of None \<Rightarrow> None
           | Some js' \<Rightarrow> Some (if ca_view s = Month
               then Month_page (map (fm_text fm (js ''EEE'')) (take 7 days)) (map (day_cell_of dt fm chs js' s) days)
               else Week_page (map (\<lambda>(d, dayJobs). (heading d, job_items chs dayJobs)) (week_rows dt js' s)) (js' = []))),
         cl_detail = (case ca_selectedDay s of
             Some d \<Rightarrow> if ca_view s = Month then Some (heading d, job_items chs (jobsOn dt loaded d)) else None
           | None \<Rightarrow> None),
         cl_slots = (chs \<noteq> [])\<rparr>)"

section \<open>Small forms and cards\<close>

text \<open>The dialog of the media picker.\<close>

record attach_view =
  av_spinner :: bool
  av_none :: bool
  av_tiles :: "asset_tile list"

definition MediaAttach_view :: "jstring \<Rightarrow> jstring \<Rightarrow> bool \<Rightarrow> asset list option \<Rightarrow> media_attach \<Rightarrow> jstring list \<times> attach_view option" where
  "MediaAttach_view origin ws isPending assets s =
     (map chip_text (ma_attached s),
      if \<not> ma_open s then None
      else Some \<lparr>av_spinner = isPending, av_none = (assets = Some []),
        av_tiles = map (\<lambda>a. \<lparr>at_preview = (if as_kind a = Video then Tile_video
            else Tile_image (mediaDownloadURL origin ws (as_id a)) (media_kind_name (as_kind a) @ js '' ('' @ as_mime a @ js '')'')),
          at_caption = as_mime a @ [0x20, 0xB7, 0x20] @ formatBytes (nat (as_bytes a))\<rparr>) (nullish assets [])\<rparr>)"

text \<open>The Telegram form of both clients: closed it is one button, open it has two fields.\<close>

datatype manual_view = Manual_closed | Manual_open "jstring \<times> jstring" "json option" "jstring \<times> bool"

definition ManualConnectChannel_view :: "manual_form \<Rightarrow> manual_view" where
  "ManualConnectChannel_view f =
     (if \<not> mc_open f then Manual_closed
      else Manual_open (mc_botToken f, mc_chatId f) (shown_error (mc_error f))
        (if mc_pending f then js ''Connecting'' @ [0x2026] else js ''Connect'', manual_disabled f))"

definition ManualConnectRow_view :: "manual_form \<Rightarrow> manual_view" where
  "ManualConnectRow_view f =
     (if \<not> mc_open f then Manual_closed
      else Manual_open (mc_botToken f, mc_chatId f) (shown_error (mc_error f))
        (if mc_pending f then [] else js ''Connect'', mc_pending f))"

text \<open>The integrations page: the shortener's card and the card that counts the connected accounts.\<close>

record og_view =
  gv_status :: jstring
  gv_placeholder :: jstring
  gv_alert :: "json option"
  gv_saved :: bool
  gv_buttons :: "(og_button \<times> jstring \<times> bool) list"

definition OGShortenerCard_view :: "bool \<Rightarrow> integration list option \<Rightarrow> og_card \<Rightarrow> og_view option" where
  "OGShortenerCard_view loading integrations s =
     (let og = og_of integrations in
      if loading then None
      else Some \<lparr>gv_status = og_status og,
        gv_placeholder = (if og_configured og then js ''Key stored. Paste a new one to replace it'' else js ''ogl_...''),
        gv_alert = shown_error (og_error s),
        gv_saved = og_saved_shown s,
        gv_buttons =
          (if og_enabled og
           then (Og_disable, js ''Disable'', og_pending s) #
             (if truthy (og_apiKey s) then [(Og_update, js ''Update key'', og_pending s)] else [])
           else [(Og_enable, if og_pending s then js ''Verifying'' else js ''Enable'',
                  og_pending s \<or> \<not> truthy (og_apiKey s) \<and> \<not> og_configured og)])\<rparr>)"

definition IntegrationsScreen :: "jstring option \<Rightarrow> bool \<Rightarrow> integration list option \<Rightarrow> channel list option \<Rightarrow> og_card
    \<Rightarrow> (og_view option \<times> jstring) option" where
  "IntegrationsScreen active loading integrations channels s =
     (if active = None then None else Some (OGShortenerCard_view loading integrations s, accounts_text (length (nullish channels []))))"

text \<open>The mobile wallet: read only, with a link to the web page.\<close>

record mob_wallet_view =
  mw_balance :: "int \<times> jstring"
  mw_tiers :: "(jstring \<times> int) list"
  mw_link :: jstring
  mw_none :: bool
  mw_rows :: "(jstring \<times> jstring \<times> jstring \<times> bool) list"

definition WEB_WALLET_URL :: jstring where
  "WEB_WALLET_URL = js ''https://postal.lettstv.com/wallet''"

definition mob_ledger_row :: "(jstring \<Rightarrow> jstring) \<Rightarrow> ledger_entry \<Rightarrow> jstring \<times> jstring \<times> jstring \<times> bool" where
  "mob_ledger_row toLocaleString e =
     (mobile_KIND_LABEL (le_kind e), toLocaleString (le_created_at e),
      (if le_credits e > 0 then js ''+'' else []) @ show_int (le_credits e), le_credits e > 0)"

definition WalletScreen :: "(jstring \<Rightarrow> jstring) \<Rightarrow> jstring option \<Rightarrow> bool \<Rightarrow> wallet option \<Rightarrow> ledger_entry list option
    \<Rightarrow> bool \<times> mob_wallet_view option" where
  "WalletScreen toLocaleString active isPending wallet ledger =
     (active = None \<or> isPending,
      map_option (\<lambda>w. \<lparr>mw_balance = (wl_balance w, mobile_balance_text w), mw_tiers = tiers (Some w), mw_link = WEB_WALLET_URL,
        mw_none = (nullish ledger [] = []), mw_rows = map (mob_ledger_row toLocaleString) (nullish ledger [])\<rparr>) wallet)"

section \<open>Properties\<close>

fun cmd_variants :: "composer_cmd \<Rightarrow> variant_input list" where
  "cmd_variants (Cmd_create vs) = vs"
| "cmd_variants (Cmd_update p vs) = vs"
| "cmd_variants _ = []"


text \<open>A run that leaves a text for one channel, returns to the shared tab, and drops the other channel.\<close>

definition two_channels :: "channel list" where
  "two_channels = [sample_channel ''a'' ''twitter'', sample_channel ''b'' ''twitter'']"

definition narrowed :: composer where
  "narrowed = fst (composer_run two_channels (composer_init None)
     [Click_channel (js ''a''), Click_channel (js ''b''), Type_text (js ''hi''), Click_tab (js ''b''), Type_text (js ''x''),
      Click_tab all_tab, Click_channel (js ''a'')])"

lemma narrowed_eq:
  "narrowed = (composer_init None)\<lparr>co_state := \<lparr>cs_selected = [js ''b''], cs_masterBody = js ''hi'',
     cs_overrides = [(js ''b'', js ''x'')], cs_media = []\<rparr>\<rparr>"
  by (simp add: narrowed_def two_channels_def composer_init_def fromPost_def overrides_of_def picker_click_def
      sample_channel_def toggleChannel_def toggle_selected_def toggle_def tabs_shown_def selectedChannels_def map_filter_simps
      map_get_def editor_shown_def on_state_def put_body_def Let_def)

lemma narrowed_fields:
  "co_tab narrowed = all_tab" "cs_selected (co_state narrowed) = [js ''b'']" "cs_masterBody (co_state narrowed) = js ''hi''"
  "cs_overrides (co_state narrowed) = [(js ''b'', js ''x'')]" "co_phase narrowed = Not_saving" "cs_media (co_state narrowed) = []"
  by (simp_all add: narrowed_eq composer_init_def)

lemma narrowed_enabled: "\<not> save_disabled narrowed"
  by (simp add: save_disabled_def saving_def narrowed_fields trim_eq_Nil js_def is_space_def)


text \<open>
  A text nobody sees is sent: when the selection shrinks to a channel with a text of its own while
  the shared tab is open, the tab bar goes away, the only text box shows the shared text, and saving
  sends the channel's own text instead; no control on the page leads to it or resets it.
\<close>

theorem hidden_override_sent:
  assumes "co_tab c = all_tab" and "cs_selected (co_state c) = [b]" and "obj_get (cs_overrides (co_state c)) b = Some t"
    and "\<not> save_disabled c" and "v = Composer_view origin ws wallet channels c"
  shows "cv_tabs v = [] \<and> \<not> cv_reset v \<and> map_option ve_value (cv_editor v) = Some (cs_masterBody (co_state c)) \<and>
    (\<exists>cmd. snd (composer_step channels c Click_save) = [cmd] \<and> map vi_body (cmd_variants cmd) = [Some t])"
proof -
  have "length (selectedChannels channels (co_state c)) \<le> 1"
    using assms(2) by (simp add: selectedChannels_def map_filter_simps split: option.split)
  then have "cv_tabs v = []" by (simp add: assms(5) Composer_view_def tab_items_def tabs_shown_def)
  moreover have "\<exists>cmd. snd (composer_step channels c Click_save) = [cmd] \<and> map vi_body (cmd_variants cmd) = [Some t]"
    using assms(2-4) by (cases "co_postId c") (auto simp: save_start_def save_variants_def bodyFor_def Let_def)
  ultimately show ?thesis
    using assms(1) by (simp add: assms(5) Composer_view_def composer_editor_def VariantEditor_def)
qed

theorem hidden_override_sent_witness:
  "map_option ve_value (cv_editor (Composer_view [] [] None two_channels narrowed)) = Some (js ''hi'') \<and>
   (\<exists>cmd. snd (composer_step two_channels narrowed Click_save) = [cmd] \<and> map vi_body (cmd_variants cmd) = [Some (js ''x'')])"
proof -
  have "obj_get (cs_overrides (co_state narrowed)) (js ''b'') = Some (js ''x'')"
    by (simp add: narrowed_fields obj_get_def)
  from hidden_override_sent [OF narrowed_fields(1,2) this narrowed_enabled refl, of "[]" "[]" None two_channels] show ?thesis
    by (simp add: narrowed_fields)
qed

text \<open>
  C20. What is shown is what is sent, on mobile: when the save button can be pressed, pressing it
  starts exactly one call, with one variant for each picked channel, which are the chips that are
  on; every variant has the text in the box and the attachments shown as thumbnails; no warning
  about missing media is then on the screen. When the button cannot be pressed nothing is sent.
\<close>

theorem mobile_shown_is_sent:
  assumes "v = ComposeScreen_view toUpperCase origin session active wallet channels s"
  shows "(snd (kv_save v) \<longrightarrow> snd (ComposeScreen channels s Mk_save) = []) \<and>
    (\<not> snd (kv_save v) \<longrightarrow> kv_warning v = None \<and>
      (\<exists>cmd. snd (ComposeScreen channels s Mk_save) = [cmd] \<and> map vi_channel_id (cmd_variants cmd) = mk_selected s \<and>
         (\<forall>k\<in>set (kv_chips v). cp_on k \<longleftrightarrow> cp_id k \<in> vi_channel_id ` set (cmd_variants cmd)) \<and>
         (\<forall>x\<in>set (cmd_variants cmd). vi_body x = Some (kv_text v) \<and>
            map mm_media_id (nullish (vi_media x) []) =
            map (\<lambda>m. case m of Video_cell i \<Rightarrow> i | Image_cell i u \<Rightarrow> i) (kv_thumbs v))))"
proof (cases "mob_save_disabled channels s")
  case True
  then show ?thesis using assms by (simp add: ComposeScreen_view_def)
next
  case False
  let ?vs = "mob_variants s"
  obtain cmd where cmd: "snd (ComposeScreen channels s Mk_save) = [cmd]" "cmd_variants cmd = ?vs"
    using False by (auto split: option.splits)
  have ids: "map vi_channel_id ?vs = mk_selected s" by (simp add: mob_variants_def comp_def)
  have "\<not> mob_missingMedia channels s" using False by (simp add: mob_save_disabled_def)
  moreover have "\<forall>k\<in>set (mob_chips channels s). cp_on k \<longleftrightarrow> cp_id k \<in> vi_channel_id ` set ?vs"
    unfolding list.set_map [symmetric] ids by (auto simp: mob_chips_def)
  moreover have "\<forall>x\<in>set ?vs. vi_body x = Some (mk_body s) \<and> nullish (vi_media x) [] = mk_media s"
    by (auto simp: mob_variants_def)
  moreover have "map (\<lambda>m. case m of Video_cell i \<Rightarrow> i | Image_cell i u \<Rightarrow> i) (kv_thumbs v) = map mm_media_id (mk_media s)"
    by (auto simp: assms ComposeScreen_view_def)
  ultimately show ?thesis using cmd ids assms False by (simp add: ComposeScreen_view_def)
qed

text \<open>
  Nothing is deleted from the mobile list without two presses on that post: over any sequence of
  events, with the list reloading in between, there are no more deletions than confirmations, and
  each deletes a post whose own Delete button was pressed; a publish sheet opens for drafts only.
\<close>

fun drafts_run :: "jstring \<Rightarrow> drafts_card \<Rightarrow> (post list option \<times> drafts_event) list \<Rightarrow> drafts_card \<times> drafts_effect list" where
  "drafts_run ws s [] = (s, [])"
| "drafts_run ws s ((posts, e) # es) =
     (case DraftsCard ws posts s e of (s1, out1) \<Rightarrow> (case drafts_run ws s1 es of (s2, out2) \<Rightarrow> (s2, out1 @ out2)))"

definition deletions :: "drafts_effect list \<Rightarrow> remote list" where
  "deletions xs = List.map_filter (\<lambda>x. case x of Delete_post r \<Rightarrow> Some r | Edit_post p \<Rightarrow> None) xs"

lemma deletions_simps [simp]:
  "deletions [] = []" "deletions (Delete_post r # xs) = r # deletions xs" "deletions (Edit_post p # xs) = deletions xs"
  "deletions (xs @ ys) = deletions xs @ deletions ys"
  by (simp_all add: deletions_def map_filter_def)

definition asked :: "jstring \<Rightarrow> (post list option \<times> drafts_event) list \<Rightarrow> remote set" where
  "asked ws es = {m_call (mob_useDeletePost ws) (po_id p) |p posts. (posts, Dk_delete p) \<in> set es}"

lemma drafts_run_deletions:
  "set (deletions (snd (drafts_run ws s es))) \<subseteq> asked ws es \<union> (case dk_alert s of None \<Rightarrow> {} | Some i \<Rightarrow> {m_call (mob_useDeletePost ws) i}) \<and>
   length (deletions (snd (drafts_run ws s es))) \<le> length (filter (\<lambda>x. snd x = Dk_confirm) es)"
proof (induction es arbitrary: s)
  case (Cons x es)
  obtain posts e where x: "x = (posts, e)" by (cases x)
  have "asked ws (x # es) = asked ws es \<union> (case e of Dk_delete p \<Rightarrow> {m_call (mob_useDeletePost ws) (po_id p)} | _ \<Rightarrow> {})"
    by (auto simp: asked_def x split: drafts_event.splits)
  with Cons.IH [of "fst (DraftsCard ws posts s e)"] show ?case
    by (cases e) (auto simp: x case_prod_beta split: option.splits if_splits)
qed simp

theorem drafts_card_confirmed:
  assumes "dk_alert s = None"
  shows "set (deletions (snd (drafts_run ws s es))) \<subseteq> asked ws es \<and>
    length (deletions (snd (drafts_run ws s es))) \<le> length (filter (\<lambda>x. snd x = Dk_confirm) es) \<and>
    (dk_publishing (fst (DraftsCard ws posts s (Dk_publish p))) \<noteq> dk_publishing s \<longrightarrow>
       po_status p = js ''draft'' \<and> dr_publish (mob_DraftRow f p))"
  using drafts_run_deletions [of ws s es] assms by (auto simp: mob_DraftRow_def)

text \<open>
  Every button does what it shows, on the integrations page: a button of the shortener's card is on
  the page and not disabled exactly when pressing it sends a request, and its request enables the
  service, or replaces its key, unless the button says Disable.
\<close>

theorem og_buttons_truthful:
  "(\<exists>v label. OGShortenerCard_view loading integrations s = Some v \<and> (b, label, False) \<in> set (gv_buttons v)) \<longleftrightarrow>
   (\<exists>i. snd (OGShortenerCard loading integrations s (Og_press b)) = [i] \<and> ci_enabled i = (b \<noteq> Og_disable))"
  by (cases b) (auto simp: OGShortenerCard_view_def og_save_def Let_def)

lemma sum_list_cells:
  "sum_list (map (\<lambda>d. length (fst (month_cell dt jobs d)) + snd (month_cell dt jobs d)) ds) =
   length (concat (map (jobsOn dt jobs) ds))"
  by (induction ds) (auto simp: month_cell_def)

text \<open>
  The calendar page accounts for every job: for a date library whose days are numbered, the lines and
  the further counts of the month's cells, and the rows of the week, add up to the loaded jobs
  that fall on the days shown.
\<close>

theorem calendar_page_complete:
  assumes "\<forall>n. dt_day dt (dt_of_day dt n) = n"
    and "CalendarScreen_view dt fm (Some ws) isPending isError (Some jobs) channels s = Some v"
    and "shown = filter (\<lambda>j. dt_day dt (rangeStart dt s) \<le> dt_day dt (dt_parse dt (jb_run_at j)) \<and>
        dt_day dt (dt_parse dt (jb_run_at j)) \<le> dt_day dt (rangeEnd dt s)) jobs"
  shows "(\<exists>heads cells. cl_page v = Some (Month_page heads cells) \<and>
      sum_list (map (\<lambda>c. length (dy_lines c) + nullish (dy_more c) 0) cells) = length shown) \<or>
    (\<exists>rows none. cl_page v = Some (Week_page rows none) \<and> sum_list (map (\<lambda>r. length (snd r)) rows) = length shown)"
proof -
  note week = week_view_complete [OF assms(1), of jobs s, THEN conjunct1]
  have len: "length (concat (map snd (week_rows dt jobs s))) = length shown"
    using arg_cong [OF week, of size] unfolding assms(3) size_mset .
  show ?thesis
  proof (cases "ca_view s")
    case Month
    let ?cells = "map (day_cell_of dt fm (nullish channels []) jobs s) (calendar_days dt s)"
    have "concat (map snd (week_rows dt jobs s)) = concat (map (jobsOn dt jobs) (calendar_days dt s))"
      by (simp add: week_rows_def concat_nonempty comp_def)
    moreover have "map (\<lambda>c. length (dy_lines c) + nullish (dy_more c) 0) ?cells =
        map (\<lambda>d. length (fst (month_cell dt jobs d)) + snd (month_cell dt jobs d)) (calendar_days dt s)"
      by (simp add: day_cell_of_def Let_def)
    ultimately have "sum_list (map (\<lambda>c. length (dy_lines c) + nullish (dy_more c) 0) ?cells) = length shown"
      using len by (simp only: sum_list_cells)
    moreover have "\<exists>heads. cl_page v = Some (Month_page heads ?cells)"
      using assms(2) Month by (auto simp: CalendarScreen_view_def Let_def)
    ultimately show ?thesis by blast
  next
    case Week
    let ?rows = "map (\<lambda>(d, dayJobs). (fm_text fm (js ''EEEE d MMMM'') d, job_items (nullish channels []) dayJobs)) (week_rows dt jobs s)"
    have "sum_list (map (\<lambda>r. length (snd r)) ?rows) = length shown"
      using len by (simp add: length_concat comp_def case_prod_beta job_items_def)
    moreover have "\<exists>none. cl_page v = Some (Week_page ?rows none)"
      using assms(2) Week by (auto simp: CalendarScreen_view_def Let_def)
    ultimately show ?thesis by blast
  qed
qed

theorem calendar_page_complete_witness:
  "\<exists>v. CalendarScreen_view day_numbers \<lparr>fm_text = (\<lambda>_ _. []), fm_sameMonth = (\<lambda>_ _. True), fm_now = 0\<rparr> (Some []) False False
       (Some [Schedule.sample_job ''xx'']) None \<lparr>ca_view = Week, ca_cursor = 0, ca_selectedDay = None\<rparr> = Some v \<and>
     cl_page v \<noteq> None"
proof -
  let ?v = "the (CalendarScreen_view day_numbers \<lparr>fm_text = (\<lambda>_ _. []), fm_sameMonth = (\<lambda>_ _. True), fm_now = 0\<rparr> (Some []) False False
       (Some [Schedule.sample_job ''xx'']) None \<lparr>ca_view = Week, ca_cursor = 0, ca_selectedDay = None\<rparr>)"
  have v: "CalendarScreen_view day_numbers \<lparr>fm_text = (\<lambda>_ _. []), fm_sameMonth = (\<lambda>_ _. True), fm_now = 0\<rparr> (Some []) False False
       (Some [Schedule.sample_job ''xx'']) None \<lparr>ca_view = Week, ca_cursor = 0, ca_selectedDay = None\<rparr> = Some ?v"
    by (simp add: CalendarScreen_view_def Let_def)
  have "\<forall>n. dt_day day_numbers (dt_of_day day_numbers n) = n" by (simp add: day_numbers_def)
  from calendar_page_complete [OF this v refl] v show ?thesis by (intro exI [of _ ?v]) auto
qed

theorem mobile_shown_is_sent_witness:
  "\<exists>cmd. snd (ComposeScreen two_channels (mob_compose_init\<lparr>mk_selected := [js ''a''], mk_body := js ''hi''\<rparr>) Mk_save) = [cmd] \<and>
     map vi_channel_id (cmd_variants cmd) = [js ''a'']"
proof -
  let ?s = "mob_compose_init\<lparr>mk_selected := [js ''a''], mk_body := js ''hi''\<rparr>"
  have "mob_mediaRequiredBy two_channels ?s = []"
    by (simp add: mob_mediaRequired_none mob_compose_init_def two_channels_def map_get_def sample_channel_def
        registries_agree platformInfo_requiresMedia)
  moreover have "trim (js ''hi'') \<noteq> []" by (simp add: trim_eq_Nil js_def is_space_def)
  ultimately have "\<not> mob_save_disabled two_channels ?s"
    by (simp add: mob_save_disabled_def mob_compose_init_def mob_missingMedia_def)
  then show ?thesis
    using mobile_shown_is_sent [OF refl, of id "[]" stale_session None None two_channels ?s]
    by (auto simp: ComposeScreen_view_def)
qed

theorem drafts_card_confirmed_witness:
  "set (deletions (snd (drafts_run (js ''w'') \<lparr>dk_publishing = None, dk_alert = None\<rparr>
     [(Some [sample_draft], Dk_delete sample_draft), (Some [sample_draft], Dk_confirm)]))) \<subseteq>
   {m_call (mob_useDeletePost (js ''w'')) (po_id sample_draft)}"
  using drafts_card_confirmed [of "\<lparr>dk_publishing = None, dk_alert = None\<rparr>" "js ''w''"
      "[(Some [sample_draft], Dk_delete sample_draft), (Some [sample_draft], Dk_confirm)]"]
  by (simp add: asked_def)

end
