(* ===== verification/AccountPages.thy ===== *)
theory AccountPages
  imports Editors AuthForms AuthFlow Members Primitives
begin

text \<open>
  What the account and team pages render: the seven forms of \<open>AuthForms\<close>
  (\<^verbatim>\<open>web/src/features/auth/\<close>, \<^verbatim>\<open>mobile/src/app/(auth)/\<close>), the resend control and the two
  one-call pages, the member pages (\<^verbatim>\<open>web/src/features/members/\<close>), the activity feeds of both
  clients, the channels page and the mobile settings. A page is what can be read and pressed on
  it; fixed sentences are kept where they answer the user, styling is left out.
\<close>

section \<open>Forms\<close>

text \<open>An input with the line under it: its error, or else its hint.\<close>

record field_view =
  fd_label :: jstring
  fd_error :: "json option"
  fd_hint :: "jstring option"

definition field_line :: "string \<Rightarrow> json option \<Rightarrow> jstring option \<Rightarrow> field_view" where
  "field_line label error hint =
     \<lparr>fd_label = js label, fd_error = shown_error error, fd_hint = (if shown_error error = None then hint else None)\<rparr>"

definition field_of :: "form_errors \<Rightarrow> string \<Rightarrow> string \<Rightarrow> jstring option \<Rightarrow> field_view" where
  "field_of errors label name hint = field_line label (case obj_get errors (js name) of Some e \<Rightarrow> e | None \<Rightarrow> None) hint"

text \<open>
  A page is a form (alert, fields, button with its label and whether it is off) or a result that
  replaced it (text, the address a resend control is for, the button that leads on).
\<close>

datatype page =
    Form_page "json option" "field_view list" "jstring \<times> bool"
  | Result_page jstring "jstring option" "jstring option"

definition length_hint :: "jstring option" where
  "length_hint = Some (js ''At least 8 characters.'')"

definition dots :: "string \<Rightarrow> jstring" where
  "dots s = js s @ [0x2026]"

definition LoginForm_view :: "login_form \<Rightarrow> page" where
  "LoginForm_view f =
     (if truthy_opt (lf_unverifiedEmail f)
      then Result_page (js ''Please verify your email before signing in. We sent a link to '' @
             nullish (lf_unverifiedEmail f) [] @ js ''.'') (lf_unverifiedEmail f) (Some (js ''Back to sign in''))
      else Form_page (shown_error (fm_formError f))
             [field_of (fm_errors f) ''Email'' ''email'' None, field_of (fm_errors f) ''Password'' ''password'' None]
             (if isSubmitting f then dots ''Signing in'' else js ''Sign in'', isSubmitting f))"

definition SignupForm_view :: "signup_form \<Rightarrow> page" where
  "SignupForm_view f =
     (if sf_done f
      then Result_page (js ''Check your inbox. We sent a verification link to '' @ sf_email f @
             js ''. Open it to finish setting up your account, then sign in.'') (Some (sf_email f)) (Some (js ''Go to sign in''))
      else Form_page (shown_error (fm_formError f))
             [field_of (fm_errors f) ''Email'' ''email'' None, field_of (fm_errors f) ''Password'' ''password'' length_hint]
             (if isSubmitting f then dots ''Creating account'' else js ''Create account'', isSubmitting f))"

definition ConfirmResetForm_view :: "jstring \<Rightarrow> reset_form \<Rightarrow> page" where
  "ConfirmResetForm_view token f =
     (if token = [] then Result_page (js ''This reset link is invalid or missing its token.'') None None
      else if rf_done f then Result_page (js ''Your password has been updated.'') None (Some (js ''Sign in''))
      else Form_page (shown_error (fm_formError f)) [field_of (fm_errors f) ''New password'' ''new_password'' length_hint]
             (if isSubmitting f then dots ''Updating'' else js ''Update password'', isSubmitting f))"

definition RequestResetForm_view :: "reset_form \<Rightarrow> page" where
  "RequestResetForm_view f =
     (if rf_done f
      then Result_page (js ''If that email is registered, we've sent a password-reset link. Check your inbox.'') None None
      else Form_page (shown_error (fm_formError f)) [field_of (fm_errors f) ''Email'' ''email'' None]
             (if isSubmitting f then dots ''Sending'' else js ''Send reset link'', isSubmitting f))"

text \<open>A mobile screen has a title and a subtitle over its page; the button shows a spinner while its call runs.\<close>

definition loading_button :: "string \<Rightarrow> bool \<Rightarrow> jstring \<times> bool" where
  "loading_button label loading = (if loading then [] else js label, loading)"

definition LoginScreen_view :: "login_form \<Rightarrow> (jstring \<times> jstring) \<times> page" where
  "LoginScreen_view f =
     (if truthy_opt (lf_unverifiedEmail f)
      then ((js ''Verify your email'', js ''Please verify before signing in.''),
            Result_page (js ''We sent a verification link to '' @ nullish (lf_unverifiedEmail f) [] @ js ''.'')
              (lf_unverifiedEmail f) (Some (js ''Back to sign in'')))
      else ((js ''Sign in'', js ''Welcome back.''),
            Form_page (shown_error (fm_formError f))
              [field_of (fm_errors f) ''Email'' ''email'' None, field_of (fm_errors f) ''Password'' ''password'' None]
              (loading_button ''Sign in'' (isSubmitting f))))"

definition SignupScreen_view :: "sent_form \<Rightarrow> (jstring \<times> jstring) \<times> page" where
  "SignupScreen_view f =
     (if truthy_opt (mf_sentEmail f)
      then ((js ''Check your email'', js ''We sent a verification link to '' @ nullish (mf_sentEmail f) [] @ js ''.''),
            Result_page (js ''Open the link to finish setting up your account, then sign in.'')
              (mf_sentEmail f) (Some (js ''Go to sign in'')))
      else ((js ''Create your account'', js ''Free, no paywall.''),
            Form_page (shown_error (fm_formError f))
              [field_of (fm_errors f) ''Email'' ''email'' None, field_of (fm_errors f) ''Password'' ''password'' length_hint]
              (loading_button ''Create account'' (isSubmitting f))))"

definition ResetScreen_view :: "reset_form \<Rightarrow> page" where
  "ResetScreen_view f =
     (if rf_done f then Result_page (js ''If that email is registered, a reset link is on its way. Check your inbox.'') None None
      else Form_page None [field_line ''Email'' (fm_formError f) None] (loading_button ''Send reset link'' (isSubmitting f)))"

section \<open>Account controls\<close>

text \<open>The resend control: its button, the note that the mail was sent, and its error.\<close>

definition ResendVerification_view :: "jstring \<Rightarrow> resend \<Rightarrow> (jstring \<times> bool) \<times> bool \<times> json option" where
  "ResendVerification_view email s =
     ((resend_label s, resend_disabled email s), resend_sent_shown s, shown_error (rv_error s))"

definition mob_resend_label :: "resend \<Rightarrow> jstring" where
  "mob_resend_label s =
     (if rv_secondsLeft s > 0 then js ''Resend in '' @ show_nat (rv_secondsLeft s) @ js ''s''
      else js ''Resend verification email'')"

definition mob_ResendVerification_view :: "resend \<Rightarrow> (jstring \<times> bool) \<times> bool \<times> json option" where
  "mob_ResendVerification_view s =
     ((if rv_pending s then [] else mob_resend_label s, mob_resend_disabled s), resend_sent_shown s, shown_error (rv_error s))"

text \<open>The two pages that run one call: a text, and a button once it is over.\<close>

definition or_text :: "json \<Rightarrow> string \<Rightarrow> json" where
  "or_text m s = (if json_truthy m then m else JStr (js s))"

definition VerifyEmailClient_view :: "verify_page \<Rightarrow> json \<times> jstring option" where
  "VerifyEmailClient_view s =
     (case vp_status s of
        Verifying \<Rightarrow> (JStr (dots ''Verifying your email''), None)
      | Verify_success \<Rightarrow> (JStr (js ''Your email address is verified.''), Some (js ''Sign in''))
      | Verify_error \<Rightarrow> (or_text (vp_message s) ''Verification failed.'', Some (js ''Back to sign in'')))"

definition OAuthCallbackClient_view :: "jstring option \<Rightarrow> jstring option \<Rightarrow> oauth_page \<Rightarrow> json \<times> jstring option" where
  "OAuthCallbackClient_view state code s =
     (case oauth_view state code s of
        (Oa_connecting, _) \<Rightarrow> (JStr (dots ''Connecting your account''), None)
      | (Oa_success, JStr m) \<Rightarrow> (JStr (m @ dots '' Redirecting''), None)
      | (Oa_success, m) \<Rightarrow> (m, None)
      | (Oa_error, m) \<Rightarrow> (or_text m ''The connection failed.'', Some (js ''Back to channels'')))"

definition UserMenu_view :: "(jstring \<Rightarrow> jstring) \<Rightarrow> user option \<Rightarrow> (jstring \<times> jstring) option" where
  "UserMenu_view toUpperCase user = map_option (\<lambda>u. (toUpperCase (take 1 (us_email u)), us_email u)) user"

definition UtmPreview_view :: "jstring \<Rightarrow> utm_preview \<Rightarrow> (jstring \<times> jstring) \<times> (jstring \<times> bool) \<times> json option \<times> jstring option" where
  "UtmPreview_view text s =
     ((up_source s, up_campaign s),
      (if up_pending s then dots ''Previewing'' else js ''Preview tagged links'', utm_disabled (up_pending s) text),
      shown_error (up_error s), up_result s)"

record mob_settings =
  st_account :: "jstring \<times> (jstring \<times> tone)"
  st_since :: "jstring option"
  st_themes :: "(jstring \<times> bool) list"
  st_workspace :: "(jstring \<times> jstring) option"
  st_signOut :: "jstring \<times> bool"

definition SettingsScreen :: "(jstring \<Rightarrow> jstring) \<Rightarrow> user option \<Rightarrow> workspace option \<Rightarrow> ThemePreference \<Rightarrow> bool \<Rightarrow> mob_settings" where
  "SettingsScreen toLocaleDateString user active preference loggingOut =
     \<lparr>st_account = (case user of None \<Rightarrow> [] | Some u \<Rightarrow> us_email u, account_pill user),
      st_since = map_option (\<lambda>u. toLocaleDateString (us_created_at u)) user,
      st_themes = map (\<lambda>t. (snd t, preference = fst t)) THEMES,
      st_workspace = map_option (\<lambda>w. (wk_name w, wk_plan w)) active,
      st_signOut = loading_button ''Sign out'' loggingOut\<rparr>"

section \<open>Teams\<close>

text \<open>
  A member's row. Its select is uncontrolled: it starts at the member's role and then shows what
  was picked last, whatever becomes of the call; a remount starts over.
\<close>

record member_line =
  ml_shown :: role
  ml_pending :: bool

definition member_line_init :: "member \<Rightarrow> member_line" where
  "member_line_init m = \<lparr>ml_shown = mb_role m, ml_pending = False\<rparr>"

datatype member_line_event = Ml_pick role | Ml_settled "thrown + member"

fun MemberRow :: "jstring \<Rightarrow> member \<Rightarrow> member_line \<Rightarrow> member_line_event \<Rightarrow> member_line \<times> remote list" where
  "MemberRow ws m s (Ml_pick r) =
     (if ml_pending s \<or> r \<notin> set (row_roles m) then (s, [])
      else (s\<lparr>ml_shown := r, ml_pending := True\<rparr>, row_change ws m False r))"
| "MemberRow ws m s (Ml_settled r) = (s\<lparr>ml_pending := False\<rparr>, [])"

record member_row_view =
  mv_id :: jstring
  mv_permissions :: jstring
  mv_owner :: bool
  mv_select :: "(role \<times> (role \<times> jstring) list \<times> bool) option"   \<comment> \<open>value, options, disabled\<close>
  mv_access :: bool

definition MemberRow_view :: "member \<Rightarrow> member_line \<Rightarrow> member_row_view" where
  "MemberRow_view m s =
     \<lparr>mv_id = take 8 (mb_user_id m) @ [0x2026], mv_permissions = permission_count m, mv_owner = (mb_role m = Owner),
      mv_select = (if mb_role m = Owner then None
        else Some (ml_shown s, map (\<lambda>r. (r, ROLE_LABELS r)) (row_roles m), ml_pending s)),
      mv_access = (mb_role m \<noteq> Owner)\<rparr>"

definition MembersPanel_view :: "bool \<Rightarrow> bool \<Rightarrow> member list option \<Rightarrow> (member \<Rightarrow> member_line)
    \<Rightarrow> bool \<times> bool \<times> bool \<times> member_row_view list" where
  "MembersPanel_view isPending isError members line =
     (isPending, isError, members = Some [], map (\<lambda>m. MemberRow_view m (line m)) (nullish members []))"

definition CapabilityCheckboxes :: "capability list \<Rightarrow> (jstring \<times> jstring \<times> bool) list" where
  "CapabilityCheckboxes value = map (\<lambda>c. (cap_label c, cap_description c, cap_value c \<in> set value)) CAPABILITIES"

record add_member_view =
  amv_alert :: "json option"
  amv_email :: field_view
  amv_roles :: "(role \<times> (role \<times> jstring) list) option"
  amv_switch :: jstring
  amv_boxes :: "(jstring \<times> jstring \<times> bool) list option"
  amv_submit :: "jstring \<times> bool"

definition AddMemberForm_view :: "add_member_form \<Rightarrow> add_member_view" where
  "AddMemberForm_view f =
     \<lparr>amv_alert = shown_error (af_formError f), amv_email = field_of (af_errors f) ''Email'' ''email'' None,
      amv_roles = (if af_custom f then None else Some (af_role f, map (\<lambda>r. (r, ROLE_LABELS r)) ROLES)),
      amv_switch = (if af_custom f then js ''Use a role instead'' else js ''Customize permissions''),
      amv_boxes = (if af_custom f then Some (CapabilityCheckboxes (af_caps f)) else None),
      amv_submit = (if af_running f then dots ''Adding'' else js ''Add member'', af_running f)\<rparr>"

text \<open>The channel access editor of the web client, behind its disclosure; the channels may still be loading.\<close>

record access_view =
  xv_restricted :: bool
  xv_everywhere :: bool
  xv_none :: bool
  xv_boxes :: "(jstring \<times> jstring \<times> jstring \<times> bool) list"   \<comment> \<open>channel, label, platform, checked\<close>
  xv_save :: "jstring \<times> bool"
  xv_saved :: bool
  xv_error :: "json option"

definition ChannelAccessEditor_view :: "channel list option \<Rightarrow> access_editor \<Rightarrow> access_view" where
  "ChannelAccessEditor_view channels s =
     \<lparr>xv_restricted = ae_restricted s, xv_everywhere = (\<not> ae_restricted s),
      xv_none = (ae_restricted s \<and> channels = Some []),
      xv_boxes = (if ae_restricted s
        then map (\<lambda>c. (ch_id c, atHandle (ch_handle c), ch_platform c, ch_id c \<in> set (ae_selected s))) (nullish channels [])
        else []),
      xv_save = (if ae_pending s then dots ''Saving'' else js ''Save access'', ae_pending s),
      xv_saved = ae_saved s, xv_error = shown_error (ae_error s)\<rparr>"

definition web_MemberChannelAccess :: "bool \<Rightarrow> bool \<Rightarrow> channel_access option \<Rightarrow> jstring \<times> access_editor option option" where
  "web_MemberChannelAccess is_open isPending access =
     (if is_open then js ''Hide channel access'' else js ''Channel access'',
      if is_open then Some (if isPending then None else map_option access_init access) else None)"

text \<open>The activity feeds: who, what, on what, when.\<close>

record activity_entry =
  ac_id :: int
  ac_actor_email :: jstring
  ac_action :: jstring
  ac_target :: jstring
  ac_created_at :: jstring

definition ActivityRow :: "(jstring \<times> jstring) list \<Rightarrow> (jstring \<Rightarrow> jstring) \<Rightarrow> activity_entry \<Rightarrow> jstring \<times> jstring" where
  "ActivityRow labels toLocaleString e =
     ((if truthy (ac_actor_email e) then ac_actor_email e else js ''System'') @ js '' '' @ activity_label labels (ac_action e) @
        (if truthy (ac_target e) then [0x20, 0xB7, 0x20] @ ac_target e else []),
      toLocaleString (ac_created_at e))"

definition ActivityFeed :: "(jstring \<times> jstring) list \<Rightarrow> (jstring \<Rightarrow> jstring) \<Rightarrow> bool \<Rightarrow> bool \<Rightarrow> activity_entry list option
    \<Rightarrow> bool \<times> bool \<times> bool \<times> (jstring \<times> jstring) list" where
  "ActivityFeed labels toLocaleString isPending isError activity =
     (isPending, isError, activity = Some [], map (ActivityRow labels toLocaleString) (nullish activity []))"

section \<open>The channels page\<close>

record channel_card =
  cd_name :: jstring
  cd_line :: jstring
  cd_status :: "jstring \<times> tone"
  cd_hint :: jstring
  cd_dialog :: "(jstring \<times> json option \<times> bool) option"   \<comment> \<open>title, error, confirm button off\<close>

definition ChannelCard :: "channel \<Rightarrow> confirm_state \<Rightarrow> channel_card" where
  "ChannelCard c s =
     \<lparr>cd_name = ch_display_name c,
      cd_line = atHandle (ch_handle c) @ [0x20, 0xB7, 0x20] @ pi_label (platformInfo (ch_platform c)),
      cd_status = channel_STATUS (ch_status c), cd_hint = channel_STATUS_HINT (ch_status c),
      cd_dialog = (if cf_open s
        then Some (js ''Disconnect '' @ atHandle (ch_handle c) @ js ''?'', shown_error (cf_error s), cf_pending s) else None)\<rparr>"

record channels_page =
  cn_spinner :: bool
  cn_failed :: bool
  cn_none :: bool
  cn_cards :: "channel_card list"
  cn_platforms :: "(jstring \<times> bool \<times> bool \<times> jstring \<times> jstring option \<times> connect_control) list"

definition ChannelsPanel :: "jstring option \<Rightarrow> bool \<Rightarrow> bool \<Rightarrow> channel list option \<Rightarrow> (channel \<Rightarrow> confirm_state) \<Rightarrow> channels_page option" where
  "ChannelsPanel active isPending isError channels dialog =
     (if active = None then None
      else Some \<lparr>cn_spinner = isPending, cn_failed = isError, cn_none = (channels = Some []),
        cn_cards = map (\<lambda>c. ChannelCard c (dialog c)) (nullish channels []),
        cn_platforms = map (\<lambda>(p, (key, isConnected, control)).
            (pi_label p, isConnected, pi_payPerUse p, pi_hint p, pi_caveat p, control)) (zip PLATFORMS (platform_rows channels))\<rparr>)"

section \<open>Properties\<close>

text \<open>A page answers its user when it is a result, or a form with something to read about the last attempt.\<close>

fun page_says :: "page \<Rightarrow> bool" where
  "page_says (Form_page alert inputs button) = (alert \<noteq> None \<or> list_ex (\<lambda>f. fd_error f \<noteq> None) inputs)"
| "page_says (Result_page t email button) = True"

definition answered :: "('f \<Rightarrow> page) \<Rightarrow> 'f \<times> effect list \<Rightarrow> bool" where
  "answered view r = (page_says (view (fst r)) \<or> list_ex (\<lambda>e. case e of Navigate p \<Rightarrow> True | _ \<Rightarrow> False) (snd r))"

text \<open>
  What a server may answer: a success, or an envelope with a message that names only the inputs of
  the form. On the forms without field errors any failure with a message will do.
\<close>

definition structured :: "jstring list \<Rightarrow> thrown + 'o \<Rightarrow> bool" where
  "structured inputs r =
     (\<forall>e. r = Inl e \<longrightarrow> (\<exists>st c m fs. e = Normalized (normalizeError st (envelope c m fs)) \<and> json_truthy m \<and>
        (\<forall>p\<in>set fs. fst p \<in> set inputs \<and> snd p \<noteq> [])))"

definition worded :: "thrown + 'o \<Rightarrow> bool" where
  "worded r = (case r of Inl e \<Rightarrow> json_truthy (thrown_message e) | Inr x \<Rightarrow> True)"

lemma field_of_error:
  "fd_error (field_of errs label name hint) \<noteq> None \<longleftrightarrow>
   (case obj_get errs (js name) of Some (Some m) \<Rightarrow> json_truthy m | _ \<Rightarrow> False)"
  by (simp add: field_of_def field_line_def shown_error_def split: option.split)

lemma shown_error_iff: "shown_error e \<noteq> None \<longleftrightarrow> (case e of Some m \<Rightarrow> json_truthy m | None \<Rightarrow> False)"
  by (simp add: shown_error_def split: option.split)

lemma form_says:
  "page_says (Form_page (shown_error (fm_formError f)) [field_of (fm_errors f) l n h, field_of (fm_errors f) l' n' h'] b) =
   shows_error [js n, js n'] f"
  "page_says (Form_page (shown_error (fm_formError f)) [field_of (fm_errors f) l n h] b) = shows_error [js n] f"
  by (simp_all add: field_of_error shown_error_iff shows_error_def del: not_None_eq)

lemma views_say:
  "page_says (LoginForm_view l) \<longleftrightarrow> truthy_opt (lf_unverifiedEmail l) \<or> shows_error [js ''email'', js ''password''] l"
  "page_says (SignupForm_view s) \<longleftrightarrow> sf_done s \<or> shows_error [js ''email'', js ''password''] s"
  "page_says (ConfirmResetForm_view tok r) \<longleftrightarrow> tok = [] \<or> rf_done r \<or> shows_error [js ''new_password''] r"
  "page_says (RequestResetForm_view r) \<longleftrightarrow> rf_done r \<or> shows_error [js ''email''] r"
  by (simp_all add: LoginForm_view_def SignupForm_view_def ConfirmResetForm_view_def RequestResetForm_view_def form_says
      del: page_says.simps(1))

lemma caught_says:
  "structured inputs (Inl e :: thrown + 'o) \<Longrightarrow> shows_error inputs (fst (catch_server_errors e f))"
  by (auto simp: structured_def intro: catch_shows)

text \<open>
  C33. Every submission is answered: when the call of any of the seven forms settles, with a success
  or with a structured error of the server that names only inputs of the form, the page shows
  a result, an alert or an error under an input, or the user is taken to another page. The three
  mobile screens and the request for a reset link do so for every failure with a message.
\<close>

theorem submissions_answered:
  assumes "fm_running l = Some v" and "fm_running s = Some v" and "fm_running m = Some v" and "fm_running r = Some w"
    and "truthy (cr_email v)" and "structured [js ''email'', js ''password''] o1" and "structured [js ''new_password''] o2"
    and "worded o3" and "worded o4"
  shows "answered LoginForm_view (LoginForm valid_email l (Settled o1)) \<and>
    answered SignupForm_view (SignupForm valid_email s (Settled o1)) \<and>
    answered (ConfirmResetForm_view tok) (ConfirmResetForm tok r (Settled o2)) \<and>
    answered RequestResetForm_view (RequestResetForm valid_email r (Settled o4)) \<and>
    answered (snd \<circ> LoginScreen_view) (LoginScreen valid_email l (Settled o3)) \<and>
    answered (snd \<circ> SignupScreen_view) (SignupScreen valid_email m (Settled o3)) \<and>
    answered ResetScreen_view (ResetScreen valid_email r (Settled o4))"
proof (intro conjI)
  show "answered LoginForm_view (LoginForm valid_email l (Settled o1))"
    using assms(1,5,6) caught_says [where f = "l\<lparr>fm_running := None\<rparr>"]
    by (cases o1) (auto simp: answered_def views_say)
  show "answered SignupForm_view (SignupForm valid_email s (Settled o1))"
    using assms(2,6) caught_says [where f = "s\<lparr>fm_running := None\<rparr>"]
    by (cases o1) (auto simp: answered_def views_say)
  show "answered (ConfirmResetForm_view tok) (ConfirmResetForm tok r (Settled o2))"
    using assms(4,7) caught_says [where f = "r\<lparr>fm_running := None\<rparr>"]
    by (cases o2) (auto simp: answered_def views_say)
qed (use assms in \<open>auto simp: answered_def worded_def RequestResetForm_view_def LoginScreen_view_def SignupScreen_view_def
       ResetScreen_view_def field_line_def shown_error_def split: sum.splits\<close>)

theorem submissions_answered_witness:
  "answered LoginForm_view (LoginForm (\<lambda>_. True)
     (login_init\<lparr>fm_running := Some \<lparr>cr_email = js ''a@b.co'', cr_password = js ''x''\<rparr>\<rparr>)
     (Settled (Inl (Normalized (normalizeError 401 (envelope (JStr (js ''invalid'')) (JStr (js ''Wrong password'')) []))))))"
proof -
  let ?v = "\<lparr>cr_email = js ''a@b.co'', cr_password = js ''x''\<rparr>"
  let ?e = "Normalized (normalizeError 401 (envelope (JStr (js ''invalid'')) (JStr (js ''Wrong password'')) []))"
  have o1: "structured [js ''email'', js ''password''] (Inl ?e :: thrown + user option)"
    unfolding structured_def by (intro allI impI exI conjI, erule sum.inject(1) [THEN iffD1, symmetric]) (simp_all add: js_def)
  have o2: "structured [js ''new_password''] (Inr () :: thrown + unit)" by (simp add: structured_def)
  show ?thesis
    using submissions_answered [of "login_init\<lparr>fm_running := Some ?v\<rparr>" ?v "signup_init\<lparr>fm_running := Some ?v\<rparr>"
        "\<lparr>fm_errors = [], fm_formError = None, fm_running = Some ?v, mf_sentEmail = None\<rparr>" "reset_init\<lparr>fm_running := Some []\<rparr>" "[]",
        OF _ _ _ _ _ o1 o2, of "Inr None" "Inr ()" "\<lambda>_. True" "[]"]
    by (simp add: worded_def js_def)
qed

lemma schema_shown:
  "loginSchema valid_email v \<noteq> [] \<Longrightarrow> shows_error [js ''email'', js ''password''] (f\<lparr>fm_errors := loginSchema valid_email v\<rparr>)"
  "signupSchema valid_email v \<noteq> [] \<Longrightarrow> shows_error [js ''email'', js ''password''] (f\<lparr>fm_errors := signupSchema valid_email v\<rparr>)"
  "confirmResetSchema w \<noteq> [] \<Longrightarrow> shows_error [js ''new_password''] (g\<lparr>fm_errors := confirmResetSchema w\<rparr>)"
  "requestResetSchema valid_email w \<noteq> [] \<Longrightarrow> shows_error [js ''email''] (g\<lparr>fm_errors := requestResetSchema valid_email w\<rparr>)"
  by (auto simp: shows_error_def loginSchema_def signupSchema_def confirmResetSchema_def requestResetSchema_def email_issue_def
      min_issue_def obj_get_def split: if_splits)

text \<open>
  Rejected inputs are explained: a submission that the schema of a web form rejects sends nothing
  and leaves an error under one of the inputs of the form.
\<close>

theorem rejected_inputs_explained:
  assumes "\<not> isSubmitting l" and "\<not> isSubmitting s" and "\<not> isSubmitting r"
    and "\<not> truthy_opt (lf_unverifiedEmail l)" and "\<not> sf_done s" and "\<not> rf_done r" and "tok \<noteq> []"
  shows "(loginSchema valid_email v \<noteq> [] \<longrightarrow>
      answered LoginForm_view (LoginForm valid_email l (Submit v)) \<and> snd (LoginForm valid_email l (Submit v)) = []) \<and>
    (signupSchema valid_email v \<noteq> [] \<longrightarrow>
      answered SignupForm_view (SignupForm valid_email s (Submit v)) \<and> snd (SignupForm valid_email s (Submit v)) = []) \<and>
    (confirmResetSchema w \<noteq> [] \<longrightarrow>
      answered (ConfirmResetForm_view tok) (ConfirmResetForm tok r (Submit w)) \<and> snd (ConfirmResetForm tok r (Submit w)) = []) \<and>
    (requestResetSchema valid_email w \<noteq> [] \<longrightarrow>
      answered RequestResetForm_view (RequestResetForm valid_email r (Submit w)) \<and> snd (RequestResetForm valid_email r (Submit w)) = [])"
proof (intro conjI impI)
  note shown = answered_def handleSubmit_def views_say schema_shown
  show "answered LoginForm_view (LoginForm valid_email l (Submit v))" if "loginSchema valid_email v \<noteq> []"
    using assms(1,4) that by (simp add: shown)
  show "answered SignupForm_view (SignupForm valid_email s (Submit v))" if "signupSchema valid_email v \<noteq> []"
    using assms(2,5) that by (simp add: shown)
  show "answered (ConfirmResetForm_view tok) (ConfirmResetForm tok r (Submit w))" if "confirmResetSchema w \<noteq> []"
    using assms(3,6,7) that by (simp add: shown)
  show "answered RequestResetForm_view (RequestResetForm valid_email r (Submit w))" if "requestResetSchema valid_email w \<noteq> []"
    using assms(3,6) that by (simp add: shown)
qed (use assms in \<open>simp_all add: handleSubmit_def\<close>)

text \<open>
  A role change that fails looks like one that succeeded: the select keeps showing the role that
  was picked, and nothing on the row reports the failure.
\<close>

theorem failed_role_change_shown:
  assumes "mb_role m \<noteq> Owner" and "r \<in> set ROLES"
  shows "MemberRow_view m (fst (runs (MemberRow ws m) (member_line_init m) [Ml_pick r, Ml_settled (Inl e)])) =
      MemberRow_view m (fst (runs (MemberRow ws m) (member_line_init m) [Ml_pick r, Ml_settled (Inr m')])) \<and>
    map_option fst (mv_select (MemberRow_view m
      (fst (runs (MemberRow ws m) (member_line_init m) [Ml_pick r, Ml_settled (Inl e)])))) = Some r"
  using assms by (simp add: MemberRow_view_def member_line_init_def row_roles_def)

text \<open>
  The access editor saves what it shows: pressing the button sends the restriction that is shown,
  with no channel when there is none, and otherwise with the channels whose boxes are checked, and
  those beyond the listed channels that were allowed before.
\<close>

theorem access_shown_is_saved:
  assumes "\<not> snd (xv_save (ChannelAccessEditor_view (Some channels) s))"
  shows "\<exists>ids. snd (ChannelAccessEditor call channels s Ae_save) = [call (xv_restricted (ChannelAccessEditor_view (Some channels) s), ids)] \<and>
    (xv_everywhere (ChannelAccessEditor_view (Some channels) s) \<longrightarrow> ids = []) \<and>
    {i \<in> set ids. i \<in> ch_id ` set channels} = {i. \<exists>l p. (i, l, p, True) \<in> set (xv_boxes (ChannelAccessEditor_view (Some channels) s))} \<and>
    (xv_restricted (ChannelAccessEditor_view (Some channels) s) \<longrightarrow> set ids - ch_id ` set channels = set (ae_selected s) - ch_id ` set channels)"
  using assms by (auto simp: ChannelAccessEditor_view_def access_payload_def)

text \<open>
  The activity feeds of the clients read the same, but for one action: the request for a password
  reset has no phrase on mobile.
\<close>

lemma activity_labels_agree:
  "a \<noteq> js ''user.password_reset_requested'' \<Longrightarrow> activity_label ACTION_LABELS a = activity_label mob_ACTION_LABELS a"
  by (simp add: activity_label_def ACTION_LABELS_def mob_ACTION_LABELS_def)

theorem feeds_agree:
  assumes "js ''user.password_reset_requested'' \<notin> ac_action ` set (nullish activity [])"
  shows "ActivityFeed ACTION_LABELS t isPending isError activity = ActivityFeed mob_ACTION_LABELS t isPending isError activity"
proof -
  have "ActivityRow ACTION_LABELS t e = ActivityRow mob_ACTION_LABELS t e" if "e \<in> set (nullish activity [])" for e
  proof -
    from that assms have "ac_action e \<noteq> js ''user.password_reset_requested''" by force
    then show ?thesis by (simp add: ActivityRow_def activity_labels_agree)
  qed
  then show ?thesis by (simp add: ActivityFeed_def)
qed

end
