(* ===== verification/ResetProject.thy ===== *)
theory ResetProject
  imports Prelude
begin

text \<open>
  \<^verbatim>\<open>mobile/scripts/reset-project.js\<close>: the script that moves the project's directories to
  \<^verbatim>\<open>example\<close> (or deletes them) and writes a blank app. Paths are relative to the working directory; a file
  system is a list of entries. The four operations are those of Node's \<open>fs.promises\<close>; the parameter \<open>os\<close>
  says which call is refused beyond that (permissions, a full disk), with the message and what the
  refused call leaves behind.
\<close>

section \<open>File systems\<close>

type_synonym path = "string list"

datatype node = Dir | File jstring

type_synonym fs = "(path \<times> node) list"

definition fs_get :: "fs \<Rightarrow> path \<Rightarrow> node option" where
  "fs_get fs p = map_of fs p"

definition fs_put :: "path \<Rightarrow> node \<Rightarrow> fs \<Rightarrow> fs" where
  "fs_put p n fs = (p, n) # fs"

definition below :: "path \<Rightarrow> path \<Rightarrow> bool" where
  "below p q = (take (length p) q = p)"

fun holds_file :: "node option \<Rightarrow> bool" where
  "holds_file (Some (File c)) = True"
| "holds_file _ = False"

datatype fs_op = Mkdir path | Rename path path | Rm path | WriteFile path jstring

text \<open>\<open>mkdir\<close> with \<open>recursive\<close>: every missing directory on the way.\<close>

definition fs_mkdir :: "path \<Rightarrow> fs \<Rightarrow> jstring + fs" where
  "fs_mkdir p fs =
     (let ps = map (\<lambda>k. take k p) [0..<Suc (length p)] in
      if list_ex (\<lambda>q. holds_file (fs_get fs q)) ps then Inl (js ''ENOTDIR'')
      else Inr (fold (\<lambda>q fs. if fs_get fs q = None then fs_put q Dir fs else fs) ps fs))"

text \<open>\<open>rename\<close>: onto nothing, a file onto a file, or a directory onto an empty one.\<close>

definition fs_rename :: "path \<Rightarrow> path \<Rightarrow> fs \<Rightarrow> jstring + fs" where
  "fs_rename old new fs =
     (if fs_get fs old = None \<or> fs_get fs (butlast new) \<noteq> Some Dir then Inl (js ''ENOENT'')
      else if list_ex (\<lambda>e. below new (fst e) \<and> fst e \<noteq> new) fs then Inl (js ''ENOTEMPTY'')
      else if fs_get fs old = Some Dir \<and> holds_file (fs_get fs new) then Inl (js ''ENOTDIR'')
      else if fs_get fs old \<noteq> Some Dir \<and> fs_get fs new = Some Dir then Inl (js ''EISDIR'')
      else Inr (map (\<lambda>e. if below old (fst e) then (new @ drop (length old) (fst e), snd e) else e)
                  (filter (\<lambda>e. fst e \<noteq> new) fs)))"

definition fs_rm :: "path \<Rightarrow> fs \<Rightarrow> fs" where
  "fs_rm p fs = filter (\<lambda>e. \<not> below p (fst e)) fs"

definition fs_write :: "path \<Rightarrow> jstring \<Rightarrow> fs \<Rightarrow> jstring + fs" where
  "fs_write p c fs =
     (if fs_get fs (butlast p) \<noteq> Some Dir then Inl (js ''ENOENT'')
      else if fs_get fs p = Some Dir then Inl (js ''EISDIR'')
      else Inr (fs_put p (File c) fs))"

fun fs_apply :: "fs_op \<Rightarrow> fs \<Rightarrow> jstring + fs" where
  "fs_apply (Mkdir p) fs = fs_mkdir p fs"
| "fs_apply (Rename p q) fs = fs_rename p q fs"
| "fs_apply (Rm p) fs = Inr (fs_rm p fs)"
| "fs_apply (WriteFile p c) fs = fs_write p c fs"

type_synonym os = "fs_op \<Rightarrow> fs \<Rightarrow> (jstring \<times> fs) option"

definition exec :: "os \<Rightarrow> fs_op \<Rightarrow> fs \<Rightarrow> (jstring \<times> fs) + fs" where
  "exec os op fs =
     (case os op fs of
        Some r \<Rightarrow> Inl r
      | None \<Rightarrow> (case fs_apply op fs of Inl e \<Rightarrow> Inl (e, fs) | Inr fs' \<Rightarrow> Inr fs'))"

section \<open>The script\<close>

definition oldDirs :: "string list" where
  "oldDirs = [''src'', ''scripts'']"

definition exampleDir :: string where
  "exampleDir = ''example''"

definition newAppDir :: path where
  "newAppDir = [''src'', ''app'']"

definition text_lines :: "string list \<Rightarrow> jstring" where
  "text_lines ls = concat (map (\<lambda>l. js l @ [10]) ls)"

definition indexContent :: jstring where
  \<open>indexContent = text_lines
     [''import { Text, View, StyleSheet } from "react-native";'', '''',
      ''export default function Index() {'', ''  return ('', ''    <View style={styles.container}>'',
      ''      <Text>Edit src/app/index.tsx to edit this screen.</Text>'', ''    </View>'', ''  );'', ''}'', '''',
      ''const styles = StyleSheet.create({'', ''  container: {'', ''    flex: 1,'', ''    alignItems: "center",'',
      ''    justifyContent: "center",'', ''  },'', ''});'']\<close>

definition layoutContent :: jstring where
  \<open>layoutContent = text_lines
     [''import { Stack } from "expo-router";'', '''', ''export default function RootLayout() {'', ''  return <Stack />;'', ''}'']\<close>

text \<open>What is printed.\<close>

datatype line =
    Example_created
  | Moved string
  | Deleted string
  | Skipped string
  | App_created
  | Index_created
  | Layout_created
  | Complete bool          \<comment> \<open>with the reminder to delete the copy\<close>
  | Failed_with jstring
  | Invalid_input

text \<open>Calls in sequence, each with the line printed after it; the first that fails ends the sequence.\<close>

fun run_ops :: "os \<Rightarrow> (fs_op \<times> line) list \<Rightarrow> fs \<times> line list \<Rightarrow> ((jstring \<times> fs) + fs) \<times> line list" where
  "run_ops os [] (fs, out) = (Inr fs, out)"
| "run_ops os ((op, l) # ops) (fs, out) =
     (case exec os op fs of Inl r \<Rightarrow> (Inl r, out) | Inr fs' \<Rightarrow> run_ops os ops (fs', out @ [l]))"

fun move_dirs :: "os \<Rightarrow> bool \<Rightarrow> string list \<Rightarrow> fs \<times> line list \<Rightarrow> ((jstring \<times> fs) + fs) \<times> line list" where
  "move_dirs os keep [] (fs, out) = (Inr fs, out)"
| "move_dirs os keep (d # ds) (fs, out) =
     (if fs_get fs [d] = None then move_dirs os keep ds (fs, out @ [Skipped d])
      else case exec os (if keep then Rename [d] [exampleDir, d] else Rm [d]) fs of
             Inl r \<Rightarrow> (Inl r, out)
           | Inr fs' \<Rightarrow> move_dirs os keep ds (fs', out @ [if keep then Moved d else Deleted d]))"

definition then_run :: "((jstring \<times> fs) + fs) \<times> line list \<Rightarrow> (fs \<times> line list \<Rightarrow> ((jstring \<times> fs) + fs) \<times> line list)
    \<Rightarrow> ((jstring \<times> fs) + fs) \<times> line list" where
  "then_run r f = (case r of (Inl e, out) \<Rightarrow> (Inl e, out) | (Inr fs, out) \<Rightarrow> f (fs, out))"

text \<open>\<open>moveDirectories\<close>: the \<open>try\<close> block, and its \<open>catch\<close>.\<close>

definition moveDirectories :: "os \<Rightarrow> bool \<Rightarrow> fs \<Rightarrow> fs \<times> line list" where
  "moveDirectories os keep fs =
     (case then_run (then_run
             (if keep then run_ops os [(Mkdir [exampleDir], Example_created)] (fs, []) else (Inr fs, []))
             (move_dirs os keep oldDirs))
             (run_ops os [(Mkdir newAppDir, App_created),
                          (WriteFile (newAppDir @ [''index.tsx'']) indexContent, Index_created),
                          (WriteFile (newAppDir @ [''_layout.tsx'']) layoutContent, Layout_created)]) of
        (Inl (e, fs'), out) \<Rightarrow> (fs', out @ [Failed_with e])
      | (Inr fs', out) \<Rightarrow> (fs', out @ [Complete keep]))"

definition to_lower :: "jstring \<Rightarrow> jstring" where
  "to_lower s = map (\<lambda>c. if 65 \<le> c \<and> c \<le> 90 then c + 32 else c) s"

text \<open>
  The answer to the question; an empty one is \<open>y\<close>. Only the letters of the alphabet are lowered in
  \<open>to_lower\<close>: no other character has the lower case \<open>y\<close> or \<open>n\<close>, so the others only lead to the refusal.
\<close>

definition reset_project :: "os \<Rightarrow> jstring \<Rightarrow> fs \<Rightarrow> fs \<times> line list" where
  "reset_project os answer fs =
     (let t = to_lower (trim answer); userInput = (if truthy t then t else js ''y'') in
      if userInput = js ''y'' \<or> userInput = js ''n'' then moveDirectories os (userInput = js ''y'') fs
      else (fs, [Invalid_input]))"

section \<open>What a call keeps\<close>

definition is_file :: "fs \<Rightarrow> path \<Rightarrow> jstring \<Rightarrow> bool" where
  "is_file fs p c = (fs_get fs p = Some (File c))"

text \<open>The files an operation may destroy even when it is refused half-way.\<close>

fun at_risk :: "fs_op \<Rightarrow> path \<Rightarrow> bool" where
  "at_risk (WriteFile q c) p = (p = q)"
| "at_risk (Rm q) p = below q p"
| "at_risk op p = False"

definition refuses_safely :: "os \<Rightarrow> bool" where
  "refuses_safely os =
     (\<forall>op fs e fs' p c. os op fs = Some (e, fs') \<and> is_file fs p c \<and> \<not> at_risk op p \<longrightarrow> is_file fs' p c)"

lemma fs_put_get [simp]: "fs_get (fs_put p n fs) q = (if q = p then Some n else fs_get fs q)"
  by (simp add: fs_get_def fs_put_def)

lemma mkdir_fold_get:
  "fs_get fs p = Some n \<Longrightarrow> fs_get (fold (\<lambda>q fs. if fs_get fs q = None then fs_put q Dir fs else fs) ps fs) p = Some n"
proof (induction ps arbitrary: fs)
  case (Cons a ps)
  then have "fs_get (if fs_get fs a = None then fs_put a Dir fs else fs) p = Some n" by auto
  then show ?case using Cons.IH by simp
qed simp

lemma mkdir_keeps: "fs_mkdir q fs = Inr fs' \<Longrightarrow> is_file fs p c \<Longrightarrow> is_file fs' p c"
  by (auto simp: fs_mkdir_def is_file_def Let_def mkdir_fold_get split: if_splits)

lemma map_of_key_map:
  assumes "map_of xs p = Some n" and "\<And>q. q \<in> fst ` set xs \<Longrightarrow> h q = h p \<Longrightarrow> q = p"
  shows "map_of (map (\<lambda>e. (h (fst e), snd e)) xs) (h p) = Some n"
  using assms
proof (induction xs)
  case (Cons e xs)
  show ?case
  proof (cases "fst e = p")
    case False
    then have "h (fst e) \<noteq> h p" using Cons.prems(2) by auto
    moreover have "map_of (map (\<lambda>e. (h (fst e), snd e)) xs) (h p) = Some n"
      using Cons.prems False by (intro Cons.IH) (auto simp: split: if_splits)
    ultimately show ?thesis by simp
  qed (use Cons.prems(1) in auto)
qed simp

lemma map_of_filter_key: "p \<noteq> q \<Longrightarrow> map_of (filter (\<lambda>e. fst e \<noteq> q) xs) p = map_of xs p"
  by (induction xs) auto

text \<open>Moving a top-level directory into \<open>example\<close> puts each of its entries there and leaves the others.\<close>

definition moved :: "string \<Rightarrow> path \<Rightarrow> path" where
  "moved d p = (if below [d] p then exampleDir # p else p)"

lemma below_single [simp]: "below [d] p \<longleftrightarrow> (\<exists>r. p = d # r)"
  by (cases p) (auto simp: below_def)

lemma moved_inj:
  assumes "moved d q = moved d p" and "d \<noteq> exampleDir"
    and "\<And>r. q \<noteq> exampleDir # d # r" and "\<And>r. p \<noteq> exampleDir # d # r"
  shows "q = p"
  using assms by (auto simp: moved_def split: if_splits)

lemma rename_get:
  assumes "fs_rename [d] [exampleDir, d] fs = Inr fs'" and "d \<noteq> exampleDir" and "p \<noteq> [exampleDir, d]"
    and "fs_get fs p = Some n"
  shows "fs_get fs' (moved d p) = Some n"
proof -
  let ?new = "[exampleDir, d]" and ?keep = "filter (\<lambda>e. fst e \<noteq> [exampleDir, d]) fs"
  have fs': "fs' = map (\<lambda>e. if below [d] (fst e) then (?new @ drop (length [d]) (fst e), snd e) else e) ?keep"
    and free: "\<not> list_ex (\<lambda>e. below ?new (fst e) \<and> fst e \<noteq> ?new) fs"
    using assms(1) by (simp_all add: fs_rename_def del: below_single split: if_splits)
  have "(if below [d] (fst e) then (?new @ drop (length [d]) (fst e), snd e) else e) = (moved d (fst e), snd e)" for e :: "path \<times> node"
    by (cases e) (auto simp: moved_def)
  then have eq: "fs' = map (\<lambda>e. (moved d (fst e), snd e)) ?keep" using fs' by simp
  have unused: "q \<noteq> exampleDir # d # r" if "q \<in> fst ` set ?keep" for q r
  proof
    assume q: "q = exampleDir # d # r"
    from that obtain e where "e \<in> set fs" "fst e = q" "q \<noteq> ?new" by auto
    with q free show False by (auto simp: list_ex_iff below_def)
  qed
  have keep: "map_of ?keep p = Some n" using assms(4) map_of_filter_key [OF assms(3), of fs] by (simp add: fs_get_def)
  then have "p \<in> fst ` set ?keep" by (metis map_of_eq_None_iff option.distinct(1))
  then have "q = p" if "q \<in> fst ` set ?keep" "moved d q = moved d p" for q
    using that moved_inj [OF that(2) assms(2)] unused by blast
  with keep have "map_of (map (\<lambda>e. (moved d (fst e), snd e)) ?keep) (moved d p) = Some n"
    by (rule map_of_key_map)
  then show ?thesis by (simp add: eq fs_get_def)
qed

section \<open>Keeping the project\<close>

text \<open>Where a file of the project is after the directories in \<open>D\<close> were moved.\<close>

definition place :: "string set \<Rightarrow> path \<Rightarrow> path" where
  "place D p = (case p of [] \<Rightarrow> [] | d # r \<Rightarrow> if d \<in> D then exampleDir # p else p)"

definition relocated :: "string set \<Rightarrow> fs \<Rightarrow> fs \<Rightarrow> bool" where
  "relocated D fs0 fs = (\<forall>p c. is_file fs0 p c \<longrightarrow> is_file fs (place D p) c)"

text \<open>Every entry lies in directories that are there.\<close>

definition fs_ok :: "fs \<Rightarrow> bool" where
  "fs_ok fs = (\<forall>p n k. fs_get fs p = Some n \<and> k < length p \<longrightarrow> fs_get fs (take k p) = Some Dir)"

lemma exec_cases:
  assumes "refuses_safely os"
  shows "exec os op fs = Inl (e, fs') \<Longrightarrow> is_file fs p c \<Longrightarrow> \<not> at_risk op p \<Longrightarrow> is_file fs' p c"
    and "exec os op fs = Inr fs' \<Longrightarrow> fs_apply op fs = Inr fs'"
  using assms by (auto simp: exec_def refuses_safely_def split: option.splits sum.splits)

lemma relocated_move:
  assumes "relocated D fs0 fs" and "fs_rename [d] [exampleDir, d] fs = Inr fs'" and "d \<notin> D" and "d \<noteq> exampleDir"
    and "exampleDir \<notin> D" and "\<And>c. \<not> is_file fs [d] c"
  shows "relocated (insert d D) fs0 fs'"
  unfolding relocated_def
proof (intro allI impI)
  fix p c assume "is_file fs0 p c"
  then have f: "fs_get fs (place D p) = Some (File c)" using assms(1) by (simp add: relocated_def is_file_def)
  have "place D p \<noteq> [exampleDir, d]"
  proof
    assume "place D p = [exampleDir, d]"
    with f have "fs_get fs [exampleDir, d] = Some (File c)" by simp
    moreover have "fs_get fs [d] = Some Dir"
    proof (cases "fs_get fs [d]")
      case (Some y)
      then show ?thesis using assms(6) by (cases y) (auto simp: is_file_def)
    qed (use assms(2) in \<open>simp add: fs_rename_def\<close>)
    ultimately show False using assms(2) by (simp add: fs_rename_def split: if_splits)
  qed
  from rename_get [OF assms(2,4) this f] have "fs_get fs' (moved d (place D p)) = Some (File c)" .
  moreover have "moved d (place D p) = place (insert d D) p"
    using assms(3-5) by (auto simp: moved_def place_def split: list.split)
  ultimately show "is_file fs' (place (insert d D) p) c" by (simp add: is_file_def)
qed

lemma relocated_keep:
  assumes "relocated D fs0 fs" and "\<And>p c. is_file fs p c \<Longrightarrow> p \<in> place D ` {p. \<exists>c. is_file fs0 p c} \<Longrightarrow> is_file fs' p c"
  shows "relocated D fs0 fs'"
  using assms unfolding relocated_def by blast

lemma relocated_exec_failed:
  assumes "refuses_safely os" and "relocated D fs0 fs" and "exec os op fs = Inl (e, fs')"
    and "\<And>p c. is_file fs0 p c \<Longrightarrow> \<not> at_risk op (place D p)"
  shows "relocated D fs0 fs'"
  by (rule relocated_keep [OF assms(2)]) (use exec_cases(1) [OF assms(1,3)] assms(4) in blast)

text \<open>The final state of a sequence, whether it failed or not.\<close>

definition state_of :: "((jstring \<times> fs) + fs) \<times> line list \<Rightarrow> fs" where
  "state_of r = (case fst r of Inl (e, fs) \<Rightarrow> fs | Inr fs \<Rightarrow> fs)"

lemma run_ops_relocated:
  assumes "refuses_safely os" and "relocated D fs0 fs"
    and "\<forall>x\<in>set ops. (\<exists>q. fst x = Mkdir q) \<or> (\<exists>q b. fst x = WriteFile q b \<and> (\<forall>p c. is_file fs0 p c \<longrightarrow> place D p \<noteq> q))"
  shows "relocated D fs0 (state_of (run_ops os ops (fs, out)))"
  using assms(2,3)
proof (induction ops arbitrary: fs out)
  case (Cons x ops)
  obtain op l where x: "x = (op, l)" by (cases x)
  show ?case
  proof (cases "exec os op fs")
    case (Inl r)
    obtain e fs' where r: "r = (e, fs')" by (cases r)
    have "\<not> at_risk op (place D p)" if "is_file fs0 p c" for p c
      using Cons.prems(2) that x by auto
    from relocated_exec_failed [OF assms(1) Cons.prems(1) Inl [unfolded r] this] show ?thesis
      using x Inl r by (simp add: state_of_def)
  next
    case (Inr fs')
    then have ok: "fs_apply op fs = Inr fs'" by (rule exec_cases(2) [OF assms(1)])
    have "relocated D fs0 fs'"
    proof (cases "\<exists>q. op = Mkdir q")
      case True
      then show ?thesis using ok mkdir_keeps by (intro relocated_keep [OF Cons.prems(1)]) auto
    next
      case False
      then obtain q b where "op = WriteFile q b" "\<forall>p c. is_file fs0 p c \<longrightarrow> place D p \<noteq> q"
        using Cons.prems(2) x by auto
      then show ?thesis using ok
        by (intro relocated_keep [OF Cons.prems(1)]) (auto simp: fs_write_def is_file_def split: if_splits)
    qed
    then show ?thesis using Cons x Inr by simp
  qed
qed (simp add: state_of_def)

lemma rename_top:
  assumes "fs_rename [d] [exampleDir, d] fs = Inr fs'" and "d \<noteq> exampleDir" and "b \<noteq> d"
  shows "fs_get fs' [b] = fs_get fs [b]"
proof (cases "fs_get fs [b]")
  case (Some n)
  then show ?thesis using rename_get [OF assms(1,2) _ Some] assms(3) by (simp add: moved_def)
next
  case None
  have "fs' = map (\<lambda>e. if below [d] (fst e) then ([exampleDir, d] @ drop (length [d]) (fst e), snd e) else e)
      (filter (\<lambda>e. fst e \<noteq> [exampleDir, d]) fs)"
    using assms(1) by (simp add: fs_rename_def del: below_single split: if_splits)
  then have "[b] \<notin> fst ` set fs'" using None by (auto simp: fs_get_def map_of_eq_None_iff)
  then have "fs_get fs' [b] = None" by (simp add: fs_get_def map_of_eq_None_iff)
  with None show ?thesis by simp
qed

lemma move_dirs_relocated:
  assumes "refuses_safely os" and "relocated D fs0 fs" and "distinct ds" and "set ds \<inter> D = {}"
    and "exampleDir \<notin> set ds \<union> D" and "\<forall>d\<in>set ds. \<forall>c. \<not> is_file fs [d] c"
  shows "\<exists>D'. D \<subseteq> D' \<and> relocated D' fs0 (state_of (move_dirs os True ds (fs, out))) \<and>
    (\<forall>fs'. fst (move_dirs os True ds (fs, out)) = Inr fs' \<longrightarrow> (\<forall>d\<in>set ds. fs_get fs [d] \<noteq> None \<longrightarrow> d \<in> D'))"
  using assms(2-6)
proof (induction ds arbitrary: D fs out)
  case (Cons d ds)
  show ?case
  proof (cases "fs_get fs [d] = None")
    case True
    with Cons.IH [OF Cons.prems(1), of "out @ [Skipped d]"] Cons.prems(2-5) show ?thesis by auto
  next
    case False
    show ?thesis
    proof (cases "exec os (Rename [d] [exampleDir, d]) fs")
      case (Inl r)
      obtain e fs' where r: "r = (e, fs')" by (cases r)
      have "relocated D fs0 fs'" by (rule relocated_exec_failed [OF assms(1) Cons.prems(1) Inl [unfolded r]]) simp
      then show ?thesis using False Inl r by (intro exI [of _ D]) (auto simp: state_of_def)
    next
      case (Inr fs')
      then have ren: "fs_rename [d] [exampleDir, d] fs = Inr fs'" using exec_cases(2) [OF assms(1)] by fastforce
      have d: "d \<notin> D" "d \<noteq> exampleDir" "exampleDir \<notin> D" "\<And>c. \<not> is_file fs [d] c" using Cons.prems by auto
      have top: "fs_get fs' [b] = fs_get fs [b]" if "b \<in> set ds" for b
        using rename_top [OF ren d(2)] that Cons.prems(2) by (metis distinct.simps(2))
      have "relocated (insert d D) fs0 fs'" by (rule relocated_move [OF Cons.prems(1) ren d])
      from Cons.IH [OF this, of "out @ [Moved d]"] Cons.prems(2-5) top
      obtain D' where "insert d D \<subseteq> D'" "relocated D' fs0 (state_of (move_dirs os True ds (fs', out @ [Moved d])))"
          "\<forall>fs''. fst (move_dirs os True ds (fs', out @ [Moved d])) = Inr fs'' \<longrightarrow>
            (\<forall>b\<in>set ds. fs_get fs' [b] \<noteq> None \<longrightarrow> b \<in> D')"
        by (auto simp: is_file_def)
      then show ?thesis using False Inr top by (intro exI [of _ D']) auto
    qed
  qed
qed (auto simp: state_of_def)

lemma place_relocated:
  assumes "relocated D fs0 fs" and "is_file fs0 p c"
  shows "is_file fs p c \<or> is_file fs (exampleDir # p) c"
proof -
  have "is_file fs (place D p) c" using assms by (simp add: relocated_def)
  then show ?thesis by (cases p) (auto simp: place_def split: if_splits)
qed

text \<open>The new files are written where no file of the project is any more.\<close>

lemma new_app_free:
  assumes "fs_ok fs" and "\<And>c. \<not> is_file fs [''src''] c" and "fs_get fs [''src''] \<noteq> None \<Longrightarrow> ''src'' \<in> D" and "is_file fs p c"
  shows "place D p \<noteq> newAppDir @ [f]"
proof
  assume new: "place D p = newAppDir @ [f]"
  then have p: "p = [''src'', ''app'', f]" "''src'' \<notin> D"
    by (cases p; auto simp: place_def newAppDir_def exampleDir_def split: if_splits)+
  with assms(1,4) have "fs_get fs (take 1 p) = Some Dir"
    unfolding fs_ok_def is_file_def by (metis One_nat_def Suc_less_eq length_Cons zero_less_Suc)
  with p assms(3) show False by simp
qed

lemma then_run_state:
  "(\<exists>r. fst x = Inl r \<and> state_of (then_run x f) = state_of x) \<or>
   (\<exists>fs out. x = (Inr fs, out) \<and> state_of x = fs \<and> then_run x f = f (fs, out))"
  by (cases x; cases "fst x") (auto simp: then_run_def state_of_def)

lemma mkdir_get:
  assumes "fs_mkdir q fs = Inr fs'"
  shows "fs_get fs' p = fs_get fs p \<or> fs_get fs p = None \<and> fs_get fs' p = Some Dir"
proof -
  have each: "fs_get (fold (\<lambda>q fs. if fs_get fs q = None then fs_put q Dir fs else fs) ps fs) p = fs_get fs p \<or>
      fs_get fs p = None \<and> fs_get (fold (\<lambda>q fs. if fs_get fs q = None then fs_put q Dir fs else fs) ps fs) p = Some Dir" for ps
  proof (induction ps arbitrary: fs)
    case (Cons a ps)
    show ?case using Cons.IH [of "if fs_get fs a = None then fs_put a Dir fs else fs"] by (auto split: if_splits)
  qed simp
  have fold: "fs' = fold (\<lambda>q fs. if fs_get fs q = None then fs_put q Dir fs else fs) (map (\<lambda>k. take k q) [0..<Suc (length q)]) fs"
    using assms by (simp add: fs_mkdir_def Let_def del: upt_Suc split: if_splits)
  show ?thesis unfolding fold by (rule each)
qed

lemma moveDirectories_relocated:
  assumes "refuses_safely os" and "fs_ok fs" and "\<forall>d\<in>set oldDirs. \<forall>c. \<not> is_file fs [d] c"
  shows "\<exists>D. relocated D fs (fst (moveDirectories os True fs))"
proof -
  define r1 where "r1 = run_ops os [(Mkdir [exampleDir], Example_created)] (fs, [])"
  define r2 where "r2 = then_run r1 (move_dirs os True oldDirs)"
  define ops where "ops = [(Mkdir newAppDir, App_created),
    (WriteFile (newAppDir @ [''index.tsx'']) indexContent, Index_created),
    (WriteFile (newAppDir @ [''_layout.tsx'']) layoutContent, Layout_created)]"
  define r3 where "r3 = then_run r2 (run_ops os ops)"
  have "relocated {} fs fs" by (simp add: relocated_def place_def split: list.split)
  then have 1: "relocated {} fs (state_of r1)" unfolding r1_def
    by (rule run_ops_relocated [OF assms(1)]) simp
  have "\<exists>D. relocated D fs (state_of r2) \<and> (\<forall>fs2 out. r2 = (Inr fs2, out) \<longrightarrow> fs_get fs [''src''] \<noteq> None \<longrightarrow> ''src'' \<in> D)"
  proof (cases "\<exists>r. fst r1 = Inl r")
    case True
    then have "state_of r2 = state_of r1" "\<exists>r. fst r2 = Inl r" by (cases r1; auto simp: r2_def then_run_def state_of_def)+
    then show ?thesis using 1 by auto
  next
    case False
    then obtain fs1 out where r1: "r1 = (Inr fs1, out)" by (metis prod.collapse sum.exhaust)
    then have mk: "fs_mkdir [exampleDir] fs = Inr fs1"
      using exec_cases(2) [OF assms(1), of "Mkdir [exampleDir]" fs fs1] by (auto simp: r1_def split: sum.splits)
    have dirs: "\<forall>d\<in>set oldDirs. \<forall>c. \<not> is_file fs1 [d] c"
      using assms(3) mkdir_get [OF mk] unfolding is_file_def by (metis node.distinct(1) option.inject)
    have src: "fs_get fs [''src''] \<noteq> None \<longrightarrow> fs_get fs1 [''src''] \<noteq> None" using mkdir_get [OF mk, of "[''src'']"] by auto
    have "relocated {} fs fs1" using 1 r1 by (simp add: state_of_def)
    from move_dirs_relocated [OF assms(1) this _ _ _ dirs, of out]
    obtain D' where "relocated D' fs (state_of (move_dirs os True oldDirs (fs1, out)))"
        "\<forall>fs'. fst (move_dirs os True oldDirs (fs1, out)) = Inr fs' \<longrightarrow> (\<forall>d\<in>set oldDirs. fs_get fs1 [d] \<noteq> None \<longrightarrow> d \<in> D')"
      by (auto simp: oldDirs_def exampleDir_def)
    then show ?thesis using r1 src by (intro exI [of _ D']) (auto simp: r2_def then_run_def oldDirs_def)
  qed
  then obtain D where D: "relocated D fs (state_of r2)"
      "\<forall>fs2 out. r2 = (Inr fs2, out) \<longrightarrow> fs_get fs [''src''] \<noteq> None \<longrightarrow> ''src'' \<in> D" by blast
  have "relocated D fs (state_of r3)"
  proof (cases "\<exists>r. fst r2 = Inl r")
    case True
    then show ?thesis using D(1) by (cases r2) (auto simp: r3_def then_run_def state_of_def)
  next
    case False
    then obtain fs2 out where r2: "r2 = (Inr fs2, out)" by (metis prod.collapse sum.exhaust)
    have free: "place D q \<noteq> newAppDir @ [f]" if "is_file fs q b" for q b f
      by (rule new_app_free [OF assms(2) _ _ that]) (use assms(3) D(2) r2 in \<open>auto simp: oldDirs_def\<close>)
    have "relocated D fs fs2" using D(1) r2 by (simp add: state_of_def)
    then show ?thesis unfolding r3_def r2 then_run_def ops_def
      by (simp del: run_ops.simps) (rule run_ops_relocated [OF assms(1)], use free in auto)
  qed
  moreover have "fst (moveDirectories os True fs) = state_of r3"
    by (simp add: moveDirectories_def r3_def r2_def r1_def ops_def state_of_def del: run_ops.simps split: prod.split sum.split)
  ultimately show ?thesis by auto
qed

section \<open>Properties\<close>



text \<open>A step of a run prints its own line only.\<close>

lemma move_dirs_prints: "Complete k \<notin> set out \<Longrightarrow> Complete k \<notin> set (snd (move_dirs os keep ds (fs, out)))"
  by (induction ds arbitrary: fs out) (auto split: sum.splits)

lemma written: "exec os (WriteFile q b) fs = Inr fs' \<Longrightarrow> fs' = fs_put q (File b) fs"
  by (auto simp: exec_def fs_write_def split: option.splits sum.splits if_splits)

lemma run_ops_ends:
  assumes "run_ops os (ops @ [(WriteFile p b, l), (WriteFile q c, l')]) (fs, out) = (Inr fs', out')" and "p \<noteq> q"
  shows "is_file fs' p b \<and> is_file fs' q c"
  using assms
proof (induction ops arbitrary: fs out)
  case Nil
  then show ?case by (auto simp: is_file_def dest!: written split: sum.splits)
next
  case (Cons x ops)
  then show ?case by (cases x) (auto split: sum.splits)
qed

lemma run_ops_prints: "Complete k \<notin> set out \<union> snd ` set ops \<Longrightarrow> Complete k \<notin> set (snd (run_ops os ops (fs, out)))"
proof (induction ops arbitrary: fs out)
  case (Cons x ops)
  then show ?case by (cases x) (auto split: sum.splits)
qed simp

text \<open>
  When the script says it is complete, the blank app is there: both files under \<open>src/app\<close>, with
  exactly the contents of the script.
\<close>

theorem complete_means_blank_app:
  assumes "Complete k \<in> set (snd (reset_project os answer fs))"
  shows "is_file (fst (reset_project os answer fs)) (newAppDir @ [''index.tsx'']) indexContent \<and>
    is_file (fst (reset_project os answer fs)) (newAppDir @ [''_layout.tsx'']) layoutContent"
proof -
  obtain keep where run: "reset_project os answer fs = moveDirectories os keep fs"
    using assms by (auto simp: reset_project_def Let_def split: if_splits)
  define r1 where "r1 = (if keep then run_ops os [(Mkdir [exampleDir], Example_created)] (fs, []) else (Inr fs, []))"
  define r2 where "r2 = then_run r1 (move_dirs os keep oldDirs)"
  have "Complete k \<notin> set (snd r1)" by (auto simp: r1_def split: sum.splits)
  then have r2: "Complete k \<notin> set (snd r2)"
    using move_dirs_prints by (auto simp: r2_def then_run_def split: prod.splits sum.splits)
  let ?ops = "[(Mkdir newAppDir, App_created),
    (WriteFile (newAppDir @ [''index.tsx'']) indexContent, Index_created),
    (WriteFile (newAppDir @ [''_layout.tsx'']) layoutContent, Layout_created)]"
  define r3 where "r3 = then_run r2 (run_ops os ?ops)"
  have r3: "Complete k \<notin> set (snd r3)"
    unfolding r3_def then_run_def using r2 run_ops_prints [of k _ ?ops os] by (fastforce split: prod.splits sum.splits simp del: run_ops.simps)
  have result: "moveDirectories os keep fs =
      (case r3 of (Inl (e, fs'), out) \<Rightarrow> (fs', out @ [Failed_with e]) | (Inr fs', out) \<Rightarrow> (fs', out @ [Complete keep]))"
    by (simp add: moveDirectories_def r3_def r2_def r1_def)
  with assms run r3 obtain fs' out' where done3: "r3 = (Inr fs', out')" "fst (moveDirectories os keep fs) = fs'"
    by (cases r3; cases "fst r3") auto
  then obtain fs2 out where "run_ops os ([(Mkdir newAppDir, App_created)] @ [(WriteFile (newAppDir @ [''index.tsx'']) indexContent, Index_created),
      (WriteFile (newAppDir @ [''_layout.tsx'']) layoutContent, Layout_created)]) (fs2, out) = (Inr fs', out')"
    by (auto simp: r3_def then_run_def simp del: run_ops.simps split: prod.splits sum.splits)
  from run_ops_ends [OF this] show ?thesis using done3(2) run by simp
qed

end
